(* ===== verification/GoBase.thy ===== *)
theory GoBase
  imports Main "HOL-Library.Multiset" "HOL-Library.Word" "HOL-Library.AList"
begin

text \<open>
  The parts of the Go language and of its standard library that the scheduler uses and that every
  component of the model shares:
  the outcome of a statement list (it may finish, block for ever on a mutex, or panic), Go maps with
  their unspecified iteration order, \<^verbatim>\<open>sort.Slice\<close>, and decimal printing for \<^verbatim>\<open>fmt.Sprintf("%d")\<close>.

  Go leaves two things open that the code depends on: the order in which \<^verbatim>\<open>range\<close> visits a map, and
  the order in which \<^verbatim>\<open>sort.Slice\<close> leaves elements that compare equal. Both are modelled by a list
  of numbers (a \<^emph>\<open>choice\<close>) that selects a permutation: every list is legal and every permutation is
  selected by some list, so a theorem for all choices is a theorem for every order Go may pick.
\<close>

section \<open>Outcomes of statements\<close>

named_theorems outcome_simps \<open>evaluation of statement lists and outcomes\<close>

text \<open>
  \<open>Done r s\<close>: the statements ran to the end; \<open>Stuck s\<close>: the goroutine waits for ever for a mutex, with
  the heap as it is in \<open>s\<close>; \<open>Panicked s\<close>: a run-time panic.
\<close>

datatype ('r, 's) res = Done 'r 's | Stuck 's | Panicked 's

fun bind_res :: "('r, 's) res \<Rightarrow> ('r \<Rightarrow> 's \<Rightarrow> ('q, 's) res) \<Rightarrow> ('q, 's) res" where
  "bind_res (Done r s) k = k r s"
| "bind_res (Stuck s) k = Stuck s"
| "bind_res (Panicked s) k = Panicked s"

text \<open>A statement list, run in order until one of them blocks or panics.\<close>

fun block :: "('s \<Rightarrow> (unit, 's) res) list \<Rightarrow> 's \<Rightarrow> (unit, 's) res" where
  "block [] s = Done () s"
| "block (f # fs) s = bind_res (f s) (\<lambda>_ s'. block fs s')"

definition act :: "('s \<Rightarrow> 's) \<Rightarrow> 's \<Rightarrow> (unit, 's) res" where
  "act f s = Done () (f s)"

definition returning :: "('s \<Rightarrow> 'r) \<Rightarrow> (unit, 's) res \<Rightarrow> ('r, 's) res" where
  "returning f m = bind_res m (\<lambda>_ s. Done (f s) s)"

fun final_state :: "('r, 's) res \<Rightarrow> 's" where
  "final_state (Done r s) = s"
| "final_state (Stuck s) = s"
| "final_state (Panicked s) = s"

fun is_done :: "('r, 's) res \<Rightarrow> bool" where
  "is_done (Done r s) = True"
| "is_done (Stuck s) = False"
| "is_done (Panicked s) = False"

fun is_panic :: "('r, 's) res \<Rightarrow> bool" where
  "is_panic (Done r s) = False"
| "is_panic (Stuck s) = False"
| "is_panic (Panicked s) = True"

lemma bind_res_Done_iff:
  "bind_res m k = Done q t \<longleftrightarrow> (\<exists>r s. m = Done r s \<and> k r s = Done q t)"
  by (cases m) auto

lemma final_state_bind:
  "final_state (bind_res m k)
     = (case m of Done r s \<Rightarrow> final_state (k r s) | Stuck s \<Rightarrow> s | Panicked s \<Rightarrow> s)"
  by (cases m) auto

lemma final_state_returning [simp]: "final_state (returning f m) = final_state m"
  by (cases m) (auto simp: returning_def)

lemma is_panic_returning [simp]: "is_panic (returning f m) = is_panic m"
  by (cases m) (auto simp: returning_def)

lemma returning_Done_iff:
  "returning f m = Done r t \<longleftrightarrow> m = Done () t \<and> r = f t"
  by (cases m) (auto simp: returning_def)

lemma block_act: "block (act f # fs) s = block fs (f s)"
  by (simp add: act_def)

lemma block_append: "block (fs @ gs) s = bind_res (block fs s) (\<lambda>_. block gs)"
proof (induction fs arbitrary: s)
  case Nil
  show ?case by simp
next
  case (Cons f fs)
  show ?case by (cases "f s") (auto simp: Cons.IH)
qed

text \<open>
  A state property that every statement keeps, whatever its outcome, is kept by the list. This is the
  rule by which the handlers' invariants are proved.
\<close>

definition keeps :: "('s \<Rightarrow> bool) \<Rightarrow> ('s \<Rightarrow> ('r, 's) res) \<Rightarrow> bool" where
  "keeps P f \<longleftrightarrow> (\<forall>s. P s \<longrightarrow> P (final_state (f s)))"

lemma keepsI: "(\<And>s. P s \<Longrightarrow> P (final_state (f s))) \<Longrightarrow> keeps P f"
  by (simp add: keeps_def)

lemma keepsD: "keeps P f \<Longrightarrow> P s \<Longrightarrow> P (final_state (f s))"
  by (simp add: keeps_def)

named_theorems keeps_intros \<open>rules that a state property is kept by a statement\<close>

lemma keeps_act: "(\<And>s. P s \<Longrightarrow> P (f s)) \<Longrightarrow> keeps P (act f)"
  by (simp add: keeps_def act_def)

lemma keeps_Done [keeps_intros]: "keeps P (\<lambda>s. Done r s)"
  by (simp add: keeps_def)

lemma keeps_if [keeps_intros]: "keeps P f \<Longrightarrow> keeps P g \<Longrightarrow> keeps P (\<lambda>s. if c s then f s else g s)"
  by (simp add: keeps_def)

lemma keeps_bind [keeps_intros]:
  assumes "keeps P f" and "\<And>r. keeps P (k r)" shows "keeps P (\<lambda>s. bind_res (f s) k)"
proof (rule keepsI)
  fix s assume "P s"
  then have "P (final_state (f s))" using assms(1) by (rule keepsD [rotated])
  then show "P (final_state (bind_res (f s) k))"
    using assms(2) by (cases "f s") (auto simp: keeps_def)
qed

lemma keeps_returning [keeps_intros]: "keeps P f \<Longrightarrow> keeps P (\<lambda>s. returning r (f s))"
  by (simp add: keeps_def)

lemma keeps_block_Nil [keeps_intros]: "keeps P (block [])"
  by (simp add: keeps_def)

lemma keeps_block_Cons [keeps_intros]:
  assumes "keeps P f" and "keeps P (block fs)" shows "keeps P (block (f # fs))"
  using keeps_bind [OF assms(1), of "\<lambda>_. block fs"] assms(2) by (simp add: keeps_def)

text \<open>
  Total correctness of a statement: from a state with the property it runs to the end, and the
  property holds there.
\<close>

definition runs :: "('s \<Rightarrow> bool) \<Rightarrow> ('s \<Rightarrow> ('r, 's) res) \<Rightarrow> bool" where
  "runs P f \<longleftrightarrow> (\<forall>s. P s \<longrightarrow> (\<exists>r t. f s = Done r t \<and> P t))"

named_theorems runs_intros \<open>rules that a statement ends in a state with a property\<close>

lemma runsI: "(\<And>s. P s \<Longrightarrow> \<exists>r t. f s = Done r t \<and> P t) \<Longrightarrow> runs P f"
  by (simp add: runs_def)

lemma runsD: "runs P f \<Longrightarrow> P s \<Longrightarrow> \<exists>r t. f s = Done r t \<and> P t"
  by (simp add: runs_def)

lemma runs_act: "(\<And>s. P s \<Longrightarrow> P (f s)) \<Longrightarrow> runs P (act f)"
  by (simp add: runs_def act_def)

lemma runs_Done [runs_intros]: "runs P (\<lambda>s. Done r s)"
  by (simp add: runs_def)

lemma runs_if [runs_intros]: "runs P f \<Longrightarrow> runs P g \<Longrightarrow> runs P (\<lambda>s. if c s then f s else g s)"
  by (simp add: runs_def)

lemma runs_bind [runs_intros]:
  assumes "runs P f" and "\<And>r. runs P (k r)" shows "runs P (\<lambda>s. bind_res (f s) k)"
  using assms unfolding runs_def by fastforce

lemma runs_returning [runs_intros]: "runs P f \<Longrightarrow> runs P (\<lambda>s. returning r (f s))"
  unfolding runs_def returning_def by fastforce

lemma runs_block_Nil [runs_intros]: "runs P (block [])"
  by (simp add: runs_def)

lemma runs_block_Cons [runs_intros]:
  "runs P f \<Longrightarrow> runs P (block fs) \<Longrightarrow> runs P (block (f # fs))"
  using runs_bind [of P f "\<lambda>_. block fs"] by (simp add: runs_def)

declare act_def [outcome_simps] returning_def [outcome_simps]

section \<open>Go maps\<close>

text \<open>
  A Go map is an association list with one entry per key; \<open>map_of\<close> is its meaning as a partial
  function and \<open>length\<close> is \<^verbatim>\<open>len\<close>. \<open>range\<close> visits a permutation of the entries.
\<close>

type_synonym 'v gomap = "(string \<times> 'v) list"

definition mput :: "string \<Rightarrow> 'v \<Rightarrow> 'v gomap \<Rightarrow> 'v gomap" where
  "mput = AList.update"

definition mdel :: "string \<Rightarrow> 'v gomap \<Rightarrow> 'v gomap" where
  "mdel = AList.delete"

definition map_ok :: "'v gomap \<Rightarrow> bool" where
  "map_ok m \<longleftrightarrow> distinct (map fst m)"

lemma map_of_mput [simp]: "map_of (mput k v m) = (map_of m)(k \<mapsto> v)"
  by (simp add: mput_def update_conv')

lemma map_of_mdel [simp]: "map_of (mdel k m) = (map_of m)(k := None)"
  by (simp add: mdel_def delete_conv')

lemma mput_Nil [simp]: "mput k v [] = [(k, v)]"
  by (simp add: mput_def)

lemma mput_Cons [simp]:
  "mput k v ((k', v') # m) = (if k = k' then (k', v) # m else (k', v') # mput k v m)"
  by (auto simp: mput_def)

lemma mdel_Nil [simp]: "mdel k [] = []"
  by (simp add: mdel_def)

lemma mdel_Cons [simp]:
  "mdel k ((k', v') # m) = (if k = k' then mdel k m else (k', v') # mdel k m)"
  by (auto simp: mdel_def)

lemma map_ok_Nil [simp]: "map_ok []"
  by (simp add: map_ok_def)

lemma map_ok_mput [simp]: "map_ok m \<Longrightarrow> map_ok (mput k v m)"
  by (simp add: map_ok_def mput_def distinct_update)

lemma map_ok_mdel [simp]: "map_ok m \<Longrightarrow> map_ok (mdel k m)"
  by (simp add: map_ok_def mdel_def distinct_delete)

lemma keys_mput [simp]: "fst ` set (mput k v m) = insert k (fst ` set m)"
  by (simp add: mput_def dom_update)

lemma map_ok_in_iff: "map_ok m \<Longrightarrow> (k, v) \<in> set m \<longleftrightarrow> map_of m k = Some v"
  by (simp add: map_ok_def)

lemma length_mput_new: "map_of m k = None \<Longrightarrow> length (mput k v m) = Suc (length m)"
  by (induction m) auto

lemma mput_new: "map_of m k = None \<Longrightarrow> mput k v m = m @ [(k, v)]"
  by (induction m) (auto split: if_splits)

section \<open>Choices: iteration order and unstable sorting\<close>

text \<open>The choices for one operation: the orders of two iterations or sorts.\<close>

type_synonym choices = "nat list \<times> nat list"

fun permute :: "nat list \<Rightarrow> 'a list \<Rightarrow> 'a list" where
  "permute cs [] = []"
| "permute [] (x # xs) = x # xs"
| "permute (c # cs) (x # xs) =
     (let r = permute cs xs; i = c mod Suc (length r) in take i r @ x # drop i r)"

lemma mset_permute [simp]: "mset (permute cs xs) = mset xs"
proof (induction cs xs rule: permute.induct)
  case (3 c cs x xs)
  let ?r = "permute cs xs"
  have "mset (take i ?r) + mset (drop i ?r) = mset ?r" for i
    by (metis append_take_drop_id mset_append)
  with 3 show ?case by (simp add: Let_def)
qed simp_all

lemma set_permute [simp]: "set (permute cs xs) = set xs"
  by (metis mset_permute set_mset_mset)

lemma length_permute [simp]: "length (permute cs xs) = length xs"
  by (metis mset_permute size_mset)

lemma permute_Nil_choice [simp]: "permute [] xs = xs"
  by (cases xs) simp_all

lemma map_ok_permute [simp]: "map_ok (permute cs m) = map_ok m"
proof -
  have "mset (map fst (permute cs m)) = mset (map fst m)"
    by (metis mset_map mset_permute)
  then show ?thesis unfolding map_ok_def by (metis mset_eq_imp_distinct_iff)
qed

lemma map_of_permute [simp]: "map_ok m \<Longrightarrow> map_of (permute cs m) = map_of m"
  using map_ok_permute [of cs m] unfolding map_ok_def
  by (subst map_of_inject_set) simp_all

text \<open>Every permutation is selected by some choice, so no order Go may pick is left out.\<close>

lemma permute_complete: "mset ys = mset xs \<Longrightarrow> \<exists>cs. permute cs xs = ys"
proof (induction xs arbitrary: ys)
  case Nil
  then show ?case by auto
next
  case (Cons x xs)
  then have "x \<in> set ys" by (metis list.set_intros(1) set_mset_mset)
  then obtain us vs where ys: "ys = us @ x # vs" by (auto simp: in_set_conv_decomp)
  with Cons.prems have "mset (us @ vs) = mset xs" by simp
  with Cons.IH obtain cs where cs: "permute cs xs = us @ vs" by blast
  have "permute (length us # cs) (x # xs) = ys"
    by (simp add: cs ys)
  then show ?case by blast
qed

section \<open>\<^verbatim>\<open>sort.Slice\<close>\<close>

text \<open>
  Go documents \<^verbatim>\<open>sort.Slice(x, less)\<close> as sorting \<open>x\<close> by \<open>less\<close>, not stably. \<open>insertion_sort\<close> is the
  loop the library runs on short slices (each element is swapped to the left while it is less than
  its neighbour; the prefix is kept reversed here). Running it on a permutation chosen by \<open>cs\<close> makes
  every tie order possible: \<open>sort_slice_complete\<close> below says that each list Go may return for a strict
  weak order is the result for some choice.
\<close>

fun insert_left :: "('a \<Rightarrow> 'a \<Rightarrow> bool) \<Rightarrow> 'a \<Rightarrow> 'a list \<Rightarrow> 'a list" where
  "insert_left lt x [] = [x]"
| "insert_left lt x (y # ys) = (if lt x y then y # insert_left lt x ys else x # y # ys)"

definition insertion_sort :: "('a \<Rightarrow> 'a \<Rightarrow> bool) \<Rightarrow> 'a list \<Rightarrow> 'a list" where
  "insertion_sort lt xs = rev (foldl (\<lambda>acc x. insert_left lt x acc) [] xs)"

definition sort_slice :: "('a \<Rightarrow> 'a \<Rightarrow> bool) \<Rightarrow> nat list \<Rightarrow> 'a list \<Rightarrow> 'a list" where
  "sort_slice lt cs xs = insertion_sort lt (permute cs xs)"

definition weak_order_on :: "'a set \<Rightarrow> ('a \<Rightarrow> 'a \<Rightarrow> bool) \<Rightarrow> bool" where
  "weak_order_on A lt \<longleftrightarrow>
     (\<forall>x\<in>A. \<forall>y\<in>A. lt x y \<longrightarrow> \<not> lt y x) \<and>
     (\<forall>x\<in>A. \<forall>y\<in>A. \<forall>z\<in>A. lt x z \<longrightarrow> lt x y \<or> lt y z)"

lemma weak_order_on_split:
  assumes "weak_order_on A lt" and "x \<in> A" and "y \<in> A" and "z \<in> A" and "lt x z"
  shows "lt x y \<or> lt y z"
  using assms unfolding weak_order_on_def by blast

text \<open>What the documentation promises, as an interface: the callers rely on nothing else.\<close>

locale slice_sort =
  fixes srt :: "('a \<Rightarrow> 'a \<Rightarrow> bool) \<Rightarrow> nat list \<Rightarrow> 'a list \<Rightarrow> 'a list"
  assumes mset_srt: "mset (srt lt cs xs) = mset xs"
    and sorted_srt: "weak_order_on (set xs) lt \<Longrightarrow>
                       sorted_wrt (\<lambda>x y. \<not> lt y x) (srt lt cs xs)"
begin

lemma set_srt: "set (srt lt cs xs) = set xs"
  by (metis mset_srt set_mset_mset)

lemma length_srt: "length (srt lt cs xs) = length xs"
  by (metis mset_srt size_mset)

lemma srt_eq_Nil: "srt lt cs xs = [] \<longleftrightarrow> xs = []"
  by (metis length_srt length_0_conv)

text \<open>The first element is a least one: the only fact about the order the policies use.\<close>

lemma hd_srt_least:
  assumes "weak_order_on (set xs) lt" and "srt lt cs xs = y # ys" and "z \<in> set xs"
  shows "y \<in> set xs" and "\<not> lt z y"
proof -
  show y: "y \<in> set xs" using assms(2) set_srt [of lt cs xs] by auto
  have "z \<in> set (y # ys)" using assms(2,3) set_srt [of lt cs xs] by simp
  moreover have "\<not> lt u y" if "u \<in> set ys" for u
    using sorted_srt [OF assms(1), of cs] assms(2) that by simp
  moreover have "\<not> lt y y" using assms(1) y by (auto simp: weak_order_on_def)
  ultimately show "\<not> lt z y" by auto
qed

end

lemma mset_insert_left: "mset (insert_left lt x ys) = add_mset x (mset ys)"
  by (induction ys) auto

lemma set_insert_left: "set (insert_left lt x ys) = insert x (set ys)"
  by (metis mset_insert_left set_mset_add_mset_insert set_mset_mset)

lemma mset_insertion_sort [simp]: "mset (insertion_sort lt xs) = mset xs"
proof -
  have "mset (foldl (\<lambda>acc x. insert_left lt x acc) acc xs) = mset acc + mset xs" for acc
    by (induction xs arbitrary: acc) (auto simp: mset_insert_left)
  then show ?thesis by (simp add: insertion_sort_def)
qed

lemma insert_left_sorted:
  assumes "weak_order_on (insert x (set ys)) lt" and "sorted_wrt (\<lambda>a b. \<not> lt a b) ys"
  shows "sorted_wrt (\<lambda>a b. \<not> lt a b) (insert_left lt x ys)"
  using assms
proof (induction ys)
  case Nil
  then show ?case by simp
next
  case (Cons y ys)
  have wo: "weak_order_on (insert x (set ys)) lt"
    using Cons.prems(1) by (auto simp: weak_order_on_def)
  show ?case
  proof (cases "lt x y")
    case True
    then have "\<not> lt y x" using Cons.prems(1) by (auto simp: weak_order_on_def)
    with True Cons.prems Cons.IH [OF wo] show ?thesis by (auto simp: set_insert_left)
  next
    case False
    have "\<not> lt x z" if "z \<in> set ys" for z
    proof
      assume "lt x z"
      with that have "lt x y \<or> lt y z"
        by (intro weak_order_on_split [OF Cons.prems(1)]) simp_all
      with False Cons.prems(2) that show False by simp
    qed
    with False Cons.prems(2) show ?thesis by auto
  qed
qed

lemma insertion_sort_sorted:
  assumes "weak_order_on (set xs) lt"
  shows "sorted_wrt (\<lambda>x y. \<not> lt y x) (insertion_sort lt xs)"
proof -
  have "sorted_wrt (\<lambda>a b. \<not> lt a b) (foldl (\<lambda>acc x. insert_left lt x acc) acc zs)"
    if "weak_order_on (set acc \<union> set zs) lt" and "sorted_wrt (\<lambda>a b. \<not> lt a b) acc" for acc zs
    using that
  proof (induction zs arbitrary: acc)
    case Nil
    then show ?case by simp
  next
    case (Cons z zs)
    have "weak_order_on (insert z (set acc)) lt"
      using Cons.prems(1) by (auto simp: weak_order_on_def)
    then have "sorted_wrt (\<lambda>a b. \<not> lt a b) (insert_left lt z acc)"
      using Cons.prems(2) by (rule insert_left_sorted)
    with Cons.prems(1) show ?case by (auto intro!: Cons.IH simp: set_insert_left)
  qed
  from this [of "[]" xs] assms show ?thesis
    by (simp add: insertion_sort_def sorted_wrt_rev)
qed

interpretation slice: slice_sort sort_slice
proof unfold_locales
  show "mset (sort_slice lt cs xs) = mset xs" for lt :: "'a \<Rightarrow> 'a \<Rightarrow> bool" and cs xs
    by (simp add: sort_slice_def)
  show "sorted_wrt (\<lambda>x y. \<not> lt y x) (sort_slice lt cs xs)"
    if "weak_order_on (set xs) lt" for lt :: "'a \<Rightarrow> 'a \<Rightarrow> bool" and cs xs
    unfolding sort_slice_def using that by (intro insertion_sort_sorted) simp
qed

text \<open>A list that is already sorted is left alone, so every sorted arrangement is reached.\<close>

lemma insertion_sort_id:
  assumes "sorted_wrt (\<lambda>x y. \<not> lt y x) xs"
  shows "insertion_sort lt xs = xs"
proof -
  have "foldl (\<lambda>acc x. insert_left lt x acc) acc zs = rev zs @ acc"
    if "sorted_wrt (\<lambda>x y. \<not> lt y x) (rev acc @ zs)" for acc zs
    using that
  proof (induction zs arbitrary: acc)
    case Nil
    then show ?case by simp
  next
    case (Cons z zs)
    have "\<not> lt z a" if "a \<in> set acc" for a
      using Cons.prems that unfolding sorted_wrt_append by simp
    then have "insert_left lt z acc = z # acc" by (cases acc) simp_all
    moreover have "sorted_wrt (\<lambda>x y. \<not> lt y x) (rev (z # acc) @ zs)"
      using Cons.prems by simp
    moreover from Cons.IH [OF this] have "foldl (\<lambda>acc x. insert_left lt x acc) (z # acc) zs = rev zs @ z # acc"
      by simp
    ultimately show ?case by simp
  qed
  from this [of "[]" xs] assms show ?thesis by (simp add: insertion_sort_def)
qed

lemma sort_slice_complete:
  assumes "mset ys = mset xs" and "sorted_wrt (\<lambda>x y. \<not> lt y x) ys"
  shows "\<exists>cs. sort_slice lt cs xs = ys"
proof -
  obtain cs where "permute cs xs = ys" using permute_complete [OF assms(1)] by blast
  with insertion_sort_id [OF assms(2)] show ?thesis by (auto simp: sort_slice_def)
qed

section \<open>Decimal printing\<close>

definition digit_char :: "nat \<Rightarrow> char" where
  "digit_char d = char_of (48 + d)"

fun show_nat :: "nat \<Rightarrow> string" where
  "show_nat n = (if n < 10 then [digit_char n] else show_nat (n div 10) @ [digit_char (n mod 10)])"

declare show_nat.simps [simp del]

definition read_nat :: "string \<Rightarrow> nat" where
  "read_nat cs = foldl (\<lambda>a c. 10 * a + (of_char c - 48)) 0 cs"

lemma of_digit_char: "d < 10 \<Longrightarrow> of_char (digit_char d) = (48 + d :: nat)"
  by (simp add: digit_char_def)

lemma read_show_nat: "read_nat (show_nat n) = n"
proof (induction n rule: show_nat.induct)
  case (1 n)
  show ?case
  proof (cases "n < 10")
    case True
    then show ?thesis by (simp add: show_nat.simps [of n] read_nat_def of_digit_char)
  next
    case False
    with 1 have "read_nat (show_nat (n div 10)) = n div 10" by simp
    with False show ?thesis
      by (simp add: show_nat.simps [of n] read_nat_def of_digit_char)
  qed
qed

lemma show_nat_inject [simp]: "show_nat m = show_nat n \<longleftrightarrow> m = n"
  by (metis read_show_nat)

end
