(* ===== verification/GoFloat.thy ===== *)
theory GoFloat
  imports Complex_Main GoBase
begin

text \<open>
  Go's \<^verbatim>\<open>float64\<close> and \<^verbatim>\<open>float32\<close>: a value is NaN, an infinity or a finite number (a rational), and every
  operation rounds its exact result to the nearest representable value, ties to even, as IEEE 754
  prescribes and Go's specification requires of separate operations (Go may fuse \<open>x*y + z\<close> on some
  architectures; amd64 does not). Zeros carry no sign: the only division of the code is by a
  converted length, whose zero is positive, and comparisons do not see the sign.
  \<open>rnd p q m\<close> rounds to \<open>p\<close> bits with least exponent \<open>q\<close> and overflow at \<open>2 powi m\<close>.
\<close>

section \<open>Values and rounding\<close>

datatype gofloat = FNaN | FInf bool | Fin rat

function ilog2 :: "int \<Rightarrow> int" where
  "ilog2 n = (if n < 2 then 0 else 1 + ilog2 (n div 2))"
  by pat_completeness auto
termination
  by (relation "measure nat") auto

declare ilog2.simps [simp del]

definition flog2 :: "rat \<Rightarrow> int" where
  "flog2 x = (case quotient_of x of (n, d) \<Rightarrow>
     let k = ilog2 n - ilog2 d
     in if 2 powi k \<le> x then k else k - 1)"

definition round_even :: "rat \<Rightarrow> int" where
  "round_even x = (let f = \<lfloor>x\<rfloor>; d = x - of_int f
     in if d < 1/2 \<or> (d = 1/2 \<and> even f) then f else f + 1)"

definition quantum :: "nat \<Rightarrow> int \<Rightarrow> rat \<Rightarrow> int" where
  "quantum p q x = max (flog2 \<bar>x\<bar> - int p + 1) q"

definition round_grid :: "nat \<Rightarrow> int \<Rightarrow> rat \<Rightarrow> rat" where
  "round_grid p q x =
     (if x = 0 then 0
      else of_int (round_even (x / 2 powi quantum p q x)) * 2 powi quantum p q x)"

definition rnd :: "nat \<Rightarrow> int \<Rightarrow> int \<Rightarrow> rat \<Rightarrow> gofloat" where
  "rnd p q m x =
     (let r = round_grid p q x in if \<bar>r\<bar> \<ge> 2 powi m then FInf (x < 0) else Fin r)"

abbreviation rnd64 :: "rat \<Rightarrow> gofloat" where "rnd64 \<equiv> rnd 53 (-1074) 1024"
abbreviation rnd32 :: "rat \<Rightarrow> gofloat" where "rnd32 \<equiv> rnd 24 (-149) 128"

section \<open>Arithmetic and comparison\<close>

fun f_lt :: "gofloat \<Rightarrow> gofloat \<Rightarrow> bool" where
  "f_lt FNaN y = False"
| "f_lt x FNaN = False"
| "f_lt (FInf s) (FInf t) = (s \<and> \<not> t)"
| "f_lt (FInf s) (Fin y) = s"
| "f_lt (Fin x) (FInf t) = (\<not> t)"
| "f_lt (Fin x) (Fin y) = (x < y)"

fun f_neg :: "gofloat \<Rightarrow> gofloat" where
  "f_neg FNaN = FNaN"
| "f_neg (FInf s) = FInf (\<not> s)"
| "f_neg (Fin x) = Fin (- x)"

fun f_add :: "(rat \<Rightarrow> gofloat) \<Rightarrow> gofloat \<Rightarrow> gofloat \<Rightarrow> gofloat" where
  "f_add r FNaN y = FNaN"
| "f_add r x FNaN = FNaN"
| "f_add r (FInf s) (FInf t) = (if s = t then FInf s else FNaN)"
| "f_add r (FInf s) (Fin y) = FInf s"
| "f_add r (Fin x) (FInf t) = FInf t"
| "f_add r (Fin x) (Fin y) = r (x + y)"

definition f_sub :: "(rat \<Rightarrow> gofloat) \<Rightarrow> gofloat \<Rightarrow> gofloat \<Rightarrow> gofloat" where
  "f_sub r x y = f_add r x (f_neg y)"

fun f_mul :: "(rat \<Rightarrow> gofloat) \<Rightarrow> gofloat \<Rightarrow> gofloat \<Rightarrow> gofloat" where
  "f_mul r FNaN y = FNaN"
| "f_mul r x FNaN = FNaN"
| "f_mul r (FInf s) (FInf t) = FInf (s \<noteq> t)"
| "f_mul r (FInf s) (Fin y) = (if y = 0 then FNaN else FInf (s \<noteq> (y < 0)))"
| "f_mul r (Fin x) (FInf t) = (if x = 0 then FNaN else FInf (t \<noteq> (x < 0)))"
| "f_mul r (Fin x) (Fin y) = r (x * y)"

fun f_div :: "(rat \<Rightarrow> gofloat) \<Rightarrow> gofloat \<Rightarrow> gofloat \<Rightarrow> gofloat" where
  "f_div r FNaN y = FNaN"
| "f_div r x FNaN = FNaN"
| "f_div r (FInf s) (FInf t) = FNaN"
| "f_div r (FInf s) (Fin y) = FInf (s \<noteq> (y < 0))"
| "f_div r (Fin x) (FInf t) = Fin 0"
| "f_div r (Fin x) (Fin y) =
     (if y = 0 then (if x = 0 then FNaN else FInf (x < 0)) else r (x / y))"

section \<open>The order of the values other than NaN\<close>

text \<open>\<open>f_lt\<close> is a strict weak order away from NaN, which is what \<^verbatim>\<open>sort.Slice\<close> needs.\<close>

lemma f_lt_asym: "f_lt x y \<Longrightarrow> \<not> f_lt y x"
  by (cases x; cases y) auto

lemma f_lt_split: "y \<noteq> FNaN \<Longrightarrow> f_lt x z \<Longrightarrow> f_lt x y \<or> f_lt y z"
  by (cases x; cases y; cases z) auto

lemma f_lt_weak_order:
  assumes "\<And>a. a \<in> A \<Longrightarrow> f a \<noteq> FNaN"
  shows "weak_order_on A (\<lambda>a b. f_lt (f a) (f b))"
  unfolding weak_order_on_def using assms f_lt_asym f_lt_split by blast

section \<open>Bounds of the rounding\<close>

lemma powi2_pos [simp]: "0 < (2::rat) powi k"
  by simp

lemma powi2_add: "(2::rat) powi (a + b) = 2 powi a * 2 powi b"
  by (simp add: power_int_add)

lemma powi2_less_iff [simp]: "(2::rat) powi a < 2 powi b \<longleftrightarrow> a < b"
  by (meson linorder_not_less order_less_imp_le power_int_increasing power_int_strict_increasing
      one_less_numeral_iff semiring_norm(76) one_le_numeral)

lemma powi2_le_iff [simp]: "(2::rat) powi a \<le> 2 powi b \<longleftrightarrow> a \<le> b"
  by (metis linorder_not_less powi2_less_iff)

lemma ilog2_bounds:
  assumes "0 < n" shows "(2::rat) powi ilog2 n \<le> of_int n" and "of_int n < (2::rat) powi (ilog2 n + 1)"
proof -
  have "(2::rat) powi ilog2 n \<le> of_int n \<and> of_int n < (2::rat) powi (ilog2 n + 1)" using assms
  proof (induction n rule: ilog2.induct)
    case (1 n)
    show ?case
    proof (cases "n < 2")
      case True
      with 1 have "n = 1" by linarith
      then show ?thesis by (simp add: ilog2.simps [of 1])
    next
      case False
      with 1 have IH: "(2::rat) powi ilog2 (n div 2) \<le> of_int (n div 2)"
          "of_int (n div 2) < (2::rat) powi (ilog2 (n div 2) + 1)" by simp_all
      have eq: "ilog2 n = ilog2 (n div 2) + 1" using False by (simp add: ilog2.simps [of n])
      have "of_int (2 * (n div 2)) \<le> (of_int n :: rat)" by (subst of_int_le_iff) simp
      with IH(1) have "2 * (2::rat) powi ilog2 (n div 2) \<le> of_int n" by simp
      then have lo: "(2::rat) powi ilog2 n \<le> of_int n" by (simp add: eq power_int_add)
      obtain k where k: "(2::rat) powi (ilog2 (n div 2) + 1) = of_int k"
      proof -
        have "0 \<le> ilog2 m" for m by (induction m rule: ilog2.induct) (subst ilog2.simps, auto)
        then have "(2::rat) powi (ilog2 (n div 2) + 1) = of_int (2 ^ nat (ilog2 (n div 2) + 1))"
          by (simp add: power_int_def add_nonneg_nonneg)
        then show thesis by (rule that)
      qed
      with IH(2) have "n div 2 < k" by simp
      then have "n < 2 * k" by linarith
      then have "of_int n < (of_int (2 * k) :: rat)" by (simp only: of_int_less_iff)
      then have "of_int n < 2 * (2::rat) powi (ilog2 (n div 2) + 1)" using k by simp
      also have "\<dots> = 2 powi (ilog2 n + 1)" by (simp add: eq power_int_add)
      finally show ?thesis using lo by simp
    qed
  qed
  then show "(2::rat) powi ilog2 n \<le> of_int n" "of_int n < (2::rat) powi (ilog2 n + 1)" by auto
qed

lemma flog2_bounds:
  assumes "0 < x" shows "2 powi flog2 x \<le> x" and "x < 2 powi (flog2 x + 1)"
proof -
  obtain n d where nd: "quotient_of x = (n, d)" by force
  have d: "0 < d" using quotient_of_denom_pos [OF nd] .
  have xq: "x = of_int n / of_int d" using quotient_of_div [OF nd] .
  have n: "0 < n" using assms d by (simp add: xq zero_less_divide_iff)
  define a where "a = ilog2 n"
  define b where "b = ilog2 d"
  have ra: "(2::rat) powi a \<le> of_int n" "(of_int n :: rat) < 2 powi (a + 1)"
    using ilog2_bounds [OF n] by (auto simp: a_def)
  have rb: "(2::rat) powi b \<le> of_int d" "(of_int d :: rat) < 2 powi (b + 1)"
    using ilog2_bounds [OF d] by (auto simp: b_def)
  have dpos: "(0::rat) < of_int d" using d by simp
  define k where "k = a - b"
  have e1: "(2::rat) powi (k + 1) = 2 powi (a + 1) / 2 powi b"
    by (simp add: k_def power_int_add power_int_diff)
  have e2: "(2::rat) powi (k - 1) = 2 powi a / 2 powi (b + 1)"
    by (simp add: k_def power_int_add power_int_diff)
  have up: "x < 2 powi (k + 1)" unfolding e1 xq
    by (rule frac_less [OF _ ra(2) _ rb(1)]) (use n in auto)
  have lo: "2 powi (k - 1) \<le> x" unfolding e2 xq
    by (rule frac_le [OF _ ra(1) dpos]) (use rb(2) n in auto)
  have fl: "flog2 x = (if 2 powi k \<le> x then k else k - 1)"
    by (simp add: flog2_def nd a_def b_def k_def Let_def)
  show "2 powi flog2 x \<le> x" using lo by (simp add: fl)
  show "x < 2 powi (flog2 x + 1)" using up by (auto simp: fl)
qed

lemma flog2_mono: "0 < x \<Longrightarrow> x \<le> y \<Longrightarrow> flog2 x \<le> flog2 y"
proof (rule ccontr)
  assume x: "0 < x" and xy: "x \<le> y" and "\<not> flog2 x \<le> flog2 y"
  then have "(2::rat) powi (flog2 y + 1) \<le> 2 powi flog2 x" by (simp del: power_int_add_1)
  with flog2_bounds(1) [OF x] flog2_bounds(2) [of y] x xy show False by linarith
qed

lemma flog2_eqI:
  assumes "2 powi e \<le> x" and "x < 2 powi (e + 1)" shows "flog2 x = e"
proof -
  have x: "0 < x" using assms(1) powi2_pos [of e] by linarith
  have "(2::rat) powi e < 2 powi (flog2 x + 1)" "(2::rat) powi flog2 x < 2 powi (e + 1)"
    using flog2_bounds [OF x] assms by linarith+
  then show ?thesis by (simp only: powi2_less_iff)
qed

lemma round_even_mono: assumes "x \<le> y" shows "round_even x \<le> round_even y"
proof (cases "\<lfloor>x\<rfloor> = \<lfloor>y\<rfloor>")
  case True
  with assms show ?thesis by (auto simp: round_even_def Let_def)
next
  case False
  then have "\<lfloor>x\<rfloor> + 1 \<le> \<lfloor>y\<rfloor>" using floor_mono [OF assms] by linarith
  then show ?thesis by (auto simp: round_even_def Let_def)
qed

lemma round_even_of_int [simp]: "round_even (of_int n) = n"
  by (simp add: round_even_def)

lemma round_even_minus: "round_even (- x) = - round_even x"
proof (cases "x = of_int \<lfloor>x\<rfloor>")
  case True
  then obtain n where "x = of_int n" by blast
  then show ?thesis by (metis of_int_minus round_even_of_int)
next
  case False
  define f where "f = \<lfloor>x\<rfloor>"
  have l: "of_int f < x" "x < of_int f + 1" using False unfolding f_def by linarith+
  then have "\<lfloor>- x\<rfloor> = - f - 1" by (simp add: floor_eq_iff)
  moreover have "\<lfloor>x\<rfloor> = f" by (simp add: f_def)
  ultimately show ?thesis
    by (cases "x - of_int f < 1/2"; cases "x - of_int f = 1/2") (auto simp: round_even_def Let_def)
qed

lemma round_even_nonneg: "0 \<le> x \<Longrightarrow> 0 \<le> round_even x"
  using round_even_mono [of 0 x] round_even_of_int [of 0] by simp


section \<open>Rounding to the grid is monotone and keeps what is representable\<close>

lemma quantum_ge: "q \<le> quantum p q x"
  by (simp add: quantum_def)

lemma quantum_minus [simp]: "quantum p q (- x) = quantum p q x"
  by (simp add: quantum_def)

lemma round_grid_minus: "round_grid p q (- x) = - round_grid p q x"
  by (simp add: round_grid_def round_even_minus minus_divide_left [symmetric] del: minus_divide_left)

lemma round_grid_0 [simp]: "round_grid p q 0 = 0"
  by (simp add: round_grid_def)

lemma round_grid_nonneg: "0 \<le> x \<Longrightarrow> 0 \<le> round_grid p q x"
  by (simp add: round_grid_def round_even_nonneg)

text \<open>A multiple of the quantum on either side of the number bounds the rounded number too.\<close>

lemma round_grid_le:
  assumes "x \<noteq> 0" and "x \<le> of_int n * 2 powi quantum p q x"
  shows "round_grid p q x \<le> of_int n * 2 powi quantum p q x"
proof -
  have "x / 2 powi quantum p q x \<le> of_int n" using assms(2) by (simp add: divide_le_eq)
  then have "round_even (x / 2 powi quantum p q x) \<le> n"
    using round_even_mono round_even_of_int by metis
  then show ?thesis using assms(1) by (simp add: round_grid_def mult_right_mono)
qed

lemma round_grid_ge:
  assumes "x \<noteq> 0" and "of_int n * 2 powi quantum p q x \<le> x"
  shows "of_int n * 2 powi quantum p q x \<le> round_grid p q x"
proof -
  have "of_int n \<le> x / 2 powi quantum p q x" using assms(2) by (simp add: le_divide_eq)
  then have "n \<le> round_even (x / 2 powi quantum p q x)"
    using round_even_mono round_even_of_int by metis
  then show ?thesis using assms(1) by (simp add: round_grid_def mult_right_mono)
qed

lemma round_grid_eq:
  assumes "x = of_int n * 2 powi quantum p q x" shows "round_grid p q x = x"
proof (cases "x = 0")
  case False
  then show ?thesis
    using round_grid_le [OF False, of n p q] round_grid_ge [OF False, of n p q] assms by simp
qed simp

lemma powi2_multiple: "a \<le> b \<Longrightarrow> \<exists>n. (2::rat) powi b = of_int n * 2 powi a"
proof -
  assume "a \<le> b"
  then have "(2::rat) powi b = of_int (2 ^ nat (b - a)) * 2 powi a"
    by (simp add: power_int_def [of _ "b - a", symmetric] power_int_add [symmetric]
             flip: power_int_of_nat)
  then show ?thesis by blast
qed

lemma round_grid_mono_pos:
  assumes p: "1 \<le> p" and x: "0 < x" and xy: "x \<le> y"
  shows "round_grid p q x \<le> round_grid p q y"
proof (cases "quantum p q x = quantum p q y")
  case True
  have "round_even (x / 2 powi quantum p q x) \<le> round_even (y / 2 powi quantum p q x)"
    using xy by (intro round_even_mono divide_right_mono) simp_all
  with True x xy show ?thesis by (simp add: round_grid_def mult_right_mono)
next
  case False
  define e where "e = flog2 y"
  have le: "flog2 x \<le> e" unfolding e_def using x xy by (rule flog2_mono)
  have lt: "quantum p q x < quantum p q y" "flog2 x < e" "quantum p q y \<le> e"
    using False le x xy p by (auto simp: quantum_def e_def)
  obtain n where n: "2 powi e = of_int n * (2::rat) powi quantum p q x"
    using powi2_multiple [of "quantum p q x" e] lt by auto
  obtain k where k: "2 powi e = of_int k * (2::rat) powi quantum p q y"
    using powi2_multiple [of "quantum p q y" e] lt by auto
  have "(2::rat) powi (flog2 x + 1) \<le> 2 powi e" using lt(2) by (simp only: powi2_le_iff)
  then have "x \<le> 2 powi e" using flog2_bounds(2) [OF x] by linarith
  then have "round_grid p q x \<le> 2 powi e" unfolding n using x by (intro round_grid_le) simp_all
  moreover have "2 powi e \<le> y" unfolding e_def using x xy by (intro flog2_bounds) linarith
  then have "2 powi e \<le> round_grid p q y" unfolding k using x xy by (intro round_grid_ge) simp_all
  ultimately show ?thesis by linarith
qed

lemma round_grid_mono:
  assumes p: "1 \<le> p" and xy: "x \<le> y"
  shows "round_grid p q x \<le> round_grid p q y"
proof -
  consider "0 < x" | "x \<le> 0" "0 \<le> y" | "y < 0" by linarith
  then show ?thesis
  proof cases
    case 1
    then show ?thesis using round_grid_mono_pos [OF p] xy by blast
  next
    case 2
    have "round_grid p q x \<le> 0"
      using round_grid_nonneg [of "- x" p q] 2 by (simp add: round_grid_minus)
    with round_grid_nonneg [OF 2(2), of p q] show ?thesis by linarith
  next
    case 3
    then have "round_grid p q (- y) \<le> round_grid p q (- x)"
      using round_grid_mono_pos [OF p] xy by simp
    then show ?thesis by (simp add: round_grid_minus)
  qed
qed

lemma flog2_less: "0 < x \<Longrightarrow> x < 2 powi e \<Longrightarrow> flog2 x < e"
  using flog2_bounds(1) [of x] powi2_less_iff [of "flog2 x" e] by linarith

lemma abs_of_int_less_pow2: "\<bar>n\<bar> < 2 ^ p \<Longrightarrow> \<bar>of_int n :: rat\<bar> < 2 ^ p"
  by (metis of_int_abs of_int_less_iff of_int_numeral of_int_power)

text \<open>An integer of fewer than \<open>p\<close> bits is its own rounding.\<close>

lemma round_grid_of_int:
  assumes "\<bar>n\<bar> < 2 ^ p" and "q \<le> 0"
  shows "round_grid p q (of_int n) = of_int n"
proof (cases "n = 0")
  case False
  then have "flog2 \<bar>of_int n\<bar> < int p"
    using abs_of_int_less_pow2 [OF assms(1)] by (intro flog2_less) simp_all
  then have "quantum p q (of_int n) \<le> 0" using assms(2) by (simp add: quantum_def)
  then obtain k where "2 powi 0 = of_int k * (2::rat) powi quantum p q (of_int n)"
    using powi2_multiple by blast
  then have "of_int n = of_int (n * k) * (2::rat) powi quantum p q (of_int n)" by simp
  then show ?thesis by (rule round_grid_eq)
qed simp

lemma rnd64_of_int:
  assumes "\<bar>n\<bar> < 2 ^ 53" shows "rnd64 (of_int n) = Fin (of_int n)"
proof -
  have g: "round_grid 53 (-1074) (of_int n) = of_int n"
    using assms by (intro round_grid_of_int) simp_all
  have "\<bar>of_int n :: rat\<bar> < 2 ^ 53"
    using assms by (rule abs_of_int_less_pow2)
  then have "\<not> 2 powi 1024 \<le> \<bar>of_int n :: rat\<bar>" by simp
  then show ?thesis by (simp add: rnd_def g)
qed

lemma rnd64_of_nat: "n < 2 ^ 53 \<Longrightarrow> rnd64 (of_nat n) = Fin (of_nat n)"
  using rnd64_of_int [of "int n"] by simp

text \<open>Below the overflow threshold the rounding is the grid, so the order is kept.\<close>

lemma rnd64_small:
  assumes "\<bar>x\<bar> \<le> 2 ^ 64" shows "rnd64 x = Fin (round_grid 53 (-1074) x)"
proof -
  have big: "round_grid 53 (-1074) ((2::rat) ^ 64) = 2 ^ 64"
    by (rule round_grid_eq [where n = "2 ^ 52"])
       (simp add: quantum_def flog2_eqI [where e = 64] power_int_def)
  have "round_grid 53 (-1074) x \<le> 2 ^ 64" "- (2 ^ 64) \<le> round_grid 53 (-1074) x"
    using round_grid_mono [of 53 x "2 ^ 64" "-1074"] round_grid_mono [of 53 "- (2 ^ 64)" x "-1074"]
      assms big round_grid_minus [of 53 "-1074" "2 ^ 64"] by auto
  moreover have "(2::rat) ^ 64 < 2 powi 1024" by simp
  ultimately have "\<not> 2 powi 1024 \<le> \<bar>round_grid 53 (-1074) x\<bar>" by linarith
  then show ?thesis by (simp add: rnd_def Let_def)
qed

lemma rnd_mono:
  assumes "\<bar>x\<bar> \<le> 2 ^ 64" and "\<bar>y\<bar> \<le> 2 ^ 64" and "x \<le> y"
  shows "\<not> f_lt (rnd64 y) (rnd64 x)"
  using assms round_grid_mono [of 53 x y "-1074"] by (simp add: rnd64_small)


text \<open>Exact small integers, as rewrite rules for evaluation.\<close>

lemma rnd64_0 [simp]: "rnd64 0 = Fin 0"
  using rnd64_of_int [of 0] by simp

lemma rnd64_1 [simp]: "rnd64 1 = Fin 1"
  using rnd64_of_int [of 1] by simp

lemma rnd64_numeral [simp]:
  "(numeral k :: int) < 2 ^ 53 \<Longrightarrow> rnd64 (numeral k) = Fin (numeral k)"
  using rnd64_of_int [of "numeral k"] by simp

lemma rnd64_neg_numeral [simp]:
  "(numeral k :: int) < 2 ^ 53 \<Longrightarrow> rnd64 (- numeral k) = Fin (- numeral k)"
  using rnd64_of_int [of "- numeral k"] by simp

lemma rnd64_neg1 [simp]: "rnd64 (- 1) = Fin (- 1)"
  using rnd64_of_int [of "- 1"] by simp

text \<open>Evaluation takes the exact case first: an integer within the mantissa needs no rounding.\<close>

lemma rnd_code [code]:
  "rnd p q m x =
     (if p = 53 \<and> q = -1074 \<and> m = 1024 \<and> snd (quotient_of x) = 1
         \<and> \<bar>fst (quotient_of x)\<bar> < 9007199254740992 then Fin x
      else let r = round_grid p q x in if \<bar>r\<bar> \<ge> 2 powi m then FInf (x < 0) else Fin r)"
proof (cases "p = 53 \<and> q = -1074 \<and> m = 1024 \<and> snd (quotient_of x) = 1
         \<and> \<bar>fst (quotient_of x)\<bar> < 9007199254740992")
  case True
  then obtain n where n: "quotient_of x = (n, 1)" "\<bar>n\<bar> < 2 ^ 53" by (cases "quotient_of x") simp
  have "x = of_int n" using quotient_of_div [OF n(1)] by simp
  with True rnd64_of_int [OF n(2)] show ?thesis by simp
qed (auto simp: rnd_def)

end
