(* ===== verification/Proto.thy ===== *)
theory Proto
  imports GoFloat
begin

text \<open>
  The wire messages of \<^verbatim>\<open>proto/scheduler.proto\<close>, as the structs that \<^verbatim>\<open>proto/scheduler.pb.go\<close> declares for
  them, less the bookkeeping fields of the protobuf run time. The two enums are Go types over
  \<^verbatim>\<open>int32\<close>: proto3 enums are open, so any 32-bit value can arrive in a message, and the named
  constants are five (four) of them. Strings are byte strings; \<^verbatim>\<open>bytes\<close> is a list of 8-bit words.
\<close>

type_synonym u32 = "32 word"
type_synonym u64 = "64 word"
type_synonym bytes = "8 word list"

section \<open>Enums\<close>

type_synonym WorkerStatus = "32 word"

abbreviation WorkerStatus_IDLE :: WorkerStatus where "WorkerStatus_IDLE \<equiv> 0"
abbreviation WorkerStatus_BUSY :: WorkerStatus where "WorkerStatus_BUSY \<equiv> 1"
abbreviation WorkerStatus_OFFLINE :: WorkerStatus where "WorkerStatus_OFFLINE \<equiv> 2"
abbreviation WorkerStatus_ERROR :: WorkerStatus where "WorkerStatus_ERROR \<equiv> 3"

type_synonym TaskStatus = "32 word"

abbreviation TaskStatus_PENDING :: TaskStatus where "TaskStatus_PENDING \<equiv> 0"
abbreviation TaskStatus_RUNNING :: TaskStatus where "TaskStatus_RUNNING \<equiv> 1"
abbreviation TaskStatus_COMPLETED :: TaskStatus where "TaskStatus_COMPLETED \<equiv> 2"
abbreviation TaskStatus_FAILED :: TaskStatus where "TaskStatus_FAILED \<equiv> 3"
abbreviation TaskStatus_CANCELED :: TaskStatus where "TaskStatus_CANCELED \<equiv> 4"

text \<open>The name tables of the generated code, and the names the monitor prints.\<close>

definition WorkerStatus_name :: "(int \<times> string) list" where
  "WorkerStatus_name = [(0, ''IDLE''), (1, ''BUSY''), (2, ''OFFLINE''), (3, ''ERROR'')]"

definition WorkerStatus_value :: "(string \<times> int) list" where
  "WorkerStatus_value = [(''IDLE'', 0), (''BUSY'', 1), (''OFFLINE'', 2), (''ERROR'', 3)]"

definition TaskStatus_name :: "(int \<times> string) list" where
  "TaskStatus_name = [(0, ''PENDING''), (1, ''RUNNING''), (2, ''COMPLETED''), (3, ''FAILED''),
                      (4, ''CANCELED'')]"

definition TaskStatus_value :: "(string \<times> int) list" where
  "TaskStatus_value = [(''PENDING'', 0), (''RUNNING'', 1), (''COMPLETED'', 2), (''FAILED'', 3),
                       (''CANCELED'', 4)]"

definition getWorkerStatusString :: "WorkerStatus \<Rightarrow> string" where
  "getWorkerStatusString status =
     (if status = WorkerStatus_IDLE then ''IDLE''
      else if status = WorkerStatus_BUSY then ''BUSY''
      else if status = WorkerStatus_OFFLINE then ''OFFLINE''
      else if status = WorkerStatus_ERROR then ''ERROR''
      else ''UNKNOWN'')"

definition getTaskStatusString :: "TaskStatus \<Rightarrow> string" where
  "getTaskStatusString status =
     (if status = TaskStatus_PENDING then ''PENDING''
      else if status = TaskStatus_RUNNING then ''RUNNING''
      else if status = TaskStatus_COMPLETED then ''COMPLETED''
      else if status = TaskStatus_FAILED then ''FAILED''
      else if status = TaskStatus_CANCELED then ''CANCELED''
      else ''UNKNOWN'')"

section \<open>Messages\<close>

record pbGPU =
  pgId :: string
  pgModel :: string
  pgMemoryMb :: u64
  pgAvailable :: bool
  pgCudaCores :: u32
  pgMemoryBandwidth :: u64

record pbMetric =
  pmName :: string
  pmValue :: gofloat
  pmTimestamp :: u64

record pbTask =
  ptId :: string
  ptName :: string
  ptRequiredGpus :: u32
  ptMinGpuMemory :: u64
  ptConfiguration :: bytes
  ptStatus :: TaskStatus

record RegisterWorkerRequest =
  rwWorkerId :: string
  rwGpus :: "pbGPU list"
  rwAddress :: string

record RegisterWorkerResponse =
  rrSuccess :: bool
  rrMessage :: string
  rrAssignedId :: string

text \<open>The optional message field of a request is a pointer in Go, hence an option.\<close>

record TaskRequest =
  trWorkerId :: string
  trAvailableGpuIds :: "string list"
  trTask :: "pbTask option"
  trPriorityInfo :: "string gomap"

record TaskStatusUpdate =
  tuTaskId :: string
  tuWorkerId :: string
  tuStatus :: TaskStatus
  tuProgress :: gofloat
  tuMessage :: string
  tuMetrics :: "pbMetric list"

record TaskStatusResponse =
  tsAcknowledged :: bool
  tsMessage :: string

record TaskSummary =
  smId :: string
  smName :: string
  smStatus :: TaskStatus
  smProgress :: gofloat

record WorkerCommand =
  wcType :: string
  wcParams :: "string gomap"

record WorkerStatusResponse =
  wsWorkerId :: string
  wsStatus :: WorkerStatus
  wsGpus :: "pbGPU list"
  wsActiveTasks :: "TaskSummary list"
  wsTimestamp :: u64
  wsCommand :: "WorkerCommand option"

record WorkerInfo =
  wiWorkerId :: string
  wiStatus :: WorkerStatus
  wiAddress :: string
  wiGpuCount :: u32

text \<open>A gRPC error is a code and a message (\<^verbatim>\<open>status.Errorf\<close>).\<close>

datatype grpc_code = NotFound | ResourceExhausted | DeadlineExceeded

type_synonym grpc_error = "grpc_code \<times> string"

section \<open>The enum tables agree with the constants\<close>

lemma WorkerStatus_tables:
  "map_of WorkerStatus_name i = Some n \<longleftrightarrow> map_of WorkerStatus_value n = Some i"
  by (auto simp: WorkerStatus_name_def WorkerStatus_value_def split: if_splits)

lemma TaskStatus_tables:
  "map_of TaskStatus_name i = Some n \<longleftrightarrow> map_of TaskStatus_value n = Some i"
  by (auto simp: TaskStatus_name_def TaskStatus_value_def split: if_splits)

section \<open>Times\<close>

text \<open>A \<^verbatim>\<open>time.Time\<close> is its nanoseconds since 1970; Go's zero time is the start of the year 1.\<close>

definition zero_time :: int where
  "zero_time = - 62135596800 * 1000000000"

end
