(* ===== verification/SchedTypes.thy ===== *)
theory SchedTypes
  imports Proto
begin

text \<open>
  The structs of \<^verbatim>\<open>pkg/scheduler/scheduler.go\<close>. Workers are reached through the scheduler's map only, so
  a worker is a value. Tasks are shared: the same \<^verbatim>\<open>*Task\<close> sits in the scheduler's task map, in its
  queue and in a worker's map, so a task lives in a heap and is named by an address. Times are
  nanoseconds since the Unix epoch, with Go's zero time (year 1) as \<open>zero_time\<close>.
\<close>

record GPU =
  gID :: string
  gModel :: string
  gMemoryMB :: u64
  gAvailable :: bool

type_synonym task_addr = nat

record Worker =
  wID :: string
  wGPUs :: "GPU list"
  wAddress :: string
  wStatus :: WorkerStatus
  wTasks :: "task_addr gomap"

record Task =
  tID :: string
  tName :: string
  tRequiredGPUs :: u32
  tMinGPUMemory :: u64
  tConfiguration :: bytes
  tStatus :: TaskStatus
  tWorkerID :: string
  tAssignedGPUs :: "string list"
  tStartTime :: int
  tProgress :: gofloat
  tMetrics :: "pbMetric list"

text \<open>
  \<^verbatim>\<open>for _, gpu := range worker.GPUs { for _, id := range ids { if gpu.ID == id { gpu.Available = b } } }\<close>,
  the loop that three handlers share.
\<close>

definition set_available :: "bool \<Rightarrow> string list \<Rightarrow> GPU list \<Rightarrow> GPU list" where
  "set_available b ids gpus =
     map (\<lambda>gpu. foldl (\<lambda>g id. if gID g = id then g\<lparr>gAvailable := b\<rparr> else g) gpu ids) gpus"

lemma set_available_map:
  "set_available b ids gpus =
     map (\<lambda>g. if gID g \<in> set ids then g\<lparr>gAvailable := b\<rparr> else g) gpus"
proof -
  have "foldl (\<lambda>g id. if gID g = id then g\<lparr>gAvailable := b\<rparr> else g) g ids
          = (if gID g \<in> set ids then g\<lparr>gAvailable := b\<rparr> else g)" for g :: GPU
    by (induction ids arbitrary: g) auto
  then show ?thesis by (simp only: set_available_def)
qed

lemma length_set_available [simp]: "length (set_available b ids gpus) = length gpus"
  by (simp add: set_available_def)

lemma map_gID_set_available [simp]: "map gID (set_available b ids gpus) = map gID gpus"
  by (simp add: set_available_map cong: map_cong)

lemma set_available_Nil [simp]: "set_available b [] gpus = gpus"
  by (simp add: set_available_def)

text \<open>The ids of a worker's GPUs that are free, and those that are taken.\<close>

definition free_ids :: "GPU list \<Rightarrow> string list" where
  "free_ids gpus = map gID (filter gAvailable gpus)"

definition taken_ids :: "GPU list \<Rightarrow> string list" where
  "taken_ids gpus = map gID (filter (\<lambda>g. \<not> gAvailable g) gpus)"

end
