(* ===== verification/Policy.thy ===== *)
theory Policy
  imports SchedTypes
begin

text \<open>
  \<^verbatim>\<open>pkg/scheduler/policy.go\<close>: the two workload policies. \<^verbatim>\<open>AssignTask\<close> walks the worker map, scores
  every worker that can take the task, sorts the candidates by score and returns the first one's id
  with the ids of the GPUs it would use. The map order and the order of equal scores are the two
  lists of a \<open>choices\<close> value. The result is an error message or a worker id with GPU ids.
\<close>

section \<open>Scores and candidates\<close>


type_synonym assignment = "string + string \<times> string list"

type_synonym assign_method = "choices \<Rightarrow> Worker gomap \<Rightarrow> Task \<Rightarrow> assignment"

record workerScore =
  ws_id :: string
  ws_score :: gofloat
  ws_gpus :: "string list"

definition float64_of_len :: "nat \<Rightarrow> gofloat" where
  "float64_of_len n = rnd64 (of_nat n)"

definition float64_of_u64 :: "u64 \<Rightarrow> gofloat" where
  "float64_of_u64 n = rnd64 (of_int (uint n))"

definition float64_of_u32 :: "u32 \<Rightarrow> gofloat" where
  "float64_of_u32 n = rnd64 (of_int (uint n))"

text \<open>The eligible GPUs of a worker, in the worker's order.\<close>

fun collect_gpus :: "Task \<Rightarrow> GPU list \<Rightarrow> string list" where
  "collect_gpus task [] = []"
| "collect_gpus task (gpu # gpus) =
     (if gAvailable gpu \<and> tMinGPUMemory task \<le> gMemoryMB gpu
      then gID gpu # collect_gpus task gpus else collect_gpus task gpus)"

fun total_memory :: "GPU list \<Rightarrow> u64 \<Rightarrow> u64" where
  "total_memory [] acc = acc"
| "total_memory (gpu # gpus) acc =
     total_memory gpus (if gAvailable gpu then acc + gMemoryMB gpu else acc)"

definition enough_gpus :: "string list \<Rightarrow> Task \<Rightarrow> bool" where
  "enough_gpus available task \<longleftrightarrow> tRequiredGPUs task \<le> (word_of_nat (length available) :: u32)"

section \<open>The simple policy\<close>

definition simple_score :: "Task \<Rightarrow> Worker \<Rightarrow> string list \<Rightarrow> gofloat" where
  "simple_score task worker available =
     (let excessGPUs = f_sub rnd64 (float64_of_len (length available))
                                   (float64_of_u32 (tRequiredGPUs task));
          excessMemory = f_sub rnd64 (float64_of_u64 (total_memory (wGPUs worker) 0))
                                     (float64_of_u64 (tMinGPUMemory task * ucast (tRequiredGPUs task)))
      in f_add rnd64 (f_mul rnd64 excessGPUs (rnd64 (7/10))) (f_mul rnd64 excessMemory (rnd64 (3/10))))"

definition simple_eligible :: "Worker \<Rightarrow> bool" where
  "simple_eligible worker \<longleftrightarrow> wStatus worker = WorkerStatus_IDLE"

fun simple_candidates :: "Task \<Rightarrow> Worker gomap \<Rightarrow> workerScore list" where
  "simple_candidates task [] = []"
| "simple_candidates task ((wid, worker) # rest) =
     (if \<not> simple_eligible worker then simple_candidates task rest
      else let available = collect_gpus task (wGPUs worker)
           in if enough_gpus available task
              then \<lparr>ws_id = wid, ws_score = simple_score task worker available,
                    ws_gpus = take (unat (tRequiredGPUs task)) available\<rparr>
                   # simple_candidates task rest
              else simple_candidates task rest)"

section \<open>The balanced policy\<close>

definition balanced_score :: "Worker \<Rightarrow> string list \<Rightarrow> gofloat" where
  "balanced_score worker available =
     (let taskCount = float64_of_len (length (wTasks worker));
          totalGPUs = float64_of_len (length (wGPUs worker));
          loadFactor = f_div rnd64 taskCount totalGPUs;
          availabilityFactor = f_div rnd64 (float64_of_len (length available)) totalGPUs
      in f_sub rnd64 loadFactor availabilityFactor)"

definition balanced_eligible :: "Worker \<Rightarrow> bool" where
  "balanced_eligible worker \<longleftrightarrow>
     \<not> (wStatus worker = WorkerStatus_OFFLINE \<or> wStatus worker = WorkerStatus_ERROR)"

record balancedScore = workerScore +
  bs_taskCount :: nat
  bs_totalGPUs :: nat
  bs_availableGPUs :: nat

fun balanced_candidates :: "Task \<Rightarrow> Worker gomap \<Rightarrow> balancedScore list" where
  "balanced_candidates task [] = []"
| "balanced_candidates task ((wid, worker) # rest) =
     (if \<not> balanced_eligible worker then balanced_candidates task rest
      else let available = collect_gpus task (wGPUs worker)
           in if enough_gpus available task
              then \<lparr>ws_id = wid, ws_score = balanced_score worker available,
                    ws_gpus = take (unat (tRequiredGPUs task)) available,
                    bs_taskCount = length (wTasks worker), bs_totalGPUs = length (wGPUs worker),
                    bs_availableGPUs = length available\<rparr>
                   # balanced_candidates task rest
              else balanced_candidates task rest)"

section \<open>\<^verbatim>\<open>AssignTask\<close>\<close>

definition no_suitable_worker :: string where
  "no_suitable_worker = ''no suitable worker found''"

definition pick_candidate :: "nat list \<Rightarrow> 'a workerScore_scheme list \<Rightarrow> assignment" where
  "pick_candidate order candidates =
     (if candidates = [] then Inl no_suitable_worker
      else case sort_slice (\<lambda>a b. f_lt (ws_score a) (ws_score b)) order candidates of
             [] \<Rightarrow> Inl no_suitable_worker
           | c # _ \<Rightarrow> Inr (ws_id c, ws_gpus c))"

definition SimpleAssignTask :: assign_method where
  "SimpleAssignTask ch workers task =
     pick_candidate (snd ch) (simple_candidates task (permute (fst ch) workers))"

definition BalancedAssignTask :: assign_method where
  "BalancedAssignTask ch workers task =
     pick_candidate (snd ch) (balanced_candidates task (permute (fst ch) workers))"

text \<open>The two implementations of the interface, as \<^verbatim>\<open>cmd/server\<close> selects them by name.\<close>

datatype WorkloadPolicy = SimpleWorkloadPolicy | BalancedWorkloadPolicy

fun AssignTask :: "WorkloadPolicy \<Rightarrow> assign_method" where
  "AssignTask SimpleWorkloadPolicy = SimpleAssignTask"
| "AssignTask BalancedWorkloadPolicy = BalancedAssignTask"

definition select_policy :: "string \<Rightarrow> WorkloadPolicy option" where
  "select_policy policyType =
     (if policyType = ''simple'' then Some SimpleWorkloadPolicy
      else if policyType = ''balanced'' then Some BalancedWorkloadPolicy
      else None)"


section \<open>Eligible GPUs\<close>

lemma collect_gpus_eq:
  "collect_gpus task gpus
     = map gID (filter (\<lambda>g. gAvailable g \<and> tMinGPUMemory task \<le> gMemoryMB g) gpus)"
  by (induction gpus) auto

lemma length_collect_gpus: "length (collect_gpus task gpus) \<le> length gpus"
  by (simp add: collect_gpus_eq)

lemma set_collect_gpus_free: "set (collect_gpus task gpus) \<subseteq> set (free_ids gpus)"
  by (auto simp: collect_gpus_eq free_ids_def)

lemma distinct_collect_gpus: "distinct (map gID gpus) \<Longrightarrow> distinct (collect_gpus task gpus)"
  by (simp add: collect_gpus_eq distinct_map_filter)

text \<open>
  The conversion \<^verbatim>\<open>uint32(len(availableGPUs))\<close> may drop high bits, but never makes the length larger:
  the slice \<^verbatim>\<open>availableGPUs[:task.RequiredGPUs]\<close> is in range.
\<close>

lemma enough_gpus_length:
  assumes "enough_gpus available task" shows "unat (tRequiredGPUs task) \<le> length available"
proof -
  have "unat (tRequiredGPUs task) \<le> unat (word_of_nat (length available) :: u32)"
    using assms by (simp add: enough_gpus_def word_le_nat_alt)
  also have "\<dots> \<le> length available" by (simp add: unat_of_nat)
  finally show ?thesis .
qed

lemma enough_gpus_iff:
  assumes "length available < 2 ^ 32"
  shows "enough_gpus available task \<longleftrightarrow> unat (tRequiredGPUs task) \<le> length available"
  using assms by (simp add: enough_gpus_def word_le_nat_alt unat_of_nat)

section \<open>The interface of a policy\<close>

text \<open>
  \<open>occupy\<close> is what the scheduler does to the worker a policy has chosen (status, task map, GPUs).
\<close>

definition occupy :: "string \<Rightarrow> task_addr \<Rightarrow> string list \<Rightarrow> Worker \<Rightarrow> Worker" where
  "occupy taskID a gpuIDs worker =
     worker\<lparr>wStatus := WorkerStatus_BUSY, wTasks := mput taskID a (wTasks worker),
            wGPUs := set_available False gpuIDs (wGPUs worker)\<rparr>"

text \<open>
  The contract the scheduler relies on: an assignment names a registered worker that suits the task
  and the first eligible GPUs of it; a policy gives up only when no worker suits; and occupying a
  worker never makes it suit a task that it did not suit before.
\<close>

locale workload_policy =
  fixes assign :: assign_method
    and suits :: "Task \<Rightarrow> Worker \<Rightarrow> bool"
  assumes assign_Inr: "assign ch ws t = Inr (w, gs) \<Longrightarrow>
      \<exists>wk. (w, wk) \<in> set ws \<and> suits t wk
        \<and> gs = take (unat (tRequiredGPUs t)) (collect_gpus t (wGPUs wk))"
    and assign_Inl: "assign ch ws t = Inl e \<Longrightarrow> (w, wk) \<in> set ws \<Longrightarrow> \<not> suits t wk"
    and suits_enough: "suits t wk \<Longrightarrow> enough_gpus (collect_gpus t (wGPUs wk)) t"
    and suits_occupy: "suits t0 wk \<Longrightarrow> length (wGPUs wk) < 2 ^ 32 \<Longrightarrow>
      suits t (occupy k a ids wk) \<Longrightarrow> suits t wk"
    and suits_cong: "tRequiredGPUs t = tRequiredGPUs t' \<Longrightarrow> tMinGPUMemory t = tMinGPUMemory t' \<Longrightarrow>
      suits t wk \<longleftrightarrow> suits t' wk"
begin

lemma suits_length: "suits t wk \<Longrightarrow> unat (tRequiredGPUs t) \<le> length (collect_gpus t (wGPUs wk))"
  by (intro enough_gpus_length suits_enough)

text \<open>Whether an assignment exists does not depend on the order of the map or of the scores.\<close>

lemma assign_fails_iff:
  "(\<exists>e. assign ch ws t = Inl e) \<longleftrightarrow> (\<forall>(w, wk) \<in> set ws. \<not> suits t wk)"
proof
  assume "\<exists>e. assign ch ws t = Inl e"
  then show "\<forall>(w, wk) \<in> set ws. \<not> suits t wk" using assign_Inl by blast
next
  assume none: "\<forall>(w, wk) \<in> set ws. \<not> suits t wk"
  show "\<exists>e. assign ch ws t = Inl e"
  proof (cases "assign ch ws t")
    case (Inr r)
    then show ?thesis using none assign_Inr [of ch ws t "fst r" "snd r"] by auto
  qed blast
qed

lemma assign_Inr_gpus:
  assumes "assign ch ws t = Inr (w, gs)"
  shows "\<exists>wk. (w, wk) \<in> set ws \<and> suits t wk \<and> length gs = unat (tRequiredGPUs t)
           \<and> set gs \<subseteq> set (free_ids (wGPUs wk))
           \<and> (distinct (map gID (wGPUs wk)) \<longrightarrow> distinct gs)"
proof -
  obtain wk where wk: "(w, wk) \<in> set ws" "suits t wk"
      "gs = take (unat (tRequiredGPUs t)) (collect_gpus t (wGPUs wk))"
    using assign_Inr [OF assms] by blast
  then have "length gs = unat (tRequiredGPUs t)" using suits_length by simp
  moreover have "set gs \<subseteq> set (free_ids (wGPUs wk))"
    using wk(3) set_take_subset set_collect_gpus_free by fast
  moreover have "distinct (map gID (wGPUs wk)) \<longrightarrow> distinct gs"
    using wk(3) by (simp add: distinct_collect_gpus)
  ultimately show ?thesis using wk(1,2) by blast
qed

end

section \<open>Both policies meet it\<close>

definition simple_suits :: "Task \<Rightarrow> Worker \<Rightarrow> bool" where
  "simple_suits task worker \<longleftrightarrow>
     simple_eligible worker \<and> enough_gpus (collect_gpus task (wGPUs worker)) task"

definition balanced_suits :: "Task \<Rightarrow> Worker \<Rightarrow> bool" where
  "balanced_suits task worker \<longleftrightarrow>
     balanced_eligible worker \<and> enough_gpus (collect_gpus task (wGPUs worker)) task"

fun policy_suits :: "WorkloadPolicy \<Rightarrow> Task \<Rightarrow> Worker \<Rightarrow> bool" where
  "policy_suits SimpleWorkloadPolicy = simple_suits"
| "policy_suits BalancedWorkloadPolicy = balanced_suits"

lemma set_simple_candidates:
  "c \<in> set (simple_candidates task ws) \<longleftrightarrow>
     (\<exists>wk. (ws_id c, wk) \<in> set ws \<and> simple_suits task wk
        \<and> c = \<lparr>ws_id = ws_id c,
               ws_score = simple_score task wk (collect_gpus task (wGPUs wk)),
               ws_gpus = take (unat (tRequiredGPUs task)) (collect_gpus task (wGPUs wk))\<rparr>)"
  by (induction task ws rule: simple_candidates.induct) (auto simp: simple_suits_def Let_def)

lemma set_balanced_candidates:
  "c \<in> set (balanced_candidates task ws) \<longleftrightarrow>
     (\<exists>wk. (ws_id c, wk) \<in> set ws \<and> balanced_suits task wk
        \<and> c = \<lparr>ws_id = ws_id c,
               ws_score = balanced_score wk (collect_gpus task (wGPUs wk)),
               ws_gpus = take (unat (tRequiredGPUs task)) (collect_gpus task (wGPUs wk)),
               bs_taskCount = length (wTasks wk), bs_totalGPUs = length (wGPUs wk),
               bs_availableGPUs = length (collect_gpus task (wGPUs wk))\<rparr>)"
  by (induction task ws rule: balanced_candidates.induct) (auto simp: balanced_suits_def Let_def)

lemma pick_candidate_Inr:
  assumes "pick_candidate order cs = Inr (w, gs)"
  shows "\<exists>c \<in> set cs. w = ws_id c \<and> gs = ws_gpus c
           \<and> ((\<forall>d \<in> set cs. ws_score d \<noteq> FNaN) \<longrightarrow>
               (\<forall>d \<in> set cs. \<not> f_lt (ws_score d) (ws_score c)))"
proof -
  let ?lt = "\<lambda>a b. f_lt (ws_score a) (ws_score b)"
  obtain c rest where srt: "sort_slice ?lt order cs = c # rest" and c: "w = ws_id c" "gs = ws_gpus c"
    using assms by (auto simp: pick_candidate_def split: if_splits list.splits)
  have "c \<in> set cs" using slice.set_srt [of ?lt order cs] srt by auto
  moreover have "\<forall>d \<in> set cs. \<not> f_lt (ws_score d) (ws_score c)"
    if "\<forall>d \<in> set cs. ws_score d \<noteq> FNaN"
    using slice.hd_srt_least(2) [OF f_lt_weak_order srt] that by blast
  ultimately show ?thesis using c by blast
qed

lemma pick_candidate_Inl_iff: "(\<exists>e. pick_candidate order cs = Inl e) \<longleftrightarrow> cs = []"
  by (auto simp: pick_candidate_def slice.srt_eq_Nil split: list.splits)

lemma collect_gpus_occupy:
  "length (collect_gpus task (set_available False ids gpus)) \<le> length (collect_gpus task gpus)"
proof -
  have sub: "length (filter P (map f gpus)) \<le> length (filter P gpus)"
    if "\<And>g. P (f g) \<Longrightarrow> P g" for P :: "GPU \<Rightarrow> bool" and f
    using that by (induction gpus) auto
  show ?thesis unfolding collect_gpus_eq set_available_map length_map
    by (rule sub) (simp split: if_splits)
qed

lemma enough_gpus_occupy:
  assumes "length (wGPUs wk) < 2 ^ 32"
    and "enough_gpus (collect_gpus t (wGPUs (occupy k a ids wk))) t"
  shows "enough_gpus (collect_gpus t (wGPUs wk)) t"
proof -
  have "unat (tRequiredGPUs t) \<le> length (collect_gpus t (wGPUs (occupy k a ids wk)))"
    using assms(2) by (rule enough_gpus_length)
  also have "\<dots> \<le> length (collect_gpus t (wGPUs wk))"
    by (simp add: occupy_def collect_gpus_occupy)
  finally show ?thesis
    using assms(1) length_collect_gpus [of t "wGPUs wk"] by (simp add: enough_gpus_iff)
qed

lemma suits_congs:
  assumes "tRequiredGPUs t = tRequiredGPUs t'" and "tMinGPUMemory t = tMinGPUMemory t'"
  shows "simple_suits t wk \<longleftrightarrow> simple_suits t' wk" and "balanced_suits t wk \<longleftrightarrow> balanced_suits t' wk"
  using assms by (simp_all add: simple_suits_def balanced_suits_def collect_gpus_eq enough_gpus_def)

interpretation simple: workload_policy SimpleAssignTask simple_suits
proof unfold_locales
  fix ch ws t w gs assume "SimpleAssignTask ch ws t = Inr (w, gs)"
  then obtain c where "c \<in> set (simple_candidates t (permute (fst ch) ws))" "w = ws_id c" "gs = ws_gpus c"
    unfolding SimpleAssignTask_def using pick_candidate_Inr by blast
  then show "\<exists>wk. (w, wk) \<in> set ws \<and> simple_suits t wk
      \<and> gs = take (unat (tRequiredGPUs t)) (collect_gpus t (wGPUs wk))"
    by (auto simp: set_simple_candidates) (metis workerScore.select_convs(3))
next
  fix ch ws t e w wk assume "SimpleAssignTask ch ws t = Inl e" and wk: "(w, wk) \<in> set ws"
  then have "simple_candidates t (permute (fst ch) ws) = []"
    unfolding SimpleAssignTask_def using pick_candidate_Inl_iff by blast
  then show "\<not> simple_suits t wk"
    using wk set_simple_candidates [of "\<lparr>ws_id = w, ws_score = s, ws_gpus = g\<rparr>" t "permute (fst ch) ws" for s g]
    by fastforce
next
  fix t t' :: Task and wk :: Worker assume "tRequiredGPUs t = tRequiredGPUs t'" "tMinGPUMemory t = tMinGPUMemory t'"
  then show "simple_suits t wk \<longleftrightarrow> simple_suits t' wk" by (rule suits_congs)
qed (auto simp: simple_suits_def enough_gpus_occupy simple_eligible_def occupy_def)

interpretation balanced: workload_policy BalancedAssignTask balanced_suits
proof unfold_locales
  fix ch ws t w gs assume "BalancedAssignTask ch ws t = Inr (w, gs)"
  then obtain c where "c \<in> set (balanced_candidates t (permute (fst ch) ws))" "w = ws_id c" "gs = ws_gpus c"
    unfolding BalancedAssignTask_def using pick_candidate_Inr by blast
  then show "\<exists>wk. (w, wk) \<in> set ws \<and> balanced_suits t wk
      \<and> gs = take (unat (tRequiredGPUs t)) (collect_gpus t (wGPUs wk))"
    by (auto simp: set_balanced_candidates) (metis workerScore.select_convs(3))
next
  fix ch ws t e w wk assume "BalancedAssignTask ch ws t = Inl e" and wk: "(w, wk) \<in> set ws"
  then have "balanced_candidates t (permute (fst ch) ws) = []"
    unfolding BalancedAssignTask_def using pick_candidate_Inl_iff by blast
  then show "\<not> balanced_suits t wk"
    using wk set_balanced_candidates
      [of "\<lparr>ws_id = w, ws_score = s, ws_gpus = g, bs_taskCount = n, bs_totalGPUs = k, bs_availableGPUs = l\<rparr>"
          t "permute (fst ch) ws" for s g n k l]
    by fastforce
next
  fix t0 wk t k a ids
  assume "balanced_suits t0 wk" "length (wGPUs wk) < 2 ^ 32" "balanced_suits t (occupy k a ids wk)"
  then show "balanced_suits t wk" by (auto simp: balanced_suits_def enough_gpus_occupy)
next
  fix t t' :: Task and wk :: Worker assume "tRequiredGPUs t = tRequiredGPUs t'" "tMinGPUMemory t = tMinGPUMemory t'"
  then show "balanced_suits t wk \<longleftrightarrow> balanced_suits t' wk" by (rule suits_congs)
qed (auto simp: balanced_suits_def)

interpretation pol: workload_policy "AssignTask p" "policy_suits p" for p
  by (cases p) (simp_all add: simple.workload_policy_axioms balanced.workload_policy_axioms)

end
