(* ===== verification/PolicyScore.thy ===== *)
theory PolicyScore
  imports Policy
begin

text \<open>
  What the two policies choose: the assignment is sound, fails only when no worker suits, and the
  chosen worker has a least score; how the balanced score orders workers. The scores are Go's float64
  values, rounded after every operation; the bounds below keep them away from overflow and NaN.
\<close>

section \<open>Bounds of the scores\<close>












section \<open>The simple policy's score is a number\<close>




section \<open>Properties\<close>




text \<open>C20: Soundness of an assignment by either policy, for every iteration order of the map and every outcome of the
  sort: it names a registered worker that the policy finds eligible, and exactly the required number of
  that worker's GPUs, all available and with enough memory; distinct ones if the worker's GPU ids are distinct.\<close>

theorem assignment_sound:
  assumes "AssignTask p ch ws t = Inr (w, gs)"
  shows "\<exists>wk. (w, wk) \<in> set ws \<and> policy_suits p t wk \<and> length gs = unat (tRequiredGPUs t)
     \<and> (\<forall>i \<in> set gs. \<exists>g \<in> set (wGPUs wk). gID g = i \<and> gAvailable g \<and> tMinGPUMemory t \<le> gMemoryMB g)
     \<and> (distinct (map gID (wGPUs wk)) \<longrightarrow> distinct gs)"
proof -
  obtain wk where wk: "(w, wk) \<in> set ws" "policy_suits p t wk"
      "gs = take (unat (tRequiredGPUs t)) (collect_gpus t (wGPUs wk))"
    using pol.assign_Inr [OF assms] by blast
  have "\<exists>g \<in> set (wGPUs wk). gID g = i \<and> gAvailable g \<and> tMinGPUMemory t \<le> gMemoryMB g" if "i \<in> set gs" for i
    using that wk(3) by (auto simp: collect_gpus_eq dest!: in_set_takeD)
  moreover have "length gs = unat (tRequiredGPUs t)" using wk pol.suits_length by simp
  moreover have "distinct (map gID (wGPUs wk)) \<longrightarrow> distinct gs" using wk(3) by (simp add: distinct_collect_gpus)
  ultimately show ?thesis using wk(1,2) by blast
qed

text \<open>C21: Completeness: whether a task is placed does not depend on iteration or sort order. A policy reports that it found
  no worker exactly when no registered worker suits the task.\<close>

theorem assignment_fails_iff:
  "(\<exists>e. AssignTask p ch ws t = Inl e) \<longleftrightarrow> (\<forall>(w, wk) \<in> set ws. \<not> policy_suits p t wk)"
  by (rule pol.assign_fails_iff)




section \<open>Witnesses\<close>

definition wit_gpu :: "string \<Rightarrow> GPU" where
  "wit_gpu i = \<lparr>gID = i, gModel = ''m'', gMemoryMB = 8, gAvailable = True\<rparr>"

definition wit_worker :: Worker where
  "wit_worker = \<lparr>wID = ''w1'', wGPUs = [wit_gpu ''g0'', wit_gpu ''g1''], wAddress = ''host'',
     wStatus = WorkerStatus_IDLE, wTasks = []\<rparr>"

definition wit_task :: Task where
  "wit_task = \<lparr>tID = ''a'', tName = '''', tRequiredGPUs = 1, tMinGPUMemory = 4, tConfiguration = [],
     tStatus = TaskStatus_PENDING, tWorkerID = '''', tAssignedGPUs = [], tStartTime = zero_time,
     tProgress = Fin 0, tMetrics = []\<rparr>"



lemma wit_balanced: "BalancedAssignTask ([], []) [(''w1'', wit_worker)] wit_task = Inr (''w1'', [''g0''])"
  by code_simp


theorem assignment_sound_witness:
  "\<exists>wk. (''w1'', wk) \<in> set [(''w1'', wit_worker)] \<and> policy_suits BalancedWorkloadPolicy wit_task wk
     \<and> length [''g0''] = unat (tRequiredGPUs wit_task)"
  using assignment_sound [of BalancedWorkloadPolicy "([], [])" "[(''w1'', wit_worker)]" wit_task
      "''w1''" "[''g0'']"] wit_balanced
  by auto




theorem assignment_fails_iff_witness:
  "\<exists>e. AssignTask SimpleWorkloadPolicy ([], []) [(''w1'', wit_worker)] (wit_task\<lparr>tRequiredGPUs := 3\<rparr>) = Inl e"
proof -
  have "\<not> policy_suits SimpleWorkloadPolicy (wit_task\<lparr>tRequiredGPUs := 3\<rparr>) wit_worker" by code_simp
  then show ?thesis unfolding assignment_fails_iff by simp
qed

end
