(* ===== verification/Mutex.thy ===== *)
theory Mutex
  imports GoBase
begin

text \<open>
  \<^verbatim>\<open>sync.RWMutex\<close> as the scheduler uses it. The state of the mutex is who holds it; the operations are
  a parameter of the handlers (\<open>mutex_ops\<close>), because the code's behaviour depends on one point of
  their contract. \<open>go_rwmutex\<close> is Go's documented mutex: it is not reentrant, so \<^verbatim>\<open>RLock\<close> waits
  while a writer holds it, even when that writer is the calling goroutine. \<open>reentrant_rwmutex\<close> is not
  documented behaviour of \<^verbatim>\<open>sync.RWMutex\<close>, and the program never has it: it is a counterfactual, which differs
  only in that the holder of the write lock may read-lock again. The handlers are written as if the mutex
  were of this kind. Properties of the program hold for Go's mutex or for both; with the second, they say what the handlers
  would still do wrong if the nested read locks were repaired.
  \<open>None\<close> of a lock operation is "waits for ever" (nobody else can release the mutex, because the handlers run
  one at a time); \<open>None\<close> of an unlock operation is Go's fatal error.
\<close>

record rwmutex =
  rw_writer :: bool
  rw_readers :: nat

record mutex_ops =
  m_lock :: "rwmutex \<Rightarrow> rwmutex option"
  m_unlock :: "rwmutex \<Rightarrow> rwmutex option"
  m_rlock :: "rwmutex \<Rightarrow> rwmutex option"
  m_runlock :: "rwmutex \<Rightarrow> rwmutex option"

definition unlocked :: rwmutex where
  "unlocked = \<lparr>rw_writer = False, rw_readers = 0\<rparr>"

definition write_locked :: rwmutex where
  "write_locked = \<lparr>rw_writer = True, rw_readers = 0\<rparr>"

definition go_rwmutex :: mutex_ops where
  "go_rwmutex = \<lparr>
     m_lock = (\<lambda>m. if rw_writer m \<or> 0 < rw_readers m then None else Some (m\<lparr>rw_writer := True\<rparr>)),
     m_unlock = (\<lambda>m. if rw_writer m then Some (m\<lparr>rw_writer := False\<rparr>) else None),
     m_rlock = (\<lambda>m. if rw_writer m then None else Some (m\<lparr>rw_readers := Suc (rw_readers m)\<rparr>)),
     m_runlock = (\<lambda>m. if rw_readers m = 0 then None else Some (m\<lparr>rw_readers := rw_readers m - 1\<rparr>))\<rparr>"

definition reentrant_rwmutex :: mutex_ops where
  "reentrant_rwmutex = go_rwmutex\<lparr>m_rlock := (\<lambda>m. Some (m\<lparr>rw_readers := Suc (rw_readers m)\<rparr>))\<rparr>"

text \<open>What the handlers rely on for one critical section.\<close>

locale rw_lock =
  fixes ops :: mutex_ops
  assumes lock_free: "m_lock ops unlocked = Some write_locked"
    and unlock_held: "m_unlock ops write_locked = Some unlocked"
    and lock_held: "m_lock ops write_locked = None"
    and rlock_free: "m_rlock ops unlocked = Some (unlocked\<lparr>rw_readers := 1\<rparr>)"
    and runlock_free: "m_runlock ops (unlocked\<lparr>rw_readers := 1\<rparr>) = Some unlocked"

text \<open>The nested read lock that the code takes while it holds the write lock: granted, or not.\<close>

locale nested_read_lock = rw_lock +
  assumes rlock_held: "m_rlock ops write_locked = Some (write_locked\<lparr>rw_readers := 1\<rparr>)"
    and runlock_held: "m_runlock ops (write_locked\<lparr>rw_readers := 1\<rparr>) = Some write_locked"

locale no_nested_read_lock = rw_lock +
  assumes rlock_blocks: "m_rlock ops write_locked = None"

interpretation go_mutex: no_nested_read_lock go_rwmutex
  by unfold_locales (simp_all add: go_rwmutex_def unlocked_def write_locked_def)

interpretation re_mutex: nested_read_lock reentrant_rwmutex
  by unfold_locales
    (simp_all add: reentrant_rwmutex_def go_rwmutex_def unlocked_def write_locked_def)

lemma unlocked_neq_write_locked [simp]: "unlocked \<noteq> write_locked" "write_locked \<noteq> unlocked"
  by (simp_all add: unlocked_def write_locked_def)

end
