(* ===== verification/ManagerTypes.thy ===== *)
theory ManagerTypes
  imports Proto
begin

text \<open>
  The data of \<^verbatim>\<open>pkg/persistence/manager.go\<close> and the configuration types of \<^verbatim>\<open>database.go\<close>: the
  configuration, the snapshot that is saved and loaded, and the manager with its two channels. The
  buffered channel \<^verbatim>\<open>saveTrigger\<close> (capacity 1) is the number of tokens in it; \<^verbatim>\<open>stopCh\<close> is whether it has
  been closed; \<^verbatim>\<open>dbManager\<close> is present or nil (the database itself is a parameter of the operations
  that touch it).
\<close>

abbreviation DatabasePersistence :: string where "DatabasePersistence \<equiv> ''database''"
abbreviation FilePersistence :: string where "FilePersistence \<equiv> ''file''"
abbreviation SQLite :: string where "SQLite \<equiv> ''sqlite''"
abbreviation PostgreSQL :: string where "PostgreSQL \<equiv> ''postgres''"

record DatabaseConfig =
  dcType :: string
  dcConnectionString :: string
  dcAutoMigrate :: bool
  dcLogMode :: bool

definition DefaultSQLiteConfig :: DatabaseConfig where
  "DefaultSQLiteConfig = \<lparr>dcType = SQLite, dcConnectionString = ''scheduler.db'',
     dcAutoMigrate = True, dcLogMode = False\<rparr>"

definition DefaultPostgresConfig :: DatabaseConfig where
  "DefaultPostgresConfig = \<lparr>dcType = PostgreSQL,
     dcConnectionString =
       ''host=localhost user=postgres password=postgres dbname=scheduler port=5432 sslmode=disable'',
     dcAutoMigrate = True, dcLogMode = False\<rparr>"

record Config =
  cfType :: string
  cfDatabase :: DatabaseConfig
  cfSaveInterval :: int
  cfAutoSave :: bool

definition DefaultConfig :: Config where
  "DefaultConfig = \<lparr>cfType = DatabasePersistence, cfDatabase = DefaultSQLiteConfig,
     cfSaveInterval = 60, cfAutoSave = True\<rparr>"

record GPUState =
  gsID :: string
  gsModel :: string
  gsMemoryMB :: u64
  gsAvailable :: bool

record WorkerState =
  wsID :: string
  wsGPUs :: "GPUState list"
  wsAddress :: string
  wsWStatus :: WorkerStatus
  wsTasks :: "string list"

record TaskState =
  tkID :: string
  tkName :: string
  tkRequiredGPUs :: u32
  tkMinGPUMemory :: u64
  tkConfiguration :: bytes
  tkStatus :: TaskStatus
  tkWorkerID :: string
  tkAssignedGPUs :: "string list"
  tkStartTime :: int
  tkProgress :: gofloat

record SchedulerState =
  ssWorkers :: "WorkerState gomap"
  ssTasks :: "TaskState gomap"
  ssPendingTasks :: "string list"
  ssSavedAt :: int

record Manager =
  mgConfig :: Config
  mgHasDB :: bool
  mgStopped :: bool
  mgSaveTrigger :: nat
  mgAutoSave :: bool

text \<open>
  \<^verbatim>\<open>select { case m.saveTrigger <- struct{}{}: default: }\<close>: a token is added when the buffer has room.
\<close>

definition send_trigger :: "Manager \<Rightarrow> Manager" where
  "send_trigger m = (if mgSaveTrigger m < 1 then m\<lparr>mgSaveTrigger := Suc (mgSaveTrigger m)\<rparr> else m)"

definition TriggerSave :: "Manager \<Rightarrow> Manager" where
  "TriggerSave m = send_trigger m"

end
