(* ===== verification/SchedState.thy ===== *)
theory SchedState
  imports Mutex Policy ManagerTypes
begin

text \<open>
  The scheduler object (\<^verbatim>\<open>Scheduler\<close> in \<^verbatim>\<open>pkg/scheduler/scheduler.go\<close>), its lock discipline, and
  \<^verbatim>\<open>pkg/scheduler/metrics.go\<close>. The record holds the struct's fields, the task heap, the calls made to
  the metrics object so far, and a counter of the questions asked to the environment: the \<open>n\<close>-th
  question is answered by \<open>clock n\<close> (\<^verbatim>\<open>time.Now\<close>) and \<open>orders n\<close> (map and sort order), which are
  arbitrary. The logger only writes and is left out; \<^verbatim>\<open>workloadPolicy\<close> is an argument of the handlers.
\<close>

section \<open>State\<close>

text \<open>The calls to \<^verbatim>\<open>metrics.SchedulerMetrics\<close>, in the order they are made.\<close>

datatype metric_call =
    IncrementTotalTasks
  | SetActiveTasks nat
  | SetPendingTasks nat
  | IncrementCompletedTasks
  | IncrementFailedTasks
  | ObserveTaskDuration string gofloat
  | SetActiveWorkers nat

record sched =
  mu :: rwmutex
  workers :: "Worker gomap"
  tasks :: "task_addr gomap"
  pendingTasks :: "task_addr list"
  hasMetrics :: bool
  persistenceManager :: "Manager option"
  heap :: "task_addr \<Rightarrow> Task"
  heapNext :: task_addr
  metricCalls :: "metric_call list"
  envTick :: nat

record env =
  mutex :: mutex_ops
  clock :: "nat \<Rightarrow> int"
  orders :: "nat \<Rightarrow> choices"

definition no_task :: Task where
  "no_task = \<lparr>tID = '''', tName = '''', tRequiredGPUs = 0, tMinGPUMemory = 0, tConfiguration = [],
     tStatus = TaskStatus_PENDING, tWorkerID = '''', tAssignedGPUs = [], tStartTime = zero_time,
     tProgress = Fin 0, tMetrics = []\<rparr>"

definition NewScheduler :: sched where
  "NewScheduler = \<lparr>mu = unlocked, workers = [], tasks = [], pendingTasks = [], hasMetrics = False,
     persistenceManager = None, heap = (\<lambda>_. no_task), heapNext = 0, metricCalls = [], envTick = 0\<rparr>"

text \<open>A task struct is allocated by whoever calls \<^verbatim>\<open>AddTask\<close>.\<close>

definition alloc_task :: "Task \<Rightarrow> sched \<Rightarrow> task_addr \<times> sched" where
  "alloc_task t s = (heapNext s, s\<lparr>heap := (heap s)(heapNext s := t), heapNext := Suc (heapNext s)\<rparr>)"

definition tick :: "sched \<Rightarrow> sched" where
  "tick s = s\<lparr>envTick := Suc (envTick s)\<rparr>"

definition modify_task :: "task_addr \<Rightarrow> (Task \<Rightarrow> Task) \<Rightarrow> sched \<Rightarrow> sched" where
  "modify_task a f s = s\<lparr>heap := (heap s)(a := f (heap s a))\<rparr>"

text \<open>An assignment through the pointer \<^verbatim>\<open>s.workers[w]\<close>.\<close>

definition modify_worker :: "string \<Rightarrow> (Worker \<Rightarrow> Worker) \<Rightarrow> sched \<Rightarrow> sched" where
  "modify_worker w f s = (case map_of (workers s) w of
      None \<Rightarrow> s
    | Some wk \<Rightarrow> s\<lparr>workers := mput w (f wk) (workers s)\<rparr>)"

definition record_call :: "metric_call \<Rightarrow> sched \<Rightarrow> sched" where
  "record_call c s = s\<lparr>metricCalls := metricCalls s @ [c]\<rparr>"

section \<open>Critical sections\<close>

text \<open>\<^verbatim>\<open>s.mu.Lock(); defer s.mu.Unlock()\<close> and the read-locked variant, around a body.\<close>

definition locked ::
  "(rwmutex \<Rightarrow> rwmutex option) \<Rightarrow> (rwmutex \<Rightarrow> rwmutex option) \<Rightarrow>
   (sched \<Rightarrow> ('r, sched) res) \<Rightarrow> sched \<Rightarrow> ('r, sched) res" where
  "locked acquire release body s =
     (case acquire (mu s) of
        None \<Rightarrow> Stuck s
      | Some m \<Rightarrow>
          bind_res (body (s\<lparr>mu := m\<rparr>))
            (\<lambda>r t. case release (mu t) of
                      None \<Rightarrow> Panicked t
                    | Some m' \<Rightarrow> Done r (t\<lparr>mu := m'\<rparr>)))"

definition with_lock :: "env \<Rightarrow> (sched \<Rightarrow> ('r, sched) res) \<Rightarrow> sched \<Rightarrow> ('r, sched) res" where
  "with_lock E = locked (m_lock (mutex E)) (m_unlock (mutex E))"

definition with_rlock :: "env \<Rightarrow> (sched \<Rightarrow> ('r, sched) res) \<Rightarrow> sched \<Rightarrow> ('r, sched) res" where
  "with_rlock E = locked (m_rlock (mutex E)) (m_runlock (mutex E))"

section \<open>\<^verbatim>\<open>pkg/scheduler/metrics.go\<close>\<close>

definition SetMetrics :: "env \<Rightarrow> sched \<Rightarrow> (unit, sched) res" where
  "SetMetrics E = with_lock E (act (\<lambda>s. s\<lparr>hasMetrics := True\<rparr>))"

definition active_count :: "sched \<Rightarrow> nat" where
  "active_count s = length (filter (\<lambda>(_, a). tStatus (heap s a) = TaskStatus_RUNNING) (tasks s))"

definition updateMetrics :: "env \<Rightarrow> sched \<Rightarrow> (unit, sched) res" where
  "updateMetrics E s =
     (if \<not> hasMetrics s then Done () s
      else with_rlock E
        (block [act (\<lambda>s. record_call (SetActiveTasks (active_count s)) s),
                act (\<lambda>s. record_call (SetPendingTasks (length (pendingTasks s))) s),
                act (\<lambda>s. record_call (SetActiveWorkers (length (workers s))) s)]) s)"

definition recordTaskSubmission :: "env \<Rightarrow> sched \<Rightarrow> (unit, sched) res" where
  "recordTaskSubmission E s =
     (if \<not> hasMetrics s then Done () s
      else block [act (record_call IncrementTotalTasks), updateMetrics E] s)"

text \<open>
  \<^verbatim>\<open>time.Since(t).Seconds()\<close>: the difference saturates at the ends of int64, and the conversion adds
  the whole seconds and the rest as floats; Go's division truncates.
\<close>

definition int64_sat :: "int \<Rightarrow> int" where
  "int64_sat x = max (- (2 ^ 63)) (min (2 ^ 63 - 1) x)"

definition go_quot :: "int \<Rightarrow> int \<Rightarrow> int" where
  "go_quot a b = sgn a * sgn b * (\<bar>a\<bar> div \<bar>b\<bar>)"

definition duration_seconds :: "int \<Rightarrow> gofloat" where
  "duration_seconds d =
     (let sec = go_quot d 1000000000; nsec = d - sec * 1000000000
      in f_add rnd64 (rnd64 (of_int sec)) (f_div rnd64 (rnd64 (of_int nsec)) (rnd64 1000000000)))"

definition since :: "env \<Rightarrow> sched \<Rightarrow> int \<Rightarrow> int" where
  "since E s t = int64_sat (clock E (envTick s) - t)"

definition recordTaskCompletion :: "env \<Rightarrow> task_addr \<Rightarrow> sched \<Rightarrow> (unit, sched) res" where
  "recordTaskCompletion E a s =
     (if \<not> hasMetrics s then Done () s
      else let task = heap s a in
        block [act (\<lambda>s. tick (record_call
                  (ObserveTaskDuration (tName task) (duration_seconds (since E s (tStartTime task)))) s)),
               act (\<lambda>s. if tStatus task = TaskStatus_COMPLETED then record_call IncrementCompletedTasks s
                        else if tStatus task = TaskStatus_FAILED then record_call IncrementFailedTasks s
                        else s),
               updateMetrics E] s)"

definition recordWorkerRegistration :: "env \<Rightarrow> sched \<Rightarrow> (unit, sched) res" where
  "recordWorkerRegistration E s = (if \<not> hasMetrics s then Done () s else updateMetrics E s)"

definition recordWorkerStatusChange :: "env \<Rightarrow> sched \<Rightarrow> (unit, sched) res" where
  "recordWorkerStatusChange E s = (if \<not> hasMetrics s then Done () s else updateMetrics E s)"

section \<open>Asking for a save\<close>

definition request_save :: "sched \<Rightarrow> sched" where
  "request_save s = (case persistenceManager s of
      None \<Rightarrow> s
    | Some m \<Rightarrow> s\<lparr>persistenceManager := Some (TriggerSave m)\<rparr>)"

definition UpdatePersistentState :: "env \<Rightarrow> sched \<Rightarrow> (unit, sched) res" where
  "UpdatePersistentState E =
     with_rlock E (act request_save)"

end
