(* ===== verification/Scheduler.thy ===== *)
theory Scheduler
  imports SchedState
begin

text \<open>
  The handlers of \<^verbatim>\<open>pkg/scheduler/scheduler.go\<close>. Each is the whole handler: the lock, the guards with
  their early returns, the statements in the source's order (\<open>block\<close>), the calls to the metrics object and to the
  persistence manager, and the response. \<open>A\<close> is the policy's \<^verbatim>\<open>AssignTask\<close> method.
\<close>

section \<open>Handing a task to a worker\<close>

text \<open>\<^verbatim>\<open>task.Status = RUNNING; task.WorkerID = ...; task.AssignedGPUs = ...; task.StartTime = time.Now()\<close>\<close>

definition start_task :: "env \<Rightarrow> task_addr \<Rightarrow> string \<Rightarrow> string list \<Rightarrow> sched \<Rightarrow> sched" where
  "start_task E a workerID gpuIDs s =
     modify_task a (\<lambda>t. t\<lparr>tStatus := TaskStatus_RUNNING, tWorkerID := workerID,
                           tAssignedGPUs := gpuIDs, tStartTime := clock E (envTick s)\<rparr>) s"

text \<open>\<^verbatim>\<open>s.pendingTasks = append(s.pendingTasks[:i], s.pendingTasks[i+1:]...)\<close>\<close>

definition remove_pending :: "nat \<Rightarrow> sched \<Rightarrow> sched" where
  "remove_pending i s = s\<lparr>pendingTasks := take i (pendingTasks s) @ drop (Suc i) (pendingTasks s)\<rparr>"

lemma pendingTasks_simps [simp]:
  "pendingTasks (start_task E a w gs s) = pendingTasks s"
  "pendingTasks (modify_worker w f s) = pendingTasks s"
  "pendingTasks (modify_task a g s) = pendingTasks s"
  "pendingTasks (tick s) = pendingTasks s"
  "pendingTasks (remove_pending i s) = take i (pendingTasks s) @ drop (Suc i) (pendingTasks s)"
  by (auto simp: start_task_def modify_worker_def modify_task_def tick_def remove_pending_def
           split: option.splits)

text \<open>
  The rest of the loop body, once the task has its fields: the chosen worker's status, task map and
  GPUs, and the removal from the queue.
\<close>

definition place_on :: "nat \<Rightarrow> task_addr \<Rightarrow> string \<Rightarrow> string list \<Rightarrow> sched \<Rightarrow> sched" where
  "place_on i a workerID gpuIDs t =
     remove_pending i (modify_worker workerID (occupy (tID (heap t a)) a gpuIDs) t)"

text \<open>
  One pass over the queue, from index \<open>i\<close>. A task the policy cannot place stays, and the pass goes on with the next;
  a placed task is removed and the index stays. \<open>worker := s.workers[workerID]\<close> is nil when the
  policy names no worker, and the assignment to its status panics. The result says whether a task was placed.
\<close>

function assign_loop :: "env \<Rightarrow> assign_method \<Rightarrow> nat \<Rightarrow> bool \<Rightarrow> sched \<Rightarrow> (bool, sched) res" where
  "assign_loop E A i tasksAssigned s =
     (if i < length (pendingTasks s) then
        let a = pendingTasks s ! i in
        case A (orders E (envTick s)) (workers s) (heap s a) of
          Inl err \<Rightarrow> assign_loop E A (Suc i) tasksAssigned (tick s)
        | Inr (workerID, gpuIDs) \<Rightarrow>
            let t = tick (start_task E a workerID gpuIDs s) in
            (case map_of (workers t) workerID of
               None \<Rightarrow> Panicked t
             | Some _ \<Rightarrow>
                 assign_loop E A i True (place_on i a workerID gpuIDs t))
      else Done tasksAssigned s)"
  by pat_completeness auto
termination
  by (relation "measure (\<lambda>(E, A, i, f, s). length (pendingTasks s) - i)")
    (auto simp: place_on_def)

declare assign_loop.simps [simp del]

definition assignPendingTasks :: "env \<Rightarrow> assign_method \<Rightarrow> sched \<Rightarrow> (unit, sched) res" where
  "assignPendingTasks E A s =
     bind_res (assign_loop E A 0 False s)
       (\<lambda>tasksAssigned t. if tasksAssigned then UpdatePersistentState E t else Done () t)"

section \<open>\<^verbatim>\<open>RegisterWorker\<close>\<close>

definition gpu_of_pb :: "pbGPU \<Rightarrow> GPU" where
  "gpu_of_pb g = \<lparr>gID = pgId g, gModel = pgModel g, gMemoryMB = pgMemoryMb g,
                  gAvailable = pgAvailable g\<rparr>"

definition assigned_id :: "RegisterWorkerRequest \<Rightarrow> sched \<Rightarrow> string" where
  "assigned_id req s =
     (if rwWorkerId req = '''' then ''worker-'' @ show_nat (length (workers s) + 1)
      else rwWorkerId req)"

definition new_worker :: "string \<Rightarrow> RegisterWorkerRequest \<Rightarrow> Worker" where
  "new_worker workerID req = \<lparr>wID = workerID, wGPUs = map gpu_of_pb (rwGpus req),
     wAddress = rwAddress req, wStatus = WorkerStatus_IDLE, wTasks = []\<rparr>"

definition admit_worker ::
  "env \<Rightarrow> assign_method \<Rightarrow> string \<Rightarrow> RegisterWorkerRequest \<Rightarrow> sched \<Rightarrow> (unit, sched) res" where
  "admit_worker E A workerID req =
     block [act (\<lambda>s. s\<lparr>workers := mput workerID (new_worker workerID req) (workers s)\<rparr>),
            recordWorkerRegistration E,
            UpdatePersistentState E,
            assignPendingTasks E A]"

definition RegisterWorker ::
  "env \<Rightarrow> assign_method \<Rightarrow> RegisterWorkerRequest \<Rightarrow> sched \<Rightarrow> (RegisterWorkerResponse, sched) res" where
  "RegisterWorker E A req =
     with_lock E (\<lambda>s.
       let workerID = assigned_id req s in
       if map_of (workers s) workerID \<noteq> None
       then Done \<lparr>rrSuccess = False, rrMessage = ''Worker ID already registered'',
                  rrAssignedId = workerID\<rparr> s
       else returning
         (\<lambda>_. \<lparr>rrSuccess = True, rrMessage = ''Worker registered successfully'',
               rrAssignedId = workerID\<rparr>)
         (admit_worker E A workerID req s))"

section \<open>\<^verbatim>\<open>RequestTask\<close>\<close>

definition pb_of_task :: "Task \<Rightarrow> pbTask" where
  "pb_of_task t = \<lparr>ptId = tID t, ptName = tName t, ptRequiredGpus = tRequiredGPUs t,
     ptMinGpuMemory = tMinGPUMemory t, ptConfiguration = tConfiguration t, ptStatus = tStatus t\<rparr>"

text \<open>
  The statements for the first pending task that the policy can place. The policy chooses a worker
  (\<open>workerID\<close>, which goes into the task); the status, the task map and the GPUs that are updated are
  those of the worker that asked (\<open>requester\<close>).
\<close>

definition hand_out ::
  "env \<Rightarrow> string \<Rightarrow> nat \<Rightarrow> task_addr \<Rightarrow> string \<Rightarrow> string list \<Rightarrow> sched \<Rightarrow> (unit, sched) res" where
  "hand_out E requester i a workerID gpuIDs =
     block [act (\<lambda>s. tick (start_task E a workerID gpuIDs s)),
            act (modify_worker requester (\<lambda>wk. wk\<lparr>wStatus := WorkerStatus_BUSY\<rparr>)),
            recordWorkerStatusChange E,
            act (\<lambda>s. modify_worker requester
                   (\<lambda>wk. wk\<lparr>wTasks := mput (tID (heap s a)) a (wTasks wk)\<rparr>) s),
            act (modify_worker requester (\<lambda>wk. wk\<lparr>wGPUs := set_available False gpuIDs (wGPUs wk)\<rparr>)),
            act (remove_pending i),
            UpdatePersistentState E]"

function request_loop ::
  "env \<Rightarrow> assign_method \<Rightarrow> string \<Rightarrow> nat \<Rightarrow> sched \<Rightarrow> (grpc_error + pbTask, sched) res" where
  "request_loop E A requester i s =
     (if i < length (pendingTasks s) then
        let a = pendingTasks s ! i in
        case A (orders E (envTick s)) (workers s) (heap s a) of
          Inl err \<Rightarrow> request_loop E A requester (Suc i) (tick s)
        | Inr (workerID, gpuIDs) \<Rightarrow>
            returning (\<lambda>t. Inr (pb_of_task (heap t a))) (hand_out E requester i a workerID gpuIDs s)
      else Done (Inl (ResourceExhausted, ''No suitable tasks for this worker'')) s)"
  by pat_completeness auto
termination
  by (relation "measure (\<lambda>(E, A, r, i, s). length (pendingTasks s) - i)") auto

declare request_loop.simps [simp del]

definition RequestTask ::
  "env \<Rightarrow> assign_method \<Rightarrow> TaskRequest \<Rightarrow> sched \<Rightarrow> (grpc_error + pbTask, sched) res" where
  "RequestTask E A req =
     with_lock E (\<lambda>s.
       let workerID = trWorkerId req in
       if map_of (workers s) workerID = None
       then Done (Inl (NotFound, ''Worker not registered: '' @ workerID)) s
       else if pendingTasks s = []
       then Done (Inl (NotFound, ''No pending tasks available'')) s
       else request_loop E A workerID 0 s)"

section \<open>\<^verbatim>\<open>ReportTaskStatus\<close>\<close>

definition terminal :: "TaskStatus \<Rightarrow> bool" where
  "terminal st \<longleftrightarrow> st = TaskStatus_COMPLETED \<or> st = TaskStatus_FAILED"

text \<open>\<^verbatim>\<open>if len(worker.Tasks) == 0 { worker.Status = IDLE; s.recordWorkerStatusChange() }\<close>\<close>

definition idle_if_no_tasks :: "env \<Rightarrow> string \<Rightarrow> sched \<Rightarrow> (unit, sched) res" where
  "idle_if_no_tasks E workerID s =
     (case map_of (workers s) workerID of
        None \<Rightarrow> Done () s
      | Some worker \<Rightarrow>
          if length (wTasks worker) = 0
          then block [act (modify_worker workerID (\<lambda>wk. wk\<lparr>wStatus := WorkerStatus_IDLE\<rparr>)),
                      recordWorkerStatusChange E] s
          else Done () s)"

definition finish_task ::
  "env \<Rightarrow> assign_method \<Rightarrow> string \<Rightarrow> string \<Rightarrow> task_addr \<Rightarrow> sched \<Rightarrow> (unit, sched) res" where
  "finish_task E A taskID workerID a =
     block [recordTaskCompletion E a,
            act (\<lambda>s. modify_worker workerID
                   (\<lambda>wk. wk\<lparr>wGPUs := set_available True (tAssignedGPUs (heap s a)) (wGPUs wk)\<rparr>) s),
            act (modify_worker workerID (\<lambda>wk. wk\<lparr>wTasks := mdel taskID (wTasks wk)\<rparr>)),
            idle_if_no_tasks E workerID,
            assignPendingTasks E A]"

definition apply_update ::
  "env \<Rightarrow> assign_method \<Rightarrow> TaskStatusUpdate \<Rightarrow> task_addr \<Rightarrow> sched \<Rightarrow> (unit, sched) res" where
  "apply_update E A update a =
     block [act (modify_task a (\<lambda>t. t\<lparr>tStatus := tuStatus update, tProgress := tuProgress update,
                                       tMetrics := tuMetrics update\<rparr>)),
            (\<lambda>s. if terminal (tuStatus update)
                 then finish_task E A (tuTaskId update) (tuWorkerId update) a s else Done () s),
            UpdatePersistentState E]"

definition ReportTaskStatus ::
  "env \<Rightarrow> assign_method \<Rightarrow> TaskStatusUpdate \<Rightarrow> sched \<Rightarrow> (grpc_error + TaskStatusResponse, sched) res" where
  "ReportTaskStatus E A update =
     with_lock E (\<lambda>s.
       let taskID = tuTaskId update; workerID = tuWorkerId update in
       case map_of (tasks s) taskID of
         None \<Rightarrow> Done (Inl (NotFound, ''Task not found: '' @ taskID)) s
       | Some a \<Rightarrow>
           if map_of (workers s) workerID = None
           then Done (Inl (NotFound, ''Worker not found: '' @ workerID)) s
           else returning
             (\<lambda>_. Inr \<lparr>tsAcknowledged = True, tsMessage = ''Status update received''\<rparr>)
             (apply_update E A update a s))"

section \<open>\<^verbatim>\<open>AddTask\<close>\<close>

definition AddTask :: "env \<Rightarrow> assign_method \<Rightarrow> task_addr \<Rightarrow> sched \<Rightarrow> (unit, sched) res" where
  "AddTask E A a =
     with_lock E (block
       [act (\<lambda>s. s\<lparr>tasks := mput (tID (heap s a)) a (tasks s)\<rparr>),
        act (\<lambda>s. s\<lparr>pendingTasks := pendingTasks s @ [a]\<rparr>),
        recordTaskSubmission E,
        UpdatePersistentState E,
        assignPendingTasks E A])"

section \<open>\<^verbatim>\<open>MonitorWorker\<close> and \<^verbatim>\<open>ListWorkers\<close>\<close>

definition pb_of_gpu :: "GPU \<Rightarrow> pbGPU" where
  "pb_of_gpu g = \<lparr>pgId = gID g, pgModel = gModel g, pgMemoryMb = gMemoryMB g,
     pgAvailable = gAvailable g, pgCudaCores = 0, pgMemoryBandwidth = 0\<rparr>"

definition summary_of :: "Task \<Rightarrow> TaskSummary" where
  "summary_of t = \<lparr>smId = tID t, smName = tName t, smStatus = tStatus t, smProgress = tProgress t\<rparr>"

text \<open>
  One turn of the streaming loop, from \<^verbatim>\<open>RLock\<close> to \<^verbatim>\<open>RUnlock\<close>: the message it is about to send, or the error
  it returns. The first check before the loop is the same look-up with another message.
\<close>

definition monitor_turn ::
  "env \<Rightarrow> string \<Rightarrow> sched \<Rightarrow> (grpc_error + WorkerStatusResponse, sched) res" where
  "monitor_turn E workerID =
     with_rlock E (\<lambda>s. case map_of (workers s) workerID of
         None \<Rightarrow> Done (Inl (NotFound, ''Worker no longer exists: '' @ workerID)) s
       | Some worker \<Rightarrow>
           Done (Inr \<lparr>wsWorkerId = workerID, wsStatus = wStatus worker,
                      wsGpus = map pb_of_gpu (wGPUs worker),
                      wsActiveTasks = map (\<lambda>(_, a). summary_of (heap s a))
                        (permute (fst (orders E (envTick s))) (wTasks worker)),
                      wsTimestamp = word_of_int (clock E (envTick s) div 1000000000),
                      wsCommand = None\<rparr>) (tick s))"

text \<open>
  The stream over the states the scheduler is in at the successive turns, with the outcome of each
  \<^verbatim>\<open>stream.Send\<close> (\<open>True\<close> for no error): the messages sent, and the error that ends the call, if any.
\<close>

fun monitor_stream ::
  "env \<Rightarrow> string \<Rightarrow> (sched \<times> bool) list \<Rightarrow> WorkerStatusResponse list \<times> grpc_error option" where
  "monitor_stream E workerID [] = ([], None)"
| "monitor_stream E workerID ((s, sent) # turns) =
     (case monitor_turn E workerID s of
        Done (Inr resp) _ \<Rightarrow>
          if sent then (let (rs, e) = monitor_stream E workerID turns in (resp # rs, e))
          else ([], None)
      | Done (Inl e) _ \<Rightarrow> ([], Some e)
      | _ \<Rightarrow> ([], None))"

definition MonitorWorker ::
  "env \<Rightarrow> string \<Rightarrow> sched \<Rightarrow> (sched \<times> bool) list \<Rightarrow> WorkerStatusResponse list \<times> grpc_error option" where
  "MonitorWorker E workerID s turns =
     (case with_rlock E (\<lambda>s. Done (map_of (workers s) workerID \<noteq> None) s) s of
        Done True _ \<Rightarrow> monitor_stream E workerID turns
      | Done False _ \<Rightarrow> ([], Some (NotFound, ''Worker not found: '' @ workerID))
      | _ \<Rightarrow> ([], None))"

definition ListWorkers :: "env \<Rightarrow> sched \<Rightarrow> (WorkerInfo list, sched) res" where
  "ListWorkers E =
     with_rlock E (\<lambda>s. Done
       (map (\<lambda>(wid, worker). \<lparr>wiWorkerId = wid, wiStatus = wStatus worker,
                               wiAddress = wAddress worker,
                               wiGpuCount = word_of_nat (length (wGPUs worker))\<rparr>)
            (permute (fst (orders E (envTick s))) (workers s)))
       (tick s))"

end
