(* ===== verification/SchedInv.thy ===== *)
theory SchedInv
  imports Scheduler
begin

text \<open>
  Well-formedness of the scheduler's state, and that every handler keeps it, whatever the mutex does
  and whatever the outcome: what a blocked handler leaves behind is well formed too.
\<close>

section \<open>How the small steps change the fields\<close>

named_theorems sched_frame \<open>fields of the state after the small steps\<close>

lemma map_of_modify_worker [sched_frame]:
  "map_of (workers (modify_worker w f s))
     = (map_of (workers s))(w := map_option f (map_of (workers s) w))"
  by (auto simp: modify_worker_def split: option.splits)

lemma modify_worker_frame [sched_frame]:
  "mu (modify_worker w f s) = mu s"
  "tasks (modify_worker w f s) = tasks s"
  "hasMetrics (modify_worker w f s) = hasMetrics s"
  "persistenceManager (modify_worker w f s) = persistenceManager s"
  "heap (modify_worker w f s) = heap s"
  "heapNext (modify_worker w f s) = heapNext s"
  "metricCalls (modify_worker w f s) = metricCalls s"
  "envTick (modify_worker w f s) = envTick s"
  by (auto simp: modify_worker_def split: option.splits)

lemma map_ok_modify_worker [sched_frame]:
  "map_ok (workers s) \<Longrightarrow> map_ok (workers (modify_worker w f s))"
  by (auto simp: modify_worker_def split: option.splits)

lemma modify_task_frame [sched_frame]:
  "mu (modify_task a f s) = mu s"
  "workers (modify_task a f s) = workers s"
  "tasks (modify_task a f s) = tasks s"
  "hasMetrics (modify_task a f s) = hasMetrics s"
  "persistenceManager (modify_task a f s) = persistenceManager s"
  "heap (modify_task a f s) = (heap s)(a := f (heap s a))"
  "heapNext (modify_task a f s) = heapNext s"
  "metricCalls (modify_task a f s) = metricCalls s"
  "envTick (modify_task a f s) = envTick s"
  by (simp_all add: modify_task_def)

lemma tick_frame [sched_frame]:
  "mu (tick s) = mu s"
  "workers (tick s) = workers s"
  "tasks (tick s) = tasks s"
  "hasMetrics (tick s) = hasMetrics s"
  "persistenceManager (tick s) = persistenceManager s"
  "heap (tick s) = heap s"
  "heapNext (tick s) = heapNext s"
  "metricCalls (tick s) = metricCalls s"
  "envTick (tick s) = Suc (envTick s)"
  by (simp_all add: tick_def)

lemma remove_pending_frame [sched_frame]:
  "mu (remove_pending i s) = mu s"
  "workers (remove_pending i s) = workers s"
  "tasks (remove_pending i s) = tasks s"
  "hasMetrics (remove_pending i s) = hasMetrics s"
  "persistenceManager (remove_pending i s) = persistenceManager s"
  "heap (remove_pending i s) = heap s"
  "heapNext (remove_pending i s) = heapNext s"
  "metricCalls (remove_pending i s) = metricCalls s"
  "envTick (remove_pending i s) = envTick s"
  by (simp_all add: remove_pending_def)

lemma record_call_frame [sched_frame]:
  "mu (record_call c s) = mu s"
  "workers (record_call c s) = workers s"
  "tasks (record_call c s) = tasks s"
  "pendingTasks (record_call c s) = pendingTasks s"
  "hasMetrics (record_call c s) = hasMetrics s"
  "persistenceManager (record_call c s) = persistenceManager s"
  "heap (record_call c s) = heap s"
  "heapNext (record_call c s) = heapNext s"
  "metricCalls (record_call c s) = metricCalls s @ [c]"
  "envTick (record_call c s) = envTick s"
  by (simp_all add: record_call_def)

lemma request_save_frame [sched_frame]:
  "mu (request_save s) = mu s"
  "workers (request_save s) = workers s"
  "tasks (request_save s) = tasks s"
  "pendingTasks (request_save s) = pendingTasks s"
  "hasMetrics (request_save s) = hasMetrics s"
  "heap (request_save s) = heap s"
  "heapNext (request_save s) = heapNext s"
  "metricCalls (request_save s) = metricCalls s"
  "envTick (request_save s) = envTick s"
  by (simp_all add: request_save_def split: option.splits)

text \<open>A task keeps its id and its requirements when it is started.\<close>

lemma start_task_frame [sched_frame]:
  "mu (start_task E a w gs s) = mu s"
  "workers (start_task E a w gs s) = workers s"
  "tasks (start_task E a w gs s) = tasks s"
  "hasMetrics (start_task E a w gs s) = hasMetrics s"
  "persistenceManager (start_task E a w gs s) = persistenceManager s"
  "heapNext (start_task E a w gs s) = heapNext s"
  "metricCalls (start_task E a w gs s) = metricCalls s"
  "envTick (start_task E a w gs s) = envTick s"
  "tID (heap (start_task E a w gs s) b) = tID (heap s b)"
  "tName (heap (start_task E a w gs s) b) = tName (heap s b)"
  "tRequiredGPUs (heap (start_task E a w gs s) b) = tRequiredGPUs (heap s b)"
  "tMinGPUMemory (heap (start_task E a w gs s) b) = tMinGPUMemory (heap s b)"
  by (simp_all add: start_task_def modify_task_frame)

lemma heap_start_task [sched_frame]:
  "heap (start_task E a w gs s) b =
     (if b = a then (heap s a)\<lparr>tStatus := TaskStatus_RUNNING, tWorkerID := w,
                              tAssignedGPUs := gs, tStartTime := clock E (envTick s)\<rparr>
      else heap s b)"
  by (simp add: start_task_def modify_task_frame)

lemma occupy_simps [simp]:
  "wID (occupy k a gs wk) = wID wk"
  "wAddress (occupy k a gs wk) = wAddress wk"
  "wStatus (occupy k a gs wk) = WorkerStatus_BUSY"
  "wTasks (occupy k a gs wk) = mput k a (wTasks wk)"
  "wGPUs (occupy k a gs wk) = set_available False gs (wGPUs wk)"
  by (simp_all add: occupy_def)

section \<open>Well-formed states\<close>

definition worker_ok :: "sched \<Rightarrow> string \<Rightarrow> Worker \<Rightarrow> bool" where
  "worker_ok s w wk \<longleftrightarrow>
     wID wk = w \<and> w \<noteq> '''' \<and> length (wGPUs wk) < 2 ^ 32 \<and> map_ok (wTasks wk)
     \<and> (\<forall>k a. map_of (wTasks wk) k = Some a \<longrightarrow> a < heapNext s \<and> tID (heap s a) = k)"

definition sched_wf :: "sched \<Rightarrow> bool" where
  "sched_wf s \<longleftrightarrow>
     map_ok (workers s) \<and> map_ok (tasks s)
     \<and> (\<forall>w wk. map_of (workers s) w = Some wk \<longrightarrow> worker_ok s w wk)
     \<and> (\<forall>k a. map_of (tasks s) k = Some a \<longrightarrow> a < heapNext s \<and> tID (heap s a) = k)
     \<and> (\<forall>a \<in> set (pendingTasks s). a < heapNext s \<and> map_of (tasks s) (tID (heap s a)) \<noteq> None)"

lemma wf_NewScheduler: "sched_wf NewScheduler"
  by (simp add: sched_wf_def NewScheduler_def)

lemma wf_map_ok: "sched_wf s \<Longrightarrow> map_ok (workers s)"
  by (simp add: sched_wf_def)

lemma wf_worker: "sched_wf s \<Longrightarrow> map_of (workers s) w = Some wk \<Longrightarrow> worker_ok s w wk"
  by (simp add: sched_wf_def)

text \<open>Well-formedness reads five fields, and of the heap only the tasks' ids.\<close>

lemma wf_cong:
  assumes "sched_wf s" and "workers t = workers s" and "tasks t = tasks s"
    and "set (pendingTasks t) \<subseteq> set (pendingTasks s)" and "heapNext t = heapNext s"
    and "\<And>a. tID (heap t a) = tID (heap s a)"
  shows "sched_wf t"
proof -
  have ok: "worker_ok t w wk = worker_ok s w wk" for w wk
    using assms(5,6) by (simp add: worker_ok_def)
  have ids: "tID (heap t a) = tID (heap s a)" for a by (rule assms(6))
  have "a < heapNext s \<and> map_of (tasks s) (tID (heap s a)) \<noteq> None"
    if "a \<in> set (pendingTasks t)" for a
    using assms(1) subsetD [OF assms(4) that] by (simp add: sched_wf_def)
  with assms(1) show ?thesis unfolding sched_wf_def assms(2,3,5) ids ok by blast
qed

lemma wf_modify_worker:
  assumes "sched_wf s" and "\<And>wk. worker_ok s w wk \<Longrightarrow> worker_ok s w (f wk)"
  shows "sched_wf (modify_worker w f s)"
proof -
  have ok: "worker_ok (modify_worker w f s) v wk = worker_ok s v wk" for v wk
    by (simp add: worker_ok_def sched_frame)
  have "worker_ok s v wk" if "map_of (workers (modify_worker w f s)) v = Some wk" for v wk
  proof (cases "v = w")
    case True
    with that obtain wk0 where "map_of (workers s) w = Some wk0" "wk = f wk0"
      by (auto simp: sched_frame)
    with True show ?thesis using assms(2) wf_worker [OF assms(1)] by simp
  next
    case False
    with that show ?thesis using wf_worker [OF assms(1)] by (simp add: sched_frame)
  qed
  with assms(1) show ?thesis
    unfolding sched_wf_def by (simp only: ok sched_frame pendingTasks_simps simp_thms) blast
qed

lemma wf_tick: "sched_wf s \<Longrightarrow> sched_wf (tick s)"
  by (erule wf_cong) (simp_all add: sched_frame)

lemma wf_record_call: "sched_wf s \<Longrightarrow> sched_wf (record_call c s)"
  by (erule wf_cong) (simp_all add: sched_frame)

lemma wf_request_save: "sched_wf s \<Longrightarrow> sched_wf (request_save s)"
  by (erule wf_cong) (simp_all add: sched_frame)

lemma wf_start_task: "sched_wf s \<Longrightarrow> sched_wf (start_task E a w gs s)"
  by (erule wf_cong) (simp_all add: sched_frame)

lemma wf_remove_pending: "sched_wf s \<Longrightarrow> sched_wf (remove_pending i s)"
  by (erule wf_cong) (auto simp: sched_frame dest: in_set_takeD in_set_dropD)

lemma wf_mu: "sched_wf (s\<lparr>mu := m\<rparr>) = sched_wf s"
  by (simp add: sched_wf_def worker_ok_def)

lemma worker_ok_occupy:
  "worker_ok s w wk \<Longrightarrow> a < heapNext s \<Longrightarrow> worker_ok s w (occupy (tID (heap s a)) a gs wk)"
  by (auto simp: worker_ok_def split: if_splits)

lemma wf_place_on: "sched_wf s \<Longrightarrow> a < heapNext s \<Longrightarrow> sched_wf (place_on i a w gs s)"
  unfolding place_on_def by (intro wf_remove_pending wf_modify_worker worker_ok_occupy)

lemma heapNext_place_on [sched_frame]: "heapNext (place_on i a w gs s) = heapNext s"
  by (simp add: place_on_def sched_frame)

lemma wf_pending_bound: "sched_wf s \<Longrightarrow> i < length (pendingTasks s) \<Longrightarrow> pendingTasks s ! i < heapNext s"
  by (simp add: sched_wf_def)

section \<open>Critical sections and the small handlers keep it\<close>

lemma final_state_locked:
  assumes mu: "\<And>s m. P (s\<lparr>mu := m\<rparr>) = P s" and s: "P s"
    and body: "\<And>m. P (final_state (body (s\<lparr>mu := m\<rparr>)))"
  shows "P (final_state (locked acquire release body s))"
proof (cases "acquire (mu s)")
  case None
  then show ?thesis using s by (simp add: locked_def)
next
  case (Some m)
  show ?thesis
  proof (cases "body (s\<lparr>mu := m\<rparr>)")
    case (Done r t)
    then have "P t" using body [of m] by simp
    then have "P (t\<lparr>mu := m'\<rparr>)" for m' by (simp only: mu)
    with \<open>P t\<close> Some Done show ?thesis by (simp add: locked_def split: option.split)
  qed (use body [of m] Some in \<open>simp_all add: locked_def\<close>)
qed

lemma keeps_locked:
  assumes "\<And>s m. P (s\<lparr>mu := m\<rparr>) = P s" and "keeps P body"
  shows "keeps P (locked acquire release body)"
proof (rule keepsI)
  fix s assume s: "P s"
  then have "P (s\<lparr>mu := m\<rparr>)" for m by (simp only: assms(1))
  then show "P (final_state (locked acquire release body s))"
    by (intro final_state_locked [OF assms(1) s] keepsD [OF assms(2)])
qed

lemma keeps_with_rlock: "(\<And>s m. P (s\<lparr>mu := m\<rparr>) = P s) \<Longrightarrow> keeps P body \<Longrightarrow> keeps P (with_rlock E body)"
  unfolding with_rlock_def by (rule keeps_locked)

lemma keeps_with_lock: "(\<And>s m. P (s\<lparr>mu := m\<rparr>) = P s) \<Longrightarrow> keeps P body \<Longrightarrow> keeps P (with_lock E body)"
  unfolding with_lock_def by (rule keeps_locked)

text \<open>
  The metrics and the save request touch nothing a state property of the scheduling reads: any
  property insensitive to the mutex, the calls, the counter and the manager is kept by them.
\<close>

definition insensitive :: "(sched \<Rightarrow> bool) \<Rightarrow> bool" where
  "insensitive P \<longleftrightarrow>
     (\<forall>s m. P (s\<lparr>mu := m\<rparr>) = P s) \<and> (\<forall>s c. P s \<longrightarrow> P (record_call c s))
     \<and> (\<forall>s. P s \<longrightarrow> P (tick s)) \<and> (\<forall>s. P s \<longrightarrow> P (request_save s))"

lemma insensitive_wf: "insensitive sched_wf"
  by (simp add: insensitive_def wf_mu wf_record_call wf_tick wf_request_save)

lemma insensitiveD:
  assumes "insensitive P"
  shows "P (s\<lparr>mu := m\<rparr>) = P s" and "P s \<Longrightarrow> P (record_call c s)" and "P s \<Longrightarrow> P (tick s)"
    and "P s \<Longrightarrow> P (request_save s)"
  using assms by (simp_all add: insensitive_def)

lemma keeps_updateMetrics: "insensitive P \<Longrightarrow> keeps P (updateMetrics E)"
  unfolding updateMetrics_def
  by (intro keeps_intros keeps_with_rlock keeps_act) (simp_all add: insensitiveD)

lemma keeps_recordTaskSubmission: "insensitive P \<Longrightarrow> keeps P (recordTaskSubmission E)"
  unfolding recordTaskSubmission_def
  by (intro keeps_intros keeps_act keeps_updateMetrics) (simp_all add: insensitiveD)

lemma keeps_recordWorkerRegistration: "insensitive P \<Longrightarrow> keeps P (recordWorkerRegistration E)"
  unfolding recordWorkerRegistration_def by (intro keeps_intros keeps_updateMetrics)

lemma keeps_recordWorkerStatusChange: "insensitive P \<Longrightarrow> keeps P (recordWorkerStatusChange E)"
  unfolding recordWorkerStatusChange_def by (intro keeps_intros keeps_updateMetrics)

lemma keeps_recordTaskCompletion:
  assumes "insensitive P" shows "keeps P (recordTaskCompletion E a)"
proof (rule keepsI)
  fix s assume s: "P s"
  have "keeps P (block [act (\<lambda>s. tick (record_call (ObserveTaskDuration n (d s)) s)),
      act (\<lambda>s. if b1 then record_call c1 s else if b2 then record_call c2 s else s),
      updateMetrics E])" for n d b1 c1 b2 c2
    using assms by (intro keeps_intros keeps_act keeps_updateMetrics) (simp_all add: insensitiveD)
  from keepsD [OF this s] show "P (final_state (recordTaskCompletion E a s))"
    using s unfolding recordTaskCompletion_def Let_def by simp
qed

lemma keeps_UpdatePersistentState: "insensitive P \<Longrightarrow> keeps P (UpdatePersistentState E)"
  unfolding UpdatePersistentState_def
  by (intro keeps_with_rlock keeps_act) (simp_all add: insensitiveD)

lemmas keeps_small = keeps_updateMetrics keeps_recordTaskSubmission keeps_recordWorkerRegistration
  keeps_recordWorkerStatusChange keeps_recordTaskCompletion keeps_UpdatePersistentState


section \<open>The queue loop\<close>

text \<open>
  The rule for the loop under a policy that meets its contract: it ends without a panic, and any
  property of index and state that is kept when a task is skipped and when a task is placed holds at
  the end, with the index past the queue.
\<close>

context workload_policy
begin

lemma assign_loop_rule:
  assumes inv: "P i s"
    and ok: "\<And>i s. P i s \<Longrightarrow> map_ok (workers s)"
    and skip: "\<And>i s. P i s \<Longrightarrow> i < length (pendingTasks s) \<Longrightarrow>
        \<forall>(w, wk) \<in> set (workers s). \<not> suits (heap s (pendingTasks s ! i)) wk \<Longrightarrow> P (Suc i) (tick s)"
    and place: "\<And>i s a w wk gs. P i s \<Longrightarrow> i < length (pendingTasks s) \<Longrightarrow> a = pendingTasks s ! i \<Longrightarrow>
        map_of (workers s) w = Some wk \<Longrightarrow> suits (heap s a) wk \<Longrightarrow>
        gs = take (unat (tRequiredGPUs (heap s a))) (collect_gpus (heap s a) (wGPUs wk)) \<Longrightarrow>
        P i (place_on i a w gs (tick (start_task E a w gs s)))"
  shows "\<exists>f j t. assign_loop E assign i f0 s = Done f t \<and> length (pendingTasks t) \<le> j \<and> P j t"
  using inv
proof (induction "length (pendingTasks s) - i" arbitrary: i f0 s rule: less_induct)
  case less
  show ?case
  proof (cases "i < length (pendingTasks s)")
    case False
    then have "assign_loop E assign i f0 s = Done f0 s \<and> length (pendingTasks s) \<le> i \<and> P i s"
      using less.prems by (simp add: assign_loop.simps [of E assign i f0 s])
    then show ?thesis by blast
  next
    case True
    define a where "a = pendingTasks s ! i"
    show ?thesis
    proof (cases "assign (orders E (envTick s)) (workers s) (heap s a)")
      case (Inl e)
      then have "P (Suc i) (tick s)"
        using less.prems True assign_fails_iff [of "orders E (envTick s)" "workers s" "heap s a"]
        by (intro skip) (auto simp: a_def)
      moreover have "length (pendingTasks (tick s)) - Suc i < length (pendingTasks s) - i"
        using True by simp
      ultimately have "\<exists>f j t. assign_loop E assign (Suc i) f0 (tick s) = Done f t
          \<and> length (pendingTasks t) \<le> j \<and> P j t"
        by (intro less.hyps) simp_all
      then show ?thesis using True Inl by (simp add: assign_loop.simps [of E assign i f0 s] a_def)
    next
      case (Inr r)
      obtain w gs where r: "r = (w, gs)" by force
      obtain wk where wk: "(w, wk) \<in> set (workers s)" "suits (heap s a) wk"
          "gs = take (unat (tRequiredGPUs (heap s a))) (collect_gpus (heap s a) (wGPUs wk))"
        using assign_Inr Inr r by blast
      have m: "map_of (workers s) w = Some wk"
        using wk(1) ok [OF less.prems] by (simp add: map_ok_in_iff)
      let ?t = "place_on i a w gs (tick (start_task E a w gs s))"
      have "P i ?t" using less.prems True a_def m wk(2,3) by (rule place)
      moreover have "length (pendingTasks ?t) - i < length (pendingTasks s) - i"
        using True by (simp add: place_on_def)
      ultimately have "\<exists>f j t. assign_loop E assign i True ?t = Done f t
          \<and> length (pendingTasks t) \<le> j \<and> P j t"
        by (intro less.hyps) simp_all
      then show ?thesis using True Inr r m
        by (simp add: assign_loop.simps [of E assign i f0 s] a_def sched_frame Let_def)
    qed
  qed
qed

lemma assign_loop_keeps:
  assumes "P s"
    and "\<And>s. P s \<Longrightarrow> map_ok (workers s)"
    and "\<And>s. P s \<Longrightarrow> P (tick s)"
    and "\<And>i s a w wk gs. P s \<Longrightarrow> i < length (pendingTasks s) \<Longrightarrow> a = pendingTasks s ! i \<Longrightarrow>
        map_of (workers s) w = Some wk \<Longrightarrow> suits (heap s a) wk \<Longrightarrow>
        gs = take (unat (tRequiredGPUs (heap s a))) (collect_gpus (heap s a) (wGPUs wk)) \<Longrightarrow>
        P (place_on i a w gs (tick (start_task E a w gs s)))"
  shows "\<exists>f t. assign_loop E assign i f0 s = Done f t \<and> P t"
  using assign_loop_rule [of "\<lambda>_. P" i s E f0] assms by blast

lemma assign_loop_wf: "sched_wf s \<Longrightarrow> \<exists>f t. assign_loop E assign i f0 s = Done f t \<and> sched_wf t"
proof (rule assign_loop_keeps)
  fix i s a w wk gs
  assume "sched_wf s" "i < length (pendingTasks s)" "a = pendingTasks s ! i"
  then show "sched_wf (place_on i a w gs (tick (start_task E a w gs s)))"
    by (intro wf_place_on wf_tick wf_start_task) (simp_all add: sched_frame wf_pending_bound)
qed (auto simp: wf_map_ok wf_tick)

lemma keeps_assignPendingTasks:
  assumes P: "insensitive P" "\<And>s. P s \<Longrightarrow> map_ok (workers s)"
    and place: "\<And>i s a w wk gs. P s \<Longrightarrow> i < length (pendingTasks s) \<Longrightarrow> a = pendingTasks s ! i \<Longrightarrow>
        map_of (workers s) w = Some wk \<Longrightarrow> suits (heap s a) wk \<Longrightarrow>
        gs = take (unat (tRequiredGPUs (heap s a))) (collect_gpus (heap s a) (wGPUs wk)) \<Longrightarrow>
        P (place_on i a w gs (tick (start_task E a w gs s)))"
  shows "keeps P (assignPendingTasks E assign)"
proof (rule keepsI)
  fix s assume "P s"
  then obtain f t where t: "assign_loop E assign 0 False s = Done f t" "P t"
    using assign_loop_keeps [of P s E 0 False] P insensitiveD(3) [OF P(1)] place by blast
  then show "P (final_state (assignPendingTasks E assign s))"
    using keepsD [OF keeps_UpdatePersistentState [OF P(1)] t(2)]
    by (simp add: assignPendingTasks_def)
qed

lemma keeps_wf_assignPendingTasks: "keeps sched_wf (assignPendingTasks E assign)"
  by (rule keeps_assignPendingTasks)
     (auto intro!: insensitive_wf wf_map_ok wf_place_on wf_tick wf_start_task
           simp: sched_frame wf_pending_bound)

end

section \<open>Every handler keeps well-formedness\<close>

lemma assigned_id_nonempty: "assigned_id req s \<noteq> ''''"
  by (simp add: assigned_id_def)

lemma wf_add_worker:
  assumes "sched_wf s" and "w \<noteq> ''''" and "length (rwGpus req) < 2 ^ 32"
  shows "sched_wf (s\<lparr>workers := mput w (new_worker w req) (workers s)\<rparr>)"
proof -
  have "worker_ok s w (new_worker w req)" using assms by (simp add: worker_ok_def new_worker_def)
  moreover have "worker_ok (s\<lparr>workers := ws\<rparr>) v wk = worker_ok s v wk" for ws v wk
    by (simp add: worker_ok_def)
  ultimately show ?thesis using assms(1) unfolding sched_wf_def by simp
qed

lemma worker_ok_fields:
  "worker_ok s w wk \<Longrightarrow> worker_ok s w (wk\<lparr>wStatus := st\<rparr>)"
  "worker_ok s w wk \<Longrightarrow> worker_ok s w (wk\<lparr>wGPUs := set_available b gs (wGPUs wk)\<rparr>)"
  "worker_ok s w wk \<Longrightarrow> worker_ok s w (wk\<lparr>wTasks := mdel k (wTasks wk)\<rparr>)"
  "worker_ok s w wk \<Longrightarrow> a < heapNext s \<Longrightarrow>
     worker_ok s w (wk\<lparr>wTasks := mput (tID (heap s a)) a (wTasks wk)\<rparr>)"
  by (auto simp: worker_ok_def split: if_splits)

lemma wf_set_task:
  "sched_wf s \<Longrightarrow> (\<And>t. tID (f t) = tID t) \<Longrightarrow> sched_wf (modify_task a f s)"
  by (erule wf_cong) (simp_all add: sched_frame)

lemma keeps_wf_admit_worker:
  assumes "w \<noteq> ''''" and "length (rwGpus req) < 2 ^ 32"
  shows "keeps sched_wf (admit_worker E (AssignTask p) w req)"
  unfolding admit_worker_def
  by (intro keeps_intros keeps_act keeps_small insensitive_wf pol.keeps_wf_assignPendingTasks
      wf_add_worker assms)

lemma keeps_wf_RegisterWorker:
  assumes "length (rwGpus req) < 2 ^ 32"
  shows "keeps sched_wf (RegisterWorker E (AssignTask p) req)"
  unfolding RegisterWorker_def
proof (rule keeps_with_lock [OF wf_mu], rule keepsI)
  fix s assume s: "sched_wf s"
  note adm = keepsD [OF keeps_wf_admit_worker [OF assigned_id_nonempty [of req s] assms] s]
  show "sched_wf (final_state (let w = assigned_id req s in
      if map_of (workers s) w \<noteq> None then Done (r1 w) s
      else returning (r2 w) (admit_worker E (AssignTask p) w req s)))" for r1 r2
    using s adm by (simp add: Let_def)
qed

text \<open>In the body of a hand-out the task's address stays valid, so the invariant carries it along.\<close>

definition wf_at :: "task_addr \<Rightarrow> sched \<Rightarrow> bool" where
  "wf_at a s \<longleftrightarrow> sched_wf s \<and> a < heapNext s"

lemma insensitive_wf_at: "insensitive (wf_at a)"
  by (auto simp: insensitive_def wf_at_def wf_mu wf_record_call wf_tick wf_request_save sched_frame)

lemma keeps_wf_hand_out: "keeps (wf_at a) (hand_out E r i a w gs)"
  unfolding hand_out_def
  by (intro keeps_intros keeps_small insensitive_wf_at keeps_act)
     (auto simp: wf_at_def sched_frame intro!: wf_tick wf_start_task wf_modify_worker wf_remove_pending
        worker_ok_fields)

lemma wf_request_loop:
  "sched_wf s \<Longrightarrow> sched_wf (final_state (request_loop E A r i s))"
proof (induction E A r i s rule: request_loop.induct)
  case (1 E A r i s)
  show ?case
  proof (cases "i < length (pendingTasks s)")
    case True
    have "wf_at (pendingTasks s ! i) s"
      using 1 True by (simp add: wf_at_def wf_pending_bound)
    note out = keepsD [OF keeps_wf_hand_out this]
    show ?thesis
      using 1 True out by (auto simp: request_loop.simps [of E A r i s] wf_tick wf_at_def Let_def
          split: sum.splits)
  qed (use 1 in \<open>simp add: request_loop.simps [of E A r i s]\<close>)
qed

lemma keeps_wf_RequestTask: "keeps sched_wf (RequestTask E A req)"
  unfolding RequestTask_def Let_def
  by (intro keeps_with_lock [OF wf_mu] keeps_intros) (rule keepsI, rule wf_request_loop)

lemma keeps_wf_idle_if_no_tasks: "keeps sched_wf (idle_if_no_tasks E w)"
proof (rule keepsI)
  fix s assume s: "sched_wf s"
  have "keeps sched_wf (block [act (modify_worker w (\<lambda>wk. wk\<lparr>wStatus := WorkerStatus_IDLE\<rparr>)),
                  recordWorkerStatusChange E])"
    by (intro keeps_intros keeps_act keeps_small insensitive_wf wf_modify_worker worker_ok_fields)
  from keepsD [OF this s] s show "sched_wf (final_state (idle_if_no_tasks E w s))"
    unfolding idle_if_no_tasks_def by (simp split: option.split del: block.simps)
qed

lemma keeps_wf_finish_task: "keeps sched_wf (finish_task E (AssignTask p) k w a)"
  unfolding finish_task_def
  by (intro keeps_intros keeps_act keeps_small insensitive_wf wf_modify_worker worker_ok_fields
      keeps_wf_idle_if_no_tasks pol.keeps_wf_assignPendingTasks)

lemma keeps_wf_apply_update: "keeps sched_wf (apply_update E (AssignTask p) u a)"
  unfolding apply_update_def
  by (intro keeps_intros keeps_act keeps_small insensitive_wf keeps_wf_finish_task wf_set_task) simp_all

lemma keeps_wf_ReportTaskStatus: "keeps sched_wf (ReportTaskStatus E (AssignTask p) u)"
  unfolding ReportTaskStatus_def Let_def
proof (rule keeps_with_lock [OF wf_mu], rule keepsI)
  fix s assume s: "sched_wf s"
  show "sched_wf (final_state (case map_of (tasks s) (tuTaskId u) of
         None \<Rightarrow> Done (Inl e1) s
       | Some a \<Rightarrow> if map_of (workers s) (tuWorkerId u) = None then Done (Inl e2) s
           else returning r (apply_update E (AssignTask p) u a s)))" for e1 e2 r
    using s keepsD [OF keeps_wf_apply_update s] by (simp split: option.split)
qed

lemma wf_enqueue:
  assumes "sched_wf s" and "a < heapNext s"
  shows "sched_wf (s\<lparr>tasks := mput (tID (heap s a)) a (tasks s)\<rparr>)"
    and "map_of (tasks s) (tID (heap s a)) \<noteq> None \<Longrightarrow> sched_wf (s\<lparr>pendingTasks := pendingTasks s @ [a]\<rparr>)"
proof -
  have ok: "worker_ok (s\<lparr>tasks := m\<rparr>) v wk = worker_ok s v wk"
    "worker_ok (s\<lparr>pendingTasks := q\<rparr>) v wk = worker_ok s v wk" for m q v wk
    by (simp_all add: worker_ok_def)
  show "sched_wf (s\<lparr>tasks := mput (tID (heap s a)) a (tasks s)\<rparr>)"
    using assms unfolding sched_wf_def by (simp add: ok)
  show "sched_wf (s\<lparr>pendingTasks := pendingTasks s @ [a]\<rparr>)" if "map_of (tasks s) (tID (heap s a)) \<noteq> None"
    using assms that unfolding sched_wf_def by (simp add: ok)
qed

lemma wf_AddTask:
  assumes "sched_wf s" and "a < heapNext s"
  shows "sched_wf (final_state (AddTask E (AssignTask p) a s))"
  unfolding AddTask_def with_lock_def
proof (rule final_state_locked [where P = sched_wf])
  let ?rest = "[recordTaskSubmission E, UpdatePersistentState E, assignPendingTasks E (AssignTask p)]"
  have rest: "keeps sched_wf (block ?rest)"
    by (intro keeps_intros keeps_small insensitive_wf pol.keeps_wf_assignPendingTasks)
  fix m
  let ?t = "s\<lparr>mu := m, tasks := mput (tID (heap s a)) a (tasks s)\<rparr>"
  have "sched_wf (s\<lparr>mu := m\<rparr>)" using assms(1) by (simp add: wf_mu)
  from wf_enqueue(1) [OF this] have "sched_wf ?t" using assms(2) by simp
  from wf_enqueue(2) [OF this, of a] have "sched_wf (?t\<lparr>pendingTasks := pendingTasks s @ [a]\<rparr>)"
    using assms(2) by simp
  from keepsD [OF rest this]
  show "sched_wf (final_state (block (act (\<lambda>s. s\<lparr>tasks := mput (tID (heap s a)) a (tasks s)\<rparr>)
          # act (\<lambda>s. s\<lparr>pendingTasks := pendingTasks s @ [a]\<rparr>) # ?rest) (s\<lparr>mu := m\<rparr>)))"
    by (simp only: block_act) (simp del: block.simps)
qed (simp_all add: wf_mu assms)

end
