(* ===== verification/SchedLock.thy ===== *)
theory SchedLock
  imports SchedInv
begin

text \<open>
  What the handlers do with the mutex. Every handler that changes state calls
  \<^verbatim>\<open>UpdatePersistentState\<close> (and, once a metrics object is set, \<^verbatim>\<open>updateMetrics\<close>) while it holds the
  write lock, and both take the read lock of the same mutex. With a mutex that lets its holder read-lock
  again every handler runs to its end; with Go's \<^verbatim>\<open>sync.RWMutex\<close> the goroutine waits for itself and the
  server is blocked from then on.
\<close>

section \<open>The nested critical sections\<close>

lemma request_save_mu: "request_save (s\<lparr>mu := m\<rparr>) = (request_save s)\<lparr>mu := m\<rparr>"
  by (simp add: request_save_def split: option.split)

lemma mu_idem: "mu s = m \<Longrightarrow> (s :: sched)\<lparr>mu := m\<rparr> = s"
  by (cases s) simp

text \<open>The calls that one refresh of the gauges makes.\<close>

definition gauge_calls :: "sched \<Rightarrow> metric_call list" where
  "gauge_calls s = [SetActiveTasks (active_count s), SetPendingTasks (length (pendingTasks s)),
                    SetActiveWorkers (length (workers s))]"

definition refresh_metrics :: "sched \<Rightarrow> sched" where
  "refresh_metrics s =
     (if hasMetrics s then s\<lparr>metricCalls := metricCalls s @ gauge_calls s\<rparr> else s)"

lemma gauges_block:
  "block [act (\<lambda>s. record_call (SetActiveTasks (active_count s)) s),
          act (\<lambda>s. record_call (SetPendingTasks (length (pendingTasks s))) s),
          act (\<lambda>s. record_call (SetActiveWorkers (length (workers s))) s)] (s\<lparr>mu := m\<rparr>)
     = Done () (s\<lparr>mu := m, metricCalls := metricCalls s @ gauge_calls s\<rparr>)"
  by (simp add: act_def record_call_def gauge_calls_def active_count_def)

context nested_read_lock
begin

lemma UpdatePersistentState_nested:
  assumes "mutex E = ops" and "mu s = write_locked"
  shows "UpdatePersistentState E s = Done () (request_save s)"
proof -
  have "(request_save s)\<lparr>mu := write_locked\<rparr> = request_save s"
    by (rule mu_idem) (simp add: sched_frame assms)
  then show ?thesis
    by (simp add: UpdatePersistentState_def with_rlock_def locked_def act_def assms
        rlock_held runlock_held [simplified] request_save_mu sched_frame)
qed

lemma updateMetrics_nested:
  assumes "mutex E = ops" and "mu s = write_locked"
  shows "updateMetrics E s = Done () (refresh_metrics s)"
proof (cases "hasMetrics s")
  case True
  have "(s\<lparr>metricCalls := c\<rparr>)\<lparr>mu := write_locked\<rparr> = s\<lparr>metricCalls := c\<rparr>" for c
    by (rule mu_idem) (simp add: assms)
  with True show ?thesis
    by (simp add: updateMetrics_def with_rlock_def locked_def assms rlock_held
        runlock_held [simplified] refresh_metrics_def gauges_block del: block.simps)
qed (simp add: updateMetrics_def refresh_metrics_def)

end

context no_nested_read_lock
begin

lemma UpdatePersistentState_blocks:
  "mutex E = ops \<Longrightarrow> mu s = write_locked \<Longrightarrow> UpdatePersistentState E s = Stuck s"
  by (simp add: UpdatePersistentState_def with_rlock_def locked_def rlock_blocks)

lemma updateMetrics_blocks:
  "mutex E = ops \<Longrightarrow> mu s = write_locked \<Longrightarrow> hasMetrics s \<Longrightarrow> updateMetrics E s = Stuck s"
  by (simp add: updateMetrics_def with_rlock_def locked_def rlock_blocks)

end

context rw_lock
begin

lemma with_lock_free:
  assumes "mutex E = ops" and "mu s = unlocked"
  shows "with_lock E body s =
     bind_res (body (s\<lparr>mu := write_locked\<rparr>))
       (\<lambda>r t. case m_unlock ops (mu t) of None \<Rightarrow> Panicked t | Some m \<Rightarrow> Done r (t\<lparr>mu := m\<rparr>))"
  by (simp add: with_lock_def locked_def assms lock_free)

text \<open>While a blocked goroutine holds the write lock, every other handler waits.\<close>

lemma with_lock_held: "mutex E = ops \<Longrightarrow> mu s = write_locked \<Longrightarrow> with_lock E body s = Stuck s"
  by (simp add: with_lock_def locked_def lock_held)

text \<open>A body that is total under the lock gives a handler that ends with the mutex free.\<close>

lemma with_lock_runs:
  assumes E: "mutex E = ops" and s: "mu s = unlocked" "P s"
    and mu: "\<And>s m. P (s\<lparr>mu := m\<rparr>) = P s"
    and body: "runs (\<lambda>s. P s \<and> mu s = write_locked) body"
  shows "\<exists>r t. with_lock E body s = Done r t \<and> P t \<and> mu t = unlocked"
proof -
  have "P (s\<lparr>mu := write_locked\<rparr>)" using s(2) by (simp only: mu)
  then obtain r t where t: "body (s\<lparr>mu := write_locked\<rparr>) = Done r t" "P t" "mu t = write_locked"
    using runsD [OF body, of "s\<lparr>mu := write_locked\<rparr>"] by auto
  then have "with_lock E body s = Done r (t\<lparr>mu := unlocked\<rparr>)"
    by (simp add: with_lock_free [OF E s(1)] unlock_held)
  moreover have "P (t\<lparr>mu := unlocked\<rparr>)" using t(2) by (simp only: mu)
  ultimately show ?thesis by simp
qed

end

section \<open>With the nested read lock granted, every handler ends\<close>

abbreviation working :: "sched \<Rightarrow> bool" where
  "working s \<equiv> sched_wf s \<and> mu s = write_locked"

lemma refresh_metrics_frame [sched_frame]:
  "mu (refresh_metrics s) = mu s"
  "workers (refresh_metrics s) = workers s"
  "tasks (refresh_metrics s) = tasks s"
  "pendingTasks (refresh_metrics s) = pendingTasks s"
  "heap (refresh_metrics s) = heap s"
  "heapNext (refresh_metrics s) = heapNext s"
  by (simp_all add: refresh_metrics_def)

lemma wf_refresh_metrics: "sched_wf s \<Longrightarrow> sched_wf (refresh_metrics s)"
  by (erule wf_cong) (simp_all add: sched_frame)

text \<open>The state properties that survive what the small handlers do while the write lock is held.\<close>

definition quiet :: "(sched \<Rightarrow> bool) \<Rightarrow> bool" where
  "quiet P \<longleftrightarrow> (\<forall>s. P s \<longrightarrow> mu s = write_locked \<and> (\<forall>c. P (record_call c s)) \<and> P (tick s)
                   \<and> P (request_save s) \<and> P (refresh_metrics s))"

lemma quietD:
  assumes "quiet P" and "P s"
  shows "mu s = write_locked" and "P (record_call c s)" and "P (tick s)" and "P (request_save s)"
    and "P (refresh_metrics s)"
  using assms by (simp_all add: quiet_def)

lemma quiet_working: "quiet working"
  by (simp add: quiet_def sched_frame wf_record_call wf_tick wf_request_save wf_refresh_metrics)

lemma quiet_working_at: "quiet (\<lambda>s. working s \<and> a < heapNext s)"
  by (simp add: quiet_def sched_frame wf_record_call wf_tick wf_request_save wf_refresh_metrics)

lemma place_on_mu [sched_frame]: "mu (place_on i a w gs s) = mu s"
  by (simp add: place_on_def sched_frame)

context workload_policy
begin

lemma assign_loop_working:
  "working s \<Longrightarrow> \<exists>f t. assign_loop E assign i f0 s = Done f t \<and> working t"
  by (rule assign_loop_keeps)
     (auto simp: sched_frame wf_pending_bound wf_map_ok
           intro!: wf_tick wf_place_on wf_start_task)

end

context nested_read_lock
begin

lemma runs_UpdatePersistentState:
  "mutex E = ops \<Longrightarrow> quiet P \<Longrightarrow> runs P (UpdatePersistentState E)"
  by (intro runsI) (simp add: UpdatePersistentState_nested quietD)

lemma runs_updateMetrics: "mutex E = ops \<Longrightarrow> quiet P \<Longrightarrow> runs P (updateMetrics E)"
  by (intro runsI) (simp add: updateMetrics_nested quietD)

lemma runs_recordTaskSubmission: "mutex E = ops \<Longrightarrow> quiet P \<Longrightarrow> runs P (recordTaskSubmission E)"
  unfolding recordTaskSubmission_def
  by (intro runs_intros runs_act runs_updateMetrics) (simp_all add: quietD)

lemma runs_recordWorkerRegistration:
  "mutex E = ops \<Longrightarrow> quiet P \<Longrightarrow> runs P (recordWorkerRegistration E)"
  unfolding recordWorkerRegistration_def by (intro runs_intros runs_updateMetrics)

lemma runs_recordWorkerStatusChange:
  "mutex E = ops \<Longrightarrow> quiet P \<Longrightarrow> runs P (recordWorkerStatusChange E)"
  unfolding recordWorkerStatusChange_def by (intro runs_intros runs_updateMetrics)

lemma runs_recordTaskCompletion:
  assumes "mutex E = ops" and "quiet P" shows "runs P (recordTaskCompletion E a)"
proof (rule runsI)
  fix s assume s: "P s"
  have "runs P (block [act (\<lambda>s. tick (record_call (ObserveTaskDuration n (d s)) s)),
      act (\<lambda>s. if b1 then record_call c1 s else if b2 then record_call c2 s else s),
      updateMetrics E])" for n d b1 c1 b2 c2
    using assms by (intro runs_intros runs_act runs_updateMetrics) (simp_all add: quietD)
  from runsD [OF this s] show "\<exists>r t. recordTaskCompletion E a s = Done r t \<and> P t"
    using s unfolding recordTaskCompletion_def Let_def by simp
qed

lemmas runs_small = runs_UpdatePersistentState runs_updateMetrics runs_recordTaskSubmission
  runs_recordWorkerRegistration runs_recordWorkerStatusChange runs_recordTaskCompletion

lemma runs_assignPendingTasks:
  assumes "mutex E = ops" shows "runs working (assignPendingTasks E (AssignTask p))"
proof (rule runsI)
  fix s assume "working s"
  then obtain f t where t: "assign_loop E (AssignTask p) 0 False s = Done f t" "working t"
    using pol.assign_loop_working by blast
  with runsD [OF runs_UpdatePersistentState [OF assms quiet_working] t(2)]
  show "\<exists>r t. assignPendingTasks E (AssignTask p) s = Done r t \<and> working t"
    by (auto simp: assignPendingTasks_def)
qed

lemma runs_admit_worker:
  assumes "mutex E = ops" and "w \<noteq> ''''" and "length (rwGpus req) < 2 ^ 32"
  shows "runs working (admit_worker E (AssignTask p) w req)"
  unfolding admit_worker_def using assms
  by (intro runs_intros runs_act runs_small runs_assignPendingTasks quiet_working)
     (simp_all add: wf_add_worker)

lemma runs_RegisterWorker:
  assumes E: "mutex E = ops" and s: "mu s = unlocked" "sched_wf s" and req: "length (rwGpus req) < 2 ^ 32"
  shows "\<exists>r t. RegisterWorker E (AssignTask p) req s = Done r t \<and> sched_wf t \<and> mu t = unlocked"
  unfolding RegisterWorker_def
proof (rule with_lock_runs [OF E s wf_mu], rule runsI)
  fix s r1 r2 assume s: "working s"
  let ?w = "assigned_id req s"
  have "\<exists>r t. returning (r2 ?w) (admit_worker E (AssignTask p) ?w req s) = Done r t \<and> working t"
    by (rule runsD [OF runs_returning [OF runs_admit_worker [OF E assigned_id_nonempty req]] s])
  then show "\<exists>r t. (let w = assigned_id req s in if map_of (workers s) w \<noteq> None then Done (r1 w) s
      else returning (r2 w) (admit_worker E (AssignTask p) w req s)) = Done r t \<and> working t"
    using s by (simp add: Let_def)
qed

lemma runs_hand_out:
  assumes "mutex E = ops"
  shows "runs (\<lambda>s. working s \<and> a < heapNext s) (hand_out E r i a w gs)"
  unfolding hand_out_def
  by (intro runs_intros runs_act runs_small quiet_working_at assms)
     (simp_all add: sched_frame wf_tick wf_start_task wf_modify_worker wf_remove_pending worker_ok_fields)

lemma runs_request_loop:
  "mutex E = ops \<Longrightarrow> working s \<Longrightarrow> \<exists>r t. request_loop E A rq i s = Done r t \<and> working t"
proof (induction E A rq i s rule: request_loop.induct)
  case (1 E A rq i s)
  show ?case
  proof (cases "i < length (pendingTasks s)")
    case True
    define a where "a = pendingTasks s ! i"
    show ?thesis
    proof (cases "A (orders E (envTick s)) (workers s) (heap s a)")
      case (Inl e)
      with 1 True show ?thesis
        by (auto simp: request_loop.simps [of E A rq i s] a_def wf_tick sched_frame)
    next
      case (Inr r)
      obtain w gs where r: "r = (w, gs)" by (cases r)
      have "working s \<and> a < heapNext s" using 1 True by (simp add: a_def wf_pending_bound)
      then have "\<exists>r' t. returning (\<lambda>t. Inr (pb_of_task (heap t a))) (hand_out E rq i a w gs s)
          = Done r' t \<and> working t \<and> a < heapNext t"
        using runsD [OF runs_returning [OF runs_hand_out [OF 1(2)]], of s a] by simp
      then show ?thesis using True Inr r
        by (auto simp: request_loop.simps [of E A rq i s] a_def [symmetric])
    qed
  qed (use 1 in \<open>simp add: request_loop.simps [of E A rq i s]\<close>)
qed

lemma runs_RequestTask:
  assumes E: "mutex E = ops" and s: "mu s = unlocked" "sched_wf s"
  shows "\<exists>r t. RequestTask E A req s = Done r t \<and> sched_wf t \<and> mu t = unlocked"
  unfolding RequestTask_def Let_def
  by (rule with_lock_runs [OF E s wf_mu], intro runs_intros, rule runsI, rule runs_request_loop [OF E])

lemma runs_idle_if_no_tasks:
  assumes "mutex E = ops" shows "runs working (idle_if_no_tasks E w)"
proof (rule runsI)
  fix s assume s: "working s"
  have "runs working (block [act (modify_worker w (\<lambda>wk. wk\<lparr>wStatus := WorkerStatus_IDLE\<rparr>)),
                  recordWorkerStatusChange E])"
    by (intro runs_intros runs_act runs_small quiet_working assms)
       (simp add: sched_frame wf_modify_worker worker_ok_fields)
  from runsD [OF this s] s
  show "\<exists>r t. idle_if_no_tasks E w s = Done r t \<and> working t"
    unfolding idle_if_no_tasks_def by (simp split: option.split del: block.simps)
qed

lemma runs_apply_update:
  assumes "mutex E = ops" shows "runs working (apply_update E (AssignTask p) u a)"
  unfolding apply_update_def finish_task_def
  by (intro runs_intros runs_act runs_small quiet_working assms runs_idle_if_no_tasks
      runs_assignPendingTasks)
     (simp_all add: sched_frame wf_modify_worker worker_ok_fields wf_set_task)

lemma runs_ReportTaskStatus:
  assumes E: "mutex E = ops" and s: "mu s = unlocked" "sched_wf s"
  shows "\<exists>r t. ReportTaskStatus E (AssignTask p) u s = Done r t \<and> sched_wf t \<and> mu t = unlocked"
  unfolding ReportTaskStatus_def Let_def
proof (rule with_lock_runs [OF E s wf_mu], rule runsI)
  fix s e1 e2 and r1 :: "sched \<Rightarrow> grpc_error + TaskStatusResponse"
  assume s: "working s"
  have "\<exists>r t. returning r1 (apply_update E (AssignTask p) u a s) = Done r t \<and> working t" for a
    by (rule runsD [OF runs_returning [OF runs_apply_update [OF E]] s])
  with s show "\<exists>r t. (case map_of (tasks s) (tuTaskId u) of
         None \<Rightarrow> Done (Inl e1) s
       | Some a \<Rightarrow> if map_of (workers s) (tuWorkerId u) = None then Done (Inl e2) s
           else returning r1 (apply_update E (AssignTask p) u a s)) = Done r t \<and> working t"
    by (simp split: option.split)
qed

lemma runs_AddTask:
  assumes E: "mutex E = ops" and s: "mu s = unlocked" "sched_wf s" and a: "a < heapNext s"
  shows "\<exists>r t. AddTask E (AssignTask p) a s = Done r t \<and> sched_wf t \<and> mu t = unlocked"
proof -
  let ?rest = "[recordTaskSubmission E, UpdatePersistentState E, assignPendingTasks E (AssignTask p)]"
  have rest: "runs working (block ?rest)"
    by (intro runs_intros runs_small quiet_working runs_assignPendingTasks E)
  let ?t = "s\<lparr>mu := write_locked, tasks := mput (tID (heap s a)) a (tasks s)\<rparr>"
  have "sched_wf (s\<lparr>mu := write_locked\<rparr>)" using s by (simp add: wf_mu)
  from wf_enqueue(1) [OF this] have "sched_wf ?t" using a by simp
  from wf_enqueue(2) [OF this, of a] have "working (?t\<lparr>pendingTasks := pendingTasks s @ [a]\<rparr>)"
    using a by simp
  from runsD [OF rest this] obtain t where
    "block ?rest (?t\<lparr>pendingTasks := pendingTasks s @ [a]\<rparr>) = Done () t" "working t" by auto
  then have "AddTask E (AssignTask p) a s = Done () (t\<lparr>mu := unlocked\<rparr>)"
    unfolding AddTask_def with_lock_free [OF E s(1)] block_act
    by (simp add: unlock_held del: block.simps)
  with \<open>working t\<close> show ?thesis by (simp add: wf_mu)
qed

end

section \<open>With Go's mutex, no handler that changes anything ends\<close>

text \<open>
  Two predicates on statements, for a property \<open>P\<close> of states in which the write lock is held: the
  statement ends or blocks (but does not panic), and the statement blocks.
\<close>

definition floats :: "(sched \<Rightarrow> bool) \<Rightarrow> (sched \<Rightarrow> ('r, sched) res) \<Rightarrow> bool" where
  "floats P f \<longleftrightarrow> (\<forall>s. P s \<longrightarrow> (\<exists>r t. f s = Done r t \<and> P t) \<or> (\<exists>t. f s = Stuck t \<and> P t))"

definition sinks :: "(sched \<Rightarrow> bool) \<Rightarrow> (sched \<Rightarrow> ('r, sched) res) \<Rightarrow> bool" where
  "sinks P f \<longleftrightarrow> (\<forall>s. P s \<longrightarrow> (\<exists>t. f s = Stuck t \<and> P t))"

named_theorems sinks_intros \<open>rules that a statement blocks\<close>

lemma sinksD: "sinks P f \<Longrightarrow> P s \<Longrightarrow> \<exists>t. f s = Stuck t \<and> P t"
  by (simp add: sinks_def)

lemma floats_act: "(\<And>s. P s \<Longrightarrow> P (f s)) \<Longrightarrow> floats P (act f)"
  by (simp add: floats_def act_def)

lemma floats_sinks: "sinks P f \<Longrightarrow> floats P f"
  by (simp add: floats_def sinks_def)

lemma floats_Done: "floats P (\<lambda>s. Done r s)"
  by (simp add: floats_def)

lemma floats_if: "floats P f \<Longrightarrow> floats P g \<Longrightarrow> floats P (\<lambda>s. if c s then f s else g s)"
  by (simp add: floats_def)

lemma floats_block_Nil: "floats P (block [])"
  by (simp add: floats_def)

lemma floats_block_Cons:
  assumes "floats P f" and "floats P (block fs)" shows "floats P (block (f # fs))"
  using assms unfolding floats_def by fastforce

lemmas floats_intros = floats_Done floats_if floats_block_Nil floats_block_Cons

lemma sinks_block_here: "sinks P f \<Longrightarrow> sinks P (block (f # fs))"
  unfolding sinks_def by fastforce

lemma sinks_block_later: "floats P f \<Longrightarrow> sinks P (block fs) \<Longrightarrow> sinks P (block (f # fs))"
  unfolding sinks_def floats_def by fastforce

lemma sinks_returning: "sinks P f \<Longrightarrow> sinks P (\<lambda>s. returning r (f s))"
  unfolding sinks_def returning_def by fastforce

context no_nested_read_lock
begin

lemma sinks_UpdatePersistentState:
  "mutex E = ops \<Longrightarrow> quiet P \<Longrightarrow> sinks P (UpdatePersistentState E)"
  unfolding sinks_def by (simp add: UpdatePersistentState_blocks quietD)

lemma floats_updateMetrics:
  assumes "mutex E = ops" and "quiet P" shows "floats P (updateMetrics E)"
  unfolding floats_def
proof (intro allI impI)
  fix s assume s: "P s"
  show "(\<exists>r t. updateMetrics E s = Done r t \<and> P t) \<or> (\<exists>t. updateMetrics E s = Stuck t \<and> P t)"
  proof (cases "hasMetrics s")
    case True
    with s show ?thesis by (simp add: updateMetrics_blocks [OF assms(1) quietD(1) [OF assms(2) s]])
  qed (simp add: updateMetrics_def s)
qed

lemma floats_small:
  assumes "mutex E = ops" and "quiet P"
  shows "floats P (recordTaskSubmission E)" and "floats P (recordWorkerRegistration E)"
    and "floats P (recordWorkerStatusChange E)"
  unfolding recordTaskSubmission_def recordWorkerRegistration_def recordWorkerStatusChange_def
  using assms by (intro floats_intros floats_act floats_updateMetrics, simp_all add: quietD)+

lemma floats_recordTaskCompletion:
  assumes "mutex E = ops" and "quiet P" shows "floats P (recordTaskCompletion E a)"
proof -
  have "floats P (block [act (\<lambda>s. tick (record_call (ObserveTaskDuration n (d s)) s)),
      act (\<lambda>s. if b1 then record_call c1 s else if b2 then record_call c2 s else s),
      updateMetrics E])" for n d b1 c1 b2 c2
    using assms by (intro floats_intros floats_act floats_updateMetrics) (simp_all add: quietD)
  then show ?thesis
    unfolding recordTaskCompletion_def Let_def by (simp add: floats_def del: block.simps)
qed

lemma floats_idle_if_no_tasks:
  assumes "mutex E = ops" shows "floats working (idle_if_no_tasks E w)"
proof -
  have "floats working (block [act (modify_worker w (\<lambda>wk. wk\<lparr>wStatus := WorkerStatus_IDLE\<rparr>)),
                  recordWorkerStatusChange E])"
    by (intro floats_intros floats_act floats_small quiet_working assms)
       (simp add: sched_frame wf_modify_worker worker_ok_fields)
  then show ?thesis
    unfolding idle_if_no_tasks_def floats_def by (simp split: option.split del: block.simps)
qed

lemma floats_assignPendingTasks:
  assumes "mutex E = ops" shows "floats working (assignPendingTasks E (AssignTask p))"
  unfolding floats_def
proof (intro allI impI)
  fix s assume "working s"
  then obtain f t where t: "assign_loop E (AssignTask p) 0 False s = Done f t" "working t"
    using pol.assign_loop_working by blast
  then show "(\<exists>r t. assignPendingTasks E (AssignTask p) s = Done r t \<and> working t)
      \<or> (\<exists>t. assignPendingTasks E (AssignTask p) s = Stuck t \<and> working t)"
    using sinksD [OF sinks_UpdatePersistentState [OF assms quiet_working] t(2)]
    by (cases f) (simp_all add: assignPendingTasks_def)
qed

lemma sinks_admit_worker:
  assumes "mutex E = ops" and "w \<noteq> ''''" and "length (rwGpus req) < 2 ^ 32"
  shows "sinks working (admit_worker E A w req)"
  unfolding admit_worker_def using assms
  by (intro sinks_block_later [OF floats_act] sinks_block_later [OF floats_small(2)]
      sinks_block_here sinks_UpdatePersistentState quiet_working)
     (simp_all add: wf_add_worker)

lemma sinks_apply_update:
  assumes "mutex E = ops" shows "sinks working (apply_update E (AssignTask p) u a)"
  unfolding apply_update_def finish_task_def
  by (intro sinks_block_later [OF floats_act] sinks_block_later [OF floats_if] sinks_block_here
      sinks_UpdatePersistentState floats_intros floats_act floats_recordTaskCompletion
      floats_idle_if_no_tasks floats_assignPendingTasks quiet_working assms)
     (simp_all add: sched_frame wf_modify_worker worker_ok_fields wf_set_task)

lemma sinks_hand_out:
  assumes "mutex E = ops"
  shows "sinks (\<lambda>s. working s \<and> a < heapNext s) (hand_out E r i a w gs)"
  unfolding hand_out_def
  by (intro sinks_block_later [OF floats_act] sinks_block_later [OF floats_small(3)]
      sinks_block_here sinks_UpdatePersistentState quiet_working_at assms)
     (simp_all add: sched_frame wf_tick wf_start_task wf_modify_worker wf_remove_pending worker_ok_fields)

text \<open>A critical section whose body blocks never gives the mutex back.\<close>

lemma with_lock_sinks:
  assumes "mutex E = ops" and "mu s = unlocked" and "sinks P body" and "P (s\<lparr>mu := write_locked\<rparr>)"
  shows "\<exists>t. with_lock E body s = Stuck t \<and> P t"
  using sinksD [OF assms(3,4)] by (auto simp: with_lock_free [OF assms(1,2)])

end

section \<open>The handlers under Go's mutex\<close>

text \<open>Two states that differ at most in the counter of the environment's answers.\<close>

definition only_asked :: "sched \<Rightarrow> sched \<Rightarrow> bool" where
  "only_asked s t \<longleftrightarrow> t\<lparr>envTick := 0\<rparr> = s\<lparr>envTick := 0\<rparr>"

lemma only_asked_refl [simp]: "only_asked s s"
  by (simp add: only_asked_def)

lemma only_asked_tick: "only_asked (tick s) t = only_asked s t"
  by (simp add: only_asked_def tick_def)

lemma only_asked_mu:
  assumes "mu s = m" and "only_asked (s\<lparr>mu := m'\<rparr>) t" shows "only_asked s (t\<lparr>mu := m\<rparr>)"
proof -
  have "(t\<lparr>envTick := 0\<rparr>)\<lparr>mu := m\<rparr> = (s\<lparr>mu := m', envTick := 0\<rparr>)\<lparr>mu := m\<rparr>"
    using assms(2) by (simp add: only_asked_def)
  then show ?thesis using assms(1) by (cases s; cases t) (simp add: only_asked_def)
qed

lemma only_askedD:
  assumes "only_asked s t"
  shows "mu t = mu s" and "workers t = workers s" and "tasks t = tasks s"
    and "pendingTasks t = pendingTasks s" and "heap t = heap s" and "heapNext t = heapNext s"
  using assms by (cases s; cases t; simp add: only_asked_def)+

lemma returning_Stuck [simp]: "returning r (Stuck t) = Stuck t"
  by (simp add: returning_def)

text \<open>The state after the write lock is taken and given back is the state before.\<close>

lemma mu_round_trip: "mu s = m \<Longrightarrow> (s\<lparr>mu := write_locked\<rparr>)\<lparr>mu := m\<rparr> = (s :: sched)"
  by (cases s) simp

context rw_lock
begin

lemma with_lock_Done:
  assumes "mutex E = ops" and "mu s = unlocked" and "body (s\<lparr>mu := write_locked\<rparr>) = Done r (s\<lparr>mu := write_locked\<rparr>)"
  shows "with_lock E body s = Done r s"
  by (simp add: with_lock_free [OF assms(1,2)] assms(3) unlock_held mu_round_trip [OF assms(2)])

end

context no_nested_read_lock
begin

lemma RegisterWorker_cases:
  assumes E: "mutex E = ops" and s: "mu s = unlocked" "sched_wf s" and req: "length (rwGpus req) < 2 ^ 32"
  shows "if map_of (workers s) (assigned_id req s) = None
         then \<exists>t. RegisterWorker E A req s = Stuck t \<and> working t
         else \<exists>r. RegisterWorker E A req s = Done r s \<and> \<not> rrSuccess r"
proof (cases "map_of (workers s) (assigned_id req s)")
  case None
  let ?s = "s\<lparr>mu := write_locked\<rparr>" and ?w = "assigned_id req s"
  have "working ?s" using s by (simp add: wf_mu)
  from sinksD [OF sinks_admit_worker [OF E assigned_id_nonempty req] this]
  obtain t where "admit_worker E A ?w req ?s = Stuck t" "working t" by blast
  moreover have "assigned_id req ?s = ?w" by (simp add: assigned_id_def)
  ultimately show ?thesis using None
    by (simp add: RegisterWorker_def with_lock_free [OF E s(1)])
next
  case (Some wk)
  have "assigned_id req (s\<lparr>mu := write_locked\<rparr>) = assigned_id req s" by (simp add: assigned_id_def)
  with Some show ?thesis unfolding RegisterWorker_def
    by (simp add: with_lock_Done [OF E s(1)])
qed

lemma AddTask_blocks:
  assumes E: "mutex E = ops" and s: "mu s = unlocked" "sched_wf s" and a: "a < heapNext s"
  shows "\<exists>t. AddTask E A a s = Stuck t \<and> working t"
proof -
  let ?rest = "[recordTaskSubmission E, UpdatePersistentState E, assignPendingTasks E A]"
  have rest: "sinks working (block ?rest)"
    by (intro sinks_block_later [OF floats_small(1)] sinks_block_here sinks_UpdatePersistentState
        quiet_working E)
  let ?t = "s\<lparr>mu := write_locked, tasks := mput (tID (heap s a)) a (tasks s)\<rparr>"
  have "sched_wf (s\<lparr>mu := write_locked\<rparr>)" using s by (simp add: wf_mu)
  from wf_enqueue(1) [OF this] have "sched_wf ?t" using a by simp
  from wf_enqueue(2) [OF this, of a] have "working (?t\<lparr>pendingTasks := pendingTasks s @ [a]\<rparr>)"
    using a by simp
  from sinksD [OF rest this] show ?thesis
    unfolding AddTask_def with_lock_free [OF E s(1)] block_act by (auto simp del: block.simps)
qed

lemma ReportTaskStatus_cases:
  assumes E: "mutex E = ops" and s: "mu s = unlocked" "sched_wf s"
  shows "if map_of (tasks s) (tuTaskId u) \<noteq> None \<and> map_of (workers s) (tuWorkerId u) \<noteq> None
         then \<exists>t. ReportTaskStatus E (AssignTask p) u s = Stuck t \<and> working t
         else \<exists>e. ReportTaskStatus E (AssignTask p) u s = Done (Inl e) s"
proof (cases "map_of (tasks s) (tuTaskId u) \<noteq> None \<and> map_of (workers s) (tuWorkerId u) \<noteq> None")
  case True
  then obtain a where a: "map_of (tasks s) (tuTaskId u) = Some a" by auto
  have "working (s\<lparr>mu := write_locked\<rparr>)" using s by (simp add: wf_mu)
  from sinksD [OF sinks_apply_update [OF E] this]
  obtain t where "apply_update E (AssignTask p) u a (s\<lparr>mu := write_locked\<rparr>) = Stuck t" "working t"
    by blast
  with True a show ?thesis
    by (auto simp: ReportTaskStatus_def with_lock_free [OF E s(1)])
next
  case False
  then show ?thesis
    by (cases "map_of (tasks s) (tuTaskId u)")
       (simp_all add: ReportTaskStatus_def with_lock_Done [OF E s(1)])
qed

text \<open>
  A request for a task either runs through the queue without finding a task that the policy can
  place, and changes nothing but the environment's counter, or hands one out and blocks.
\<close>

lemma request_loop_cases:
  "mutex E = ops \<Longrightarrow> working s \<Longrightarrow>
     (\<exists>e t. request_loop E A r i s = Done (Inl e) t \<and> only_asked s t)
     \<or> (\<exists>t. request_loop E A r i s = Stuck t \<and> working t)"
proof (induction E A r i s rule: request_loop.induct)
  case (1 E A r i s)
  show ?case
  proof (cases "i < length (pendingTasks s)")
    case True
    define a where "a = pendingTasks s ! i"
    show ?thesis
    proof (cases "A (orders E (envTick s)) (workers s) (heap s a)")
      case (Inl e)
      then have step: "request_loop E A r i s = request_loop E A r (Suc i) (tick s)"
        using True by (simp add: request_loop.simps [of E A r i s] a_def)
      have "working (tick s)" using 1 by (simp add: wf_tick sched_frame)
      then show ?thesis
        using 1(1) [OF True refl Inl [unfolded a_def]] 1(2) unfolding step only_asked_tick by blast
    next
      case (Inr out)
      obtain w gs where out: "out = (w, gs)" by (cases out)
      have "working s \<and> a < heapNext s" using 1 True by (simp add: a_def wf_pending_bound)
      from sinksD [OF sinks_hand_out [OF 1(2)] this]
      obtain t where "hand_out E r i a w gs s = Stuck t" "working t" by blast
      with True Inr out show ?thesis
        by (simp add: request_loop.simps [of E A r i s] a_def [symmetric])
    qed
  qed (simp add: request_loop.simps [of E A r i s])
qed

lemma RequestTask_cases:
  assumes E: "mutex E = ops" and s: "mu s = unlocked" "sched_wf s"
  shows "(\<exists>e t. RequestTask E A req s = Done (Inl e) t \<and> only_asked s t)
     \<or> (\<exists>t. RequestTask E A req s = Stuck t \<and> working t)"
proof (cases "map_of (workers s) (trWorkerId req) = None \<or> pendingTasks s = []")
  case True
  then have "\<exists>e. RequestTask E A req s = Done (Inl e) s"
    by (cases "map_of (workers s) (trWorkerId req)")
       (auto simp: RequestTask_def with_lock_Done [OF E s(1)] Let_def)
  then show ?thesis by (auto intro: only_asked_refl)
next
  case False
  let ?s = "s\<lparr>mu := write_locked\<rparr>"
  have step: "RequestTask E A req s = bind_res (request_loop E A (trWorkerId req) 0 ?s)
      (\<lambda>r t. case m_unlock ops (mu t) of None \<Rightarrow> Panicked t | Some m \<Rightarrow> Done r (t\<lparr>mu := m\<rparr>))"
    using False by (auto simp: RequestTask_def with_lock_free [OF E s(1)] Let_def)
  have "working ?s" using s by (simp add: wf_mu)
  from request_loop_cases [OF E this, of A "trWorkerId req" 0] show ?thesis
  proof (elim disjE exE conjE)
    fix e t
    assume t: "request_loop E A (trWorkerId req) 0 ?s = Done (Inl e) t" "only_asked ?s t"
    have "only_asked s (t\<lparr>mu := unlocked\<rparr>)" using s(1) t(2) by (rule only_asked_mu)
    moreover have "mu t = write_locked" using only_askedD [OF t(2)] by simp
    ultimately show ?thesis by (simp add: step t(1) unlock_held)
  qed (simp add: step)
qed

end

end
