(* ===== verification/SchedProtocol.thy ===== *)
theory SchedProtocol
  imports SchedLock
begin

text \<open>
  The scheduler as a server: the requests it answers one after the other, the states it reaches, and
  what holds in all of them. The central invariant is that after every request no task in the queue
  can be placed on any worker, because each change that could make room is followed by a full pass of
  \<^verbatim>\<open>assignPendingTasks\<close>.
\<close>

section \<open>Requests and reachable states\<close>

datatype request =
    RegisterWorkerCall RegisterWorkerRequest
  | RequestTaskCall TaskRequest
  | ReportTaskStatusCall TaskStatusUpdate
  | MonitorTurnCall string
  | ListWorkersCall
  | AddTaskCall Task

datatype reply =
    RegisterWorkerReply RegisterWorkerResponse
  | RequestTaskReply "grpc_error + pbTask"
  | ReportTaskStatusReply "grpc_error + TaskStatusResponse"
  | MonitorTurnReply "grpc_error + WorkerStatusResponse"
  | ListWorkersReply "WorkerInfo list"
  | AddTaskReply

fun map_reply :: "('a \<Rightarrow> 'b) \<Rightarrow> ('a, 's) res \<Rightarrow> ('b, 's) res" where
  "map_reply f (Done r s) = Done (f r) s"
| "map_reply f (Stuck s) = Stuck s"
| "map_reply f (Panicked s) = Panicked s"

text \<open>\<^verbatim>\<open>AddTask\<close> gets a task struct of its own from its caller.\<close>

definition submit_task :: "env \<Rightarrow> assign_method \<Rightarrow> Task \<Rightarrow> sched \<Rightarrow> (unit, sched) res" where
  "submit_task E A t s = (let (a, s') = alloc_task t s in AddTask E A a s')"

fun serve :: "env \<Rightarrow> WorkloadPolicy \<Rightarrow> request \<Rightarrow> sched \<Rightarrow> (reply, sched) res" where
  "serve E p (RegisterWorkerCall req) s = map_reply RegisterWorkerReply (RegisterWorker E (AssignTask p) req s)"
| "serve E p (RequestTaskCall req) s = map_reply RequestTaskReply (RequestTask E (AssignTask p) req s)"
| "serve E p (ReportTaskStatusCall u) s = map_reply ReportTaskStatusReply (ReportTaskStatus E (AssignTask p) u s)"
| "serve E p (MonitorTurnCall w) s = map_reply MonitorTurnReply (monitor_turn E w s)"
| "serve E p ListWorkersCall s = map_reply ListWorkersReply (ListWorkers E s)"
| "serve E p (AddTaskCall t) s = map_reply (\<lambda>_. AddTaskReply) (submit_task E (AssignTask p) t s)"

text \<open>A message with 2^32 GPUs does not fit into a gRPC message.\<close>

fun request_ok :: "request \<Rightarrow> bool" where
  "request_ok (RegisterWorkerCall req) \<longleftrightarrow> int (length (rwGpus req)) < 2 ^ 32"
| "request_ok _ \<longleftrightarrow> True"

text \<open>The server starts empty (no saved state), with or without metrics and persistence.\<close>

inductive reached :: "env \<Rightarrow> WorkloadPolicy \<Rightarrow> sched \<Rightarrow> bool" for E p where
  start: "reached E p (NewScheduler\<lparr>hasMetrics := b, persistenceManager := m\<rparr>)"
| step: "reached E p s \<Longrightarrow> request_ok c \<Longrightarrow> serve E p c s = Done r t \<Longrightarrow> reached E p t"

inductive_cases reachedE: "reached E p s"

text \<open>Serving a list of requests, each of which has to pass a check of the state it meets.\<close>

fun run_all ::
  "(request \<Rightarrow> sched \<Rightarrow> bool) \<Rightarrow> env \<Rightarrow> WorkloadPolicy \<Rightarrow> request list \<Rightarrow> sched \<Rightarrow> sched option" where
  "run_all chk E p [] s = Some s"
| "run_all chk E p (c # cs) s =
     (if request_ok c \<and> chk c s
      then (case serve E p c s of Done r t \<Rightarrow> run_all chk E p cs t | _ \<Rightarrow> None) else None)"

lemma run_all_reached: "run_all chk E p cs s = Some t \<Longrightarrow> reached E p s \<Longrightarrow> reached E p t"
proof (induction cs arbitrary: s)
  case (Cons c cs)
  then show ?case by (auto split: if_splits res.splits intro: reached.step)
qed simp

section \<open>A queue that cannot be served\<close>

definition starved :: "WorkloadPolicy \<Rightarrow> sched \<Rightarrow> bool" where
  "starved p s \<longleftrightarrow>
     (\<forall>a \<in> set (pendingTasks s). \<forall>(w, wk) \<in> set (workers s). \<not> policy_suits p (heap s a) wk)"

lemma starved_cong:
  assumes "starved p s" and "workers t = workers s" and "set (pendingTasks t) \<subseteq> set (pendingTasks s)"
    and "\<And>a. a \<in> set (pendingTasks t) \<Longrightarrow> tRequiredGPUs (heap t a) = tRequiredGPUs (heap s a)
                      \<and> tMinGPUMemory (heap t a) = tMinGPUMemory (heap s a)"
  shows "starved p t"
  unfolding starved_def
proof (intro ballI)
  fix a x assume a: "a \<in> set (pendingTasks t)" and x: "x \<in> set (workers t)"
  obtain w wk where [simp]: "x = (w, wk)" by (cases x)
  have "\<not> policy_suits p (heap s a) wk" using assms(1-3) a x unfolding starved_def by auto
  moreover have "policy_suits p (heap t a) wk = policy_suits p (heap s a) wk"
    using assms(4) [OF a] by (intro pol.suits_cong) simp_all
  ultimately show "case x of (w, wk) \<Rightarrow> \<not> policy_suits p (heap t a) wk" by simp
qed

lemma starved_small:
  "starved p (s\<lparr>mu := m\<rparr>) = starved p s"
  "starved p (record_call c s) = starved p s"
  "starved p (tick s) = starved p s"
  "starved p (request_save s) = starved p s"
  "starved p (refresh_metrics s) = starved p s"
  by (simp_all add: starved_def sched_frame)

lemma starved_only_asked: "only_asked s t \<Longrightarrow> starved p t = starved p s"
  by (simp add: starved_def only_askedD)

lemma wf_only_asked: "only_asked s t \<Longrightarrow> sched_wf s \<Longrightarrow> sched_wf t"
  by (erule wf_cong) (simp_all add: only_askedD)

lemma map_of_place_on:
  "map_of (workers (place_on i a w gs s))
     = (map_of (workers s))(w := map_option (occupy (tID (heap s a)) a gs) (map_of (workers s) w))"
  by (simp add: place_on_def sched_frame)

context workload_policy
begin

text \<open>
  The pass leaves nothing it could place. Index \<open>i\<close>: no worker suits any of the tasks before it.
  Placing a task only takes GPUs away, so what did not suit before does not suit after.
\<close>

definition passed :: "nat \<Rightarrow> sched \<Rightarrow> bool" where
  "passed i s \<longleftrightarrow> sched_wf s \<and> mu s = write_locked
     \<and> (\<forall>j < i. j < length (pendingTasks s) \<longrightarrow>
          (\<forall>(w, wk) \<in> set (workers s). \<not> suits (heap s (pendingTasks s ! j)) wk))"

lemma passed_place:
  assumes P: "passed i s" and i: "i < length (pendingTasks s)" and a: "a = pendingTasks s ! i"
    and m: "map_of (workers s) w = Some wk" and suits: "suits (heap s a) wk"
  shows "passed i (place_on i a w gs (tick (start_task E a w gs s)))"
proof -
  let ?t = "place_on i a w gs (tick (start_task E a w gs s))"
  have wf: "sched_wf s" using P by (simp add: passed_def)
  have wf': "sched_wf ?t"
    using wf i a by (intro wf_place_on wf_tick wf_start_task) (simp_all add: sched_frame wf_pending_bound)
  have mu: "mu ?t = write_locked" using P by (simp add: passed_def sched_frame)
  have rest: "\<not> suits (heap ?t (pendingTasks ?t ! j)) wk'"
    if j: "j < i" and w': "(w', wk') \<in> set (workers ?t)" for j w' wk'
  proof -
    have q: "pendingTasks ?t ! j = pendingTasks s ! j"
      using j i by (simp add: place_on_def nth_append)
    have cong: "suits (heap ?t b) v = suits (heap s b) v" for b v
      by (rule suits_cong) (simp_all add: place_on_def sched_frame)
    have old: "\<not> suits (heap s (pendingTasks s ! j)) v" if "map_of (workers s) u = Some v" for u v
      using P j i map_of_SomeD [OF that] by (auto simp: passed_def)
    have "map_of (workers ?t) w' = Some wk'"
      using w' wf' by (simp add: map_ok_in_iff wf_map_ok)
    then have "(if w' = w then Some (occupy (tID (heap s a)) a gs wk) else map_of (workers s) w') = Some wk'"
      by (simp add: map_of_place_on sched_frame m split: if_split_asm)
    then consider "w' = w" "wk' = occupy (tID (heap s a)) a gs wk" | "map_of (workers s) w' = Some wk'"
      by (cases "w' = w") simp_all
    then show ?thesis
    proof cases
      case 1
      have "length (wGPUs wk) < 2 ^ 32" using wf_worker [OF wf m] by (simp add: worker_ok_def)
      then show ?thesis unfolding q cong 1 using suits_occupy [OF suits] old [OF m] by blast
    qed (simp add: q cong old)
  qed
  show ?thesis
    unfolding passed_def
  proof (intro conjI allI impI ballI)
    fix j x assume "j < i" "x \<in> set (workers ?t)"
    then show "case x of (w', wk') \<Rightarrow> \<not> suits (heap ?t (pendingTasks ?t ! j)) wk'"
      using rest [of j "fst x" "snd x"] by (cases x) simp
  qed (fact wf', fact mu)
qed

lemma assign_loop_passed:
  assumes "sched_wf s" and "mu s = write_locked"
  shows "\<exists>f j t. assign_loop E assign 0 f0 s = Done f t \<and> length (pendingTasks t) \<le> j \<and> passed j t"
proof (rule assign_loop_rule)
  show "passed 0 s" using assms by (simp add: passed_def)
next
  fix i s
  assume "passed i s" and "\<forall>(w, wk) \<in> set (workers s). \<not> suits (heap s (pendingTasks s ! i)) wk"
  then show "passed (Suc i) (tick s)"
    by (auto simp: passed_def wf_tick sched_frame less_Suc_eq)
qed ((rule passed_place; assumption) | simp add: passed_def wf_map_ok)+

end

section \<open>Every request keeps the queue starved\<close>

definition settled :: "WorkloadPolicy \<Rightarrow> sched \<Rightarrow> bool" where
  "settled p s \<longleftrightarrow> working s \<and> starved p s"

lemma quiet_settled: "quiet (settled p)"
  by (simp add: quiet_def settled_def starved_small sched_frame wf_record_call wf_tick wf_request_save
      wf_refresh_metrics)

lemma assign_loop_settled:
  assumes "working s"
  shows "\<exists>f t. assign_loop E (AssignTask p) 0 f0 s = Done f t \<and> settled p t"
proof -
  obtain f j t where t: "assign_loop E (AssignTask p) 0 f0 s = Done f t"
      "length (pendingTasks t) \<le> j" "pol.passed p j t"
    using pol.assign_loop_passed assms by blast
  have "\<forall>(w, wk) \<in> set (workers t). \<not> policy_suits p (heap t a) wk" if a: "a \<in> set (pendingTasks t)" for a
  proof -
    obtain n where "n < length (pendingTasks t)" "a = pendingTasks t ! n"
      using a by (auto simp: in_set_conv_nth)
    then show ?thesis using t(2,3) by (simp add: pol.passed_def)
  qed
  then have "settled p t" using t(3) by (simp add: settled_def starved_def pol.passed_def)
  with t(1) show ?thesis by blast
qed

text \<open>A statement that takes every state with \<open>P\<close> to its end, in a state with \<open>Q\<close>.\<close>

definition reaches :: "(sched \<Rightarrow> bool) \<Rightarrow> (sched \<Rightarrow> ('r, sched) res) \<Rightarrow> (sched \<Rightarrow> bool) \<Rightarrow> bool" where
  "reaches P f Q \<longleftrightarrow> (\<forall>s. P s \<longrightarrow> (\<exists>r t. f s = Done r t \<and> Q t))"

lemma reachesI: "(\<And>s. P s \<Longrightarrow> \<exists>r t. f s = Done r t \<and> Q t) \<Longrightarrow> reaches P f Q"
  by (simp add: reaches_def)

lemma reachesD: "reaches P f Q \<Longrightarrow> P s \<Longrightarrow> \<exists>r t. f s = Done r t \<and> Q t"
  by (simp add: reaches_def)

lemma reaches_Cons: "runs P f \<Longrightarrow> reaches P (block fs) Q \<Longrightarrow> reaches P (block (f # fs)) Q"
  unfolding reaches_def runs_def by fastforce

lemma reaches_step: "reaches P f R \<Longrightarrow> reaches R (block fs) Q \<Longrightarrow> reaches P (block (f # fs)) Q"
  unfolding reaches_def by fastforce

lemma reaches_last: "reaches P f Q \<Longrightarrow> reaches P (block [f]) Q"
  unfolding reaches_def by fastforce

lemma reaches_runs: "runs P f \<Longrightarrow> reaches P f P"
  by (simp add: reaches_def runs_def)

lemma reaches_returning: "reaches P f Q \<Longrightarrow> reaches P (\<lambda>s. returning r (f s)) Q"
  unfolding reaches_def returning_def by fastforce

context nested_read_lock
begin

lemma reaches_assignPendingTasks:
  assumes "mutex E = ops" shows "reaches working (assignPendingTasks E (AssignTask p)) (settled p)"
proof (rule reachesI)
  fix s assume "working s"
  then obtain f t where t: "assign_loop E (AssignTask p) 0 False s = Done f t" "settled p t"
    using assign_loop_settled by blast
  with runsD [OF runs_UpdatePersistentState [OF assms quiet_settled] t(2)]
  show "\<exists>r t. assignPendingTasks E (AssignTask p) s = Done r t \<and> settled p t"
    by (auto simp: assignPendingTasks_def)
qed

lemma reaches_admit_worker:
  assumes "mutex E = ops" and "w \<noteq> ''''" and "length (rwGpus req) < 2 ^ 32"
  shows "reaches working (admit_worker E (AssignTask p) w req) (settled p)"
  unfolding admit_worker_def using assms
  by (intro reaches_Cons reaches_last runs_act runs_small reaches_assignPendingTasks quiet_working)
     (simp_all add: wf_add_worker)

lemma reaches_finish_task:
  assumes "mutex E = ops"
  shows "reaches working (finish_task E (AssignTask p) k w a) (settled p)"
  unfolding finish_task_def
  by (intro reaches_Cons reaches_last runs_act runs_small reaches_assignPendingTasks quiet_working
      runs_idle_if_no_tasks assms)
     (simp_all add: sched_frame wf_modify_worker worker_ok_fields)

lemma reaches_apply_update:
  assumes "mutex E = ops"
  shows "reaches (settled p) (apply_update E (AssignTask p) u a) (settled p)"
proof -
  let ?set = "act (modify_task a (\<lambda>t. t\<lparr>tStatus := tuStatus u, tProgress := tuProgress u,
                                       tMetrics := tuMetrics u\<rparr>))"
  have set: "runs (settled p) ?set"
  proof (rule runs_act)
    fix s assume s: "settled p s"
    then have "starved p (modify_task a (\<lambda>t. t\<lparr>tStatus := tuStatus u, tProgress := tuProgress u,
        tMetrics := tuMetrics u\<rparr>) s)"
      unfolding settled_def by (elim conjE starved_cong) (simp_all add: sched_frame)
    with s show "settled p (modify_task a (\<lambda>t. t\<lparr>tStatus := tuStatus u, tProgress := tuProgress u,
        tMetrics := tuMetrics u\<rparr>) s)"
      by (simp add: settled_def wf_set_task sched_frame)
  qed
  have "reaches (settled p)
      (\<lambda>s. if terminal (tuStatus u) then finish_task E (AssignTask p) (tuTaskId u) (tuWorkerId u) a s
           else Done () s) (settled p)"
    using reachesD [OF reaches_finish_task [OF assms]] by (intro reachesI) (simp add: settled_def)
  then show ?thesis unfolding apply_update_def
    by (rule reaches_Cons [OF set reaches_step])
       (intro reaches_last reaches_runs runs_small quiet_settled assms)
qed

end

section \<open>Every request, from a state between two requests\<close>

definition serving :: "WorkloadPolicy \<Rightarrow> sched \<Rightarrow> bool" where
  "serving p s \<longleftrightarrow> sched_wf s \<and> mu s = unlocked \<and> starved p s"

lemma serving_only_asked: "only_asked s t \<Longrightarrow> serving p s \<Longrightarrow> serving p t"
  by (auto simp: serving_def only_askedD starved_only_asked wf_only_asked)

lemma settled_locked: "serving p s \<Longrightarrow> settled p (s\<lparr>mu := write_locked\<rparr>)"
  by (simp add: serving_def settled_def wf_mu starved_small)

lemma settled_unlock: "settled p t \<Longrightarrow> serving p (t\<lparr>mu := unlocked\<rparr>)"
  by (simp add: serving_def settled_def wf_mu starved_small)

lemma wf_alloc: "sched_wf s \<Longrightarrow> sched_wf (snd (alloc_task t s))"
  unfolding sched_wf_def worker_ok_def alloc_task_def
  by (auto simp: less_Suc_eq)

lemma starved_alloc: "sched_wf s \<Longrightarrow> starved p s \<Longrightarrow> starved p (snd (alloc_task t s))"
  by (erule starved_cong) (auto simp: alloc_task_def sched_wf_def)

lemma serving_alloc: "serving p s \<Longrightarrow> serving p (snd (alloc_task t s))"
  using wf_alloc [of s t] starved_alloc [of s p t] by (auto simp: serving_def alloc_task_def)

text \<open>In a starved queue the search for a task fails, whoever asks.\<close>

lemma request_loop_starved:
  "starved p s \<Longrightarrow> \<exists>t. request_loop E (AssignTask p) r i s
       = Done (Inl (ResourceExhausted, ''No suitable tasks for this worker'')) t \<and> only_asked s t"
proof (induction "length (pendingTasks s) - i" arbitrary: i s)
  case 0
  then show ?case by (simp add: request_loop.simps [of E _ r i s])
next
  case (Suc n)
  then have i: "i < length (pendingTasks s)" by simp
  then have "\<forall>(w, wk) \<in> set (workers s). \<not> policy_suits p (heap s (pendingTasks s ! i)) wk"
    using Suc.prems by (simp add: starved_def)
  then obtain e where e: "AssignTask p (orders E (envTick s)) (workers s) (heap s (pendingTasks s ! i)) = Inl e"
    using pol.assign_fails_iff by blast
  have "\<exists>t. request_loop E (AssignTask p) r (Suc i) (tick s)
       = Done (Inl (ResourceExhausted, ''No suitable tasks for this worker'')) t \<and> only_asked (tick s) t"
    using Suc by (intro Suc.hyps) (simp_all add: starved_small)
  then show ?case using i e
    by (simp add: request_loop.simps [of E "AssignTask p" r i s] only_asked_tick)
qed

context rw_lock
begin

lemma RequestTask_starved:
  assumes E: "mutex E = ops" and s: "serving p s"
  shows "\<exists>e t. RequestTask E (AssignTask p) req s = Done (Inl e) t \<and> only_asked s t"
proof -
  let ?s = "s\<lparr>mu := write_locked\<rparr>"
  have u: "mu s = unlocked" and st: "starved p ?s" using s by (simp_all add: serving_def starved_small)
  obtain t where t: "request_loop E (AssignTask p) (trWorkerId req) 0 ?s
      = Done (Inl (ResourceExhausted, ''No suitable tasks for this worker'')) t" "only_asked ?s t"
    using request_loop_starved [OF st] by blast
  have "only_asked s (t\<lparr>mu := unlocked\<rparr>)" using u t(2) by (rule only_asked_mu)
  moreover have "mu t = write_locked" using only_askedD [OF t(2)] by simp
  moreover have "only_asked s (?s\<lparr>mu := unlocked\<rparr>)" using u by (rule only_asked_mu) (rule only_asked_refl)
  ultimately show ?thesis
    using t(1) by (simp add: RequestTask_def with_lock_free [OF E u] Let_def unlock_held)
qed

lemma with_rlock_reads:
  assumes E: "mutex E = ops" and s: "mu s = unlocked"
    and body: "\<And>s. \<exists>r t. body s = Done r t \<and> only_asked s t"
  shows "\<exists>r t. with_rlock E body s = Done r t \<and> only_asked s t"
proof -
  let ?m = "unlocked\<lparr>rw_readers := 1\<rparr>"
  obtain r t where t: "body (s\<lparr>mu := ?m\<rparr>) = Done r t" "only_asked (s\<lparr>mu := ?m\<rparr>) t"
    using body by blast
  have "only_asked s (t\<lparr>mu := unlocked\<rparr>)" using s t(2) by (rule only_asked_mu)
  moreover have "mu t = ?m" using only_askedD [OF t(2)] by simp
  ultimately show ?thesis using t(1)
    by (simp add: with_rlock_def locked_def E s rlock_free runlock_free [simplified])
qed

lemma monitor_turn_reads:
  assumes "mutex E = ops" and "mu s = unlocked"
  shows "\<exists>r t. monitor_turn E w s = Done r t \<and> only_asked s t"
  unfolding monitor_turn_def
  by (rule with_rlock_reads [OF assms]) (auto simp: only_asked_def tick_def split: option.split)

lemma ListWorkers_reads:
  assumes "mutex E = ops" and "mu s = unlocked"
  shows "\<exists>r t. ListWorkers E s = Done r t \<and> only_asked s t"
  unfolding ListWorkers_def
  by (rule with_rlock_reads [OF assms]) (auto simp: only_asked_def tick_def)

lemma with_lock_serving:
  assumes E: "mutex E = ops" and s: "serving p s" and body: "reaches (settled p) body (settled p)"
  shows "\<exists>r t. with_lock E body s = Done r t \<and> serving p t"
proof -
  obtain r t where "body (s\<lparr>mu := write_locked\<rparr>) = Done r t" "settled p t"
    using reachesD [OF body settled_locked [OF s]] by blast
  moreover have "mu t = write_locked" using \<open>settled p t\<close> by (simp add: settled_def)
  moreover have "mu s = unlocked" using s by (simp add: serving_def)
  ultimately show ?thesis by (simp add: with_lock_free E unlock_held settled_unlock)
qed

end

lemma map_reply_Done [simp]:
  "map_reply f m = Done r t \<longleftrightarrow> (\<exists>q. m = Done q t \<and> r = f q)"
  by (cases m) auto

lemma map_reply_Stuck [simp]: "map_reply f m = Stuck t \<longleftrightarrow> m = Stuck t"
  by (cases m) auto

context nested_read_lock
begin

lemma RegisterWorker_serving:
  assumes E: "mutex E = ops" and s: "serving p s" and req: "length (rwGpus req) < 2 ^ 32"
  shows "\<exists>r t. RegisterWorker E (AssignTask p) req s = Done r t \<and> serving p t"
  unfolding RegisterWorker_def
proof (rule with_lock_serving [OF E s], rule reachesI)
  fix s r1 r2 assume s: "settled p s"
  let ?w = "assigned_id req s"
  have "\<exists>r t. returning (r2 ?w) (admit_worker E (AssignTask p) ?w req s) = Done r t \<and> settled p t"
    using s by (intro reachesD [OF reaches_returning [OF reaches_admit_worker [OF E assigned_id_nonempty req]]])
      (simp add: settled_def)
  then show "\<exists>r t. (let w = assigned_id req s in if map_of (workers s) w \<noteq> None then Done (r1 w) s
      else returning (r2 w) (admit_worker E (AssignTask p) w req s)) = Done r t \<and> settled p t"
    using s by (simp add: Let_def)
qed

lemma ReportTaskStatus_serving:
  assumes E: "mutex E = ops" and s: "serving p s"
  shows "\<exists>r t. ReportTaskStatus E (AssignTask p) u s = Done r t \<and> serving p t"
  unfolding ReportTaskStatus_def Let_def
proof (rule with_lock_serving [OF E s], rule reachesI)
  fix s e1 e2 and r1 :: "sched \<Rightarrow> grpc_error + TaskStatusResponse"
  assume s: "settled p s"
  have "\<exists>r t. returning r1 (apply_update E (AssignTask p) u a s) = Done r t \<and> settled p t" for a
    by (rule reachesD [OF reaches_returning [OF reaches_apply_update [OF E]] s])
  with s show "\<exists>r t. (case map_of (tasks s) (tuTaskId u) of
         None \<Rightarrow> Done (Inl e1) s
       | Some a \<Rightarrow> if map_of (workers s) (tuWorkerId u) = None then Done (Inl e2) s
           else returning r1 (apply_update E (AssignTask p) u a s)) = Done r t \<and> settled p t"
    by (simp split: option.split)
qed

lemma AddTask_serving:
  assumes E: "mutex E = ops" and s: "serving p s" and a: "a < heapNext s"
  shows "\<exists>r t. AddTask E (AssignTask p) a s = Done r t \<and> serving p t"
proof -
  let ?rest = "[recordTaskSubmission E, UpdatePersistentState E, assignPendingTasks E (AssignTask p)]"
  have rest: "reaches working (block ?rest) (settled p)"
    by (intro reaches_Cons reaches_last runs_small quiet_working reaches_assignPendingTasks E)
  let ?t = "s\<lparr>mu := write_locked, tasks := mput (tID (heap s a)) a (tasks s)\<rparr>"
  have u: "mu s = unlocked" and "sched_wf (s\<lparr>mu := write_locked\<rparr>)"
    using s by (simp_all add: wf_mu serving_def)
  from wf_enqueue(1) [OF this(2)] have "sched_wf ?t" using a by simp
  from wf_enqueue(2) [OF this, of a] have "working (?t\<lparr>pendingTasks := pendingTasks s @ [a]\<rparr>)"
    using a by simp
  from reachesD [OF rest this] obtain t where
    "block ?rest (?t\<lparr>pendingTasks := pendingTasks s @ [a]\<rparr>) = Done () t" "settled p t" by auto
  moreover have "mu t = write_locked" using \<open>settled p t\<close> by (simp add: settled_def)
  ultimately have "AddTask E (AssignTask p) a s = Done () (t\<lparr>mu := unlocked\<rparr>)"
    unfolding AddTask_def with_lock_free [OF E u] block_act
    by (simp add: unlock_held del: block.simps)
  with \<open>settled p t\<close> show ?thesis by (simp add: settled_unlock)
qed

lemma serve_serving:
  assumes E: "mutex E = ops" and s: "serving p s" and c: "request_ok c"
  shows "\<exists>r t. serve E p c s = Done r t \<and> serving p t"
proof -
  have u: "mu s = unlocked" using s by (simp add: serving_def)
  show ?thesis
  proof (cases c)
    case (RegisterWorkerCall req)
    then show ?thesis using RegisterWorker_serving [OF E s, of req] c by auto
  next
    case (RequestTaskCall req)
    then show ?thesis using RequestTask_starved [OF E s] serving_only_asked [OF _ s] by fastforce
  next
    case (ReportTaskStatusCall v)
    then show ?thesis using ReportTaskStatus_serving [OF E s, of v] by auto
  next
    case (MonitorTurnCall w)
    then show ?thesis using monitor_turn_reads [OF E u] serving_only_asked [OF _ s] by fastforce
  next
    case ListWorkersCall
    then show ?thesis using ListWorkers_reads [OF E u] serving_only_asked [OF _ s] by fastforce
  next
    case (AddTaskCall t)
    have "fst (alloc_task t s) < heapNext (snd (alloc_task t s))" by (simp add: alloc_task_def)
    then show ?thesis
      using AddTask_serving [OF E serving_alloc [OF s]] AddTaskCall
      by (fastforce simp: submit_task_def split_def)
  qed
qed

end

context no_nested_read_lock
begin

lemma serve_blocks_or_reads:
  assumes E: "mutex E = ops" and s: "serving p s" and c: "request_ok c"
  shows "(\<exists>r t. serve E p c s = Done r t \<and> only_asked s t) \<or> (\<exists>t. serve E p c s = Stuck t \<and> working t)"
proof -
  have u: "mu s = unlocked" and wf: "sched_wf s" using s by (simp_all add: serving_def)
  show ?thesis
  proof (cases c)
    case (RegisterWorkerCall req)
    then show ?thesis using RegisterWorker_cases [OF E u wf, of req "AssignTask p"] c
      by (auto split: if_splits)
  next
    case (RequestTaskCall req)
    then show ?thesis using RequestTask_starved [OF E s] by fastforce
  next
    case (ReportTaskStatusCall v)
    then show ?thesis using ReportTaskStatus_cases [OF E u wf, of v p]
      by (auto split: if_splits)
  next
    case (MonitorTurnCall w)
    then show ?thesis using monitor_turn_reads [OF E u] by fastforce
  next
    case ListWorkersCall
    then show ?thesis using ListWorkers_reads [OF E u] by fastforce
  next
    case (AddTaskCall t)
    have "serving p (snd (alloc_task t s))" using s by (rule serving_alloc)
    moreover have "fst (alloc_task t s) < heapNext (snd (alloc_task t s))" by (simp add: alloc_task_def)
    ultimately show ?thesis
      using AddTask_blocks [OF E, of "snd (alloc_task t s)" "fst (alloc_task t s)" "AssignTask p"] AddTaskCall
      by (auto simp: submit_task_def split_def serving_def)
  qed
qed

end

section \<open>The reachable states\<close>

lemma serving_start: "serving p (NewScheduler\<lparr>hasMetrics := b, persistenceManager := m\<rparr>)"
  by (simp add: serving_def starved_def sched_wf_def NewScheduler_def)

lemma reached_serving:
  assumes "mutex E = go_rwmutex \<or> mutex E = reentrant_rwmutex" and "reached E p s"
  shows "serving p s"
  using assms(2)
proof (induction rule: reached.induct)
  case (step s c r t)
  show ?case
  proof (cases "mutex E = reentrant_rwmutex")
    case True
    then show ?thesis using re_mutex.serve_serving [OF True step.IH step.hyps(2)] step.hyps(3) by auto
  next
    case False
    with assms(1) have "mutex E = go_rwmutex" by simp
    from go_mutex.serve_blocks_or_reads [OF this step.IH step.hyps(2)]
    show ?thesis using step serving_only_asked [OF _ step.IH] by auto
  qed
qed (rule serving_start)

lemma with_lock_wedged: "mutex E = go_rwmutex \<Longrightarrow> mu s = write_locked \<Longrightarrow> with_lock E body s = Stuck s"
  by (rule go_mutex.with_lock_held)

lemma with_rlock_wedged: "mutex E = go_rwmutex \<Longrightarrow> mu s = write_locked \<Longrightarrow> with_rlock E body s = Stuck s"
  by (simp add: with_rlock_def locked_def go_mutex.rlock_blocks)

section \<open>Properties\<close>

definition example_env :: "mutex_ops \<Rightarrow> env" where
  "example_env ops = \<lparr>mutex = ops, clock = (\<lambda>n. int n * 1000000000), orders = (\<lambda>_. ([], []))\<rparr>"

definition example_request :: RegisterWorkerRequest where
  "example_request = \<lparr>rwWorkerId = ''w1'', rwGpus = [], rwAddress = ''host''\<rparr>"

definition example_update :: TaskStatusUpdate where
  "example_update = \<lparr>tuTaskId = ''t1'', tuWorkerId = ''w1'', tuStatus = TaskStatus_COMPLETED,
     tuProgress = Fin 1, tuMessage = '''', tuMetrics = []\<rparr>"

definition example_ask :: TaskRequest where
  "example_ask = \<lparr>trWorkerId = ''w1'', trAvailableGpuIds = [], trTask = None, trPriorityInfo = []\<rparr>"

text \<open>The pieces of the example runs: a worker with some GPUs of 8 MB, tasks that need one GPU, reports.\<close>

definition example_gpu :: "string \<Rightarrow> pbGPU" where
  "example_gpu i = \<lparr>pgId = i, pgModel = ''m'', pgMemoryMb = 8, pgAvailable = True, pgCudaCores = 0,
     pgMemoryBandwidth = 0\<rparr>"

definition example_worker :: "string \<Rightarrow> string list \<Rightarrow> request" where
  "example_worker w gs = RegisterWorkerCall
     \<lparr>rwWorkerId = w, rwGpus = map example_gpu gs, rwAddress = ''host''\<rparr>"

definition example_task :: "string \<Rightarrow> request" where
  "example_task i = AddTaskCall (no_task\<lparr>tID := i, tRequiredGPUs := 1, tMinGPUMemory := 4\<rparr>)"

definition example_report :: "string \<Rightarrow> string \<Rightarrow> TaskStatus \<Rightarrow> request" where
  "example_report w i st = ReportTaskStatusCall \<lparr>tuTaskId = i, tuWorkerId = w, tuStatus = st,
     tuProgress = Fin 1, tuMessage = '''', tuMetrics = []\<rparr>"

definition example_start :: sched where
  "example_start = NewScheduler\<lparr>hasMetrics := False, persistenceManager := None\<rparr>"

definition example_run :: "(request \<Rightarrow> sched \<Rightarrow> bool) \<Rightarrow> request list \<Rightarrow> sched option" where
  "example_run chk cs = run_all chk (example_env reentrant_rwmutex) BalancedWorkloadPolicy cs example_start"

lemma example_run_reached:
  "example_run chk cs = Some s \<Longrightarrow> reached (example_env reentrant_rwmutex) BalancedWorkloadPolicy s"
  unfolding example_run_def by (erule run_all_reached) (simp add: example_start_def reached.start)

lemma example_reached: "reached E p (NewScheduler\<lparr>hasMetrics := True, persistenceManager := None\<rparr>)"
  by (rule reached.start)

lemma example_request_ok: "request_ok (RegisterWorkerCall example_request)"
  by (simp add: example_request_def)

text \<open>Once a handler has blocked on Go's mutex (whatever state was loaded before), the server is wedged: every later
  request of any kind waits for ever, and the state does not change any more.\<close>

theorem go_server_wedged:
  assumes "mutex E = go_rwmutex" and "mu s = write_locked"
  shows "\<exists>t. serve E p c s = Stuck t \<and> workers t = workers s \<and> tasks t = tasks s \<and> mu t = write_locked"
proof (cases c)
  case (AddTaskCall t)
  then show ?thesis using assms
    by (simp add: submit_task_def alloc_task_def AddTask_def with_lock_wedged)
qed (use assms in \<open>simp_all add: RegisterWorker_def RequestTask_def ReportTaskStatus_def
      monitor_turn_def ListWorkers_def with_lock_wedged with_rlock_wedged\<close>)

theorem go_server_wedged_witness:
  "\<exists>t. serve (example_env go_rwmutex) SimpleWorkloadPolicy ListWorkersCall
     (NewScheduler\<lparr>mu := write_locked\<rparr>) = Stuck t"
  using go_server_wedged [of "example_env go_rwmutex" "NewScheduler\<lparr>mu := write_locked\<rparr>"
      SimpleWorkloadPolicy ListWorkersCall]
  by (auto simp: example_env_def)

text \<open>Under Go's mutex the requests that answer add nothing, so the server stays empty, and those that add something block.\<close>

lemma go_reached_empty:
  assumes "mutex E = go_rwmutex" and "reached E p s"
  shows "workers s = [] \<and> tasks s = [] \<and> pendingTasks s = []"
  using assms(2)
proof (induction rule: reached.induct)
  case (step s c r t)
  have "serving p s" using assms(1) step.hyps(1) by (intro reached_serving) simp_all
  from go_mutex.serve_blocks_or_reads [OF assms(1) this step.hyps(2)] step.hyps(3)
  have "only_asked s t" by auto
  with step.IH show ?case by (simp add: only_askedD)
qed (simp add: NewScheduler_def)

fun adds :: "request \<Rightarrow> bool" where
  "adds (RegisterWorkerCall req) = True"
| "adds (AddTaskCall t) = True"
| "adds _ = False"

lemma adds_iff: "adds c \<longleftrightarrow> (\<exists>req. c = RegisterWorkerCall req) \<or> (\<exists>t. c = AddTaskCall t)"
  by (cases c) simp_all

lemma go_adding_blocks:
  assumes "mutex E = go_rwmutex" and "reached E p s" and "request_ok c" and "adds c"
  shows "\<exists>t. serve E p c s = Stuck t \<and> mu t = write_locked"
proof -
  note empty = go_reached_empty [OF assms(1,2)]
  have wf: "mu s = unlocked" "sched_wf s" using reached_serving [of E p s] assms(1,2) by (simp_all add: serving_def)
  consider req where "c = RegisterWorkerCall req" | task where "c = AddTaskCall task" using assms(4) adds_iff by blast
  then show ?thesis
  proof cases
    case 1
    then show ?thesis using go_mutex.RegisterWorker_cases [OF assms(1) wf, of req "AssignTask p"] assms(3) empty by auto
  next
    case 2
    then show ?thesis using go_mutex.AddTask_blocks [OF assms(1), of "snd (alloc_task task s)" "fst (alloc_task task s)"]
      wf_alloc [OF wf(2)] wf(1) by (auto simp: submit_task_def alloc_task_def)
  qed
qed

lemma go_others_answer:
  assumes "mutex E = go_rwmutex" and "reached E p s" and "request_ok c" and "\<not> adds c"
  shows "\<exists>r t. serve E p c s = Done r t"
proof -
  have s: "serving p s" by (rule reached_serving) (use assms in simp_all)
  then have wf: "mu s = unlocked" "sched_wf s" by (simp_all add: serving_def)
  show ?thesis
  proof (cases c)
    case (ReportTaskStatusCall u)
    then show ?thesis using go_mutex.ReportTaskStatus_cases [OF assms(1) wf, of u p] go_reached_empty [OF assms(1,2)] by auto
  next
    case (RequestTaskCall req)
    then show ?thesis using go_mutex.RequestTask_starved [OF assms(1) s, of req] by auto
  next
    case (MonitorTurnCall w)
    then show ?thesis using go_mutex.monitor_turn_reads [OF assms(1) wf(1), of w] by auto
  next
    case ListWorkersCall
    then show ?thesis using go_mutex.ListWorkers_reads [OF assms(1) wf(1)] by auto
  qed (use assms(4) in simp_all)
qed

text \<open>C8: Which requests a server that started without saved state answers, whatever the policy, the map orders and the
  clock. No handler panics. With Go's mutex exactly the registrations and submissions are not answered: they block with the write lock
  held, and from then on every request waits for ever. Every other request, and with a mutex that
  grants the holder of the write lock a nested read lock every request at all, is answered: afterwards the mutex is
  free and the state well formed, so the next request can be served.\<close>

theorem requests_are_answered:
  assumes "mutex E \<in> {go_rwmutex, reentrant_rwmutex}" and "reached E p s" and "request_ok c"
  shows "if mutex E = go_rwmutex \<and> adds c
         then \<exists>t. serve E p c s = Stuck t \<and> mu t = write_locked \<and> (\<forall>c'. \<exists>t'. serve E p c' t = Stuck t')
         else \<exists>r t. serve E p c s = Done r t \<and> reached E p t \<and> sched_wf t \<and> mu t = unlocked"
proof (cases "mutex E = go_rwmutex \<and> adds c")
  case True
  with go_adding_blocks [OF _ assms(2,3)] obtain t where t: "serve E p c s = Stuck t" "mu t = write_locked" by blast
  with go_server_wedged [of E t] True show ?thesis by fastforce
next
  case False
  have E: "mutex E = go_rwmutex \<or> mutex E = reentrant_rwmutex" using assms(1) by simp
  have "\<exists>r t. serve E p c s = Done r t"
  proof (cases "mutex E = go_rwmutex")
    case True
    with False show ?thesis using go_others_answer [OF _ assms(2,3)] by simp
  next
    case False
    with E have "mutex E = reentrant_rwmutex" by simp
    from re_mutex.serve_serving [OF this reached_serving [OF E assms(2)] assms(3)] show ?thesis by blast
  qed
  then obtain r t where run: "serve E p c s = Done r t" by blast
  note t = reached.step [OF assms(2,3) run]
  from reached_serving [OF E t] run t False show ?thesis by (auto simp: serving_def)
qed

theorem requests_are_answered_witness:
  "(\<exists>t. serve (example_env go_rwmutex) BalancedWorkloadPolicy (RegisterWorkerCall example_request)
       (NewScheduler\<lparr>hasMetrics := True, persistenceManager := None\<rparr>) = Stuck t
       \<and> (\<exists>t'. serve (example_env go_rwmutex) BalancedWorkloadPolicy ListWorkersCall t = Stuck t'))
   \<and> (\<exists>r t. serve (example_env reentrant_rwmutex) BalancedWorkloadPolicy (RegisterWorkerCall example_request)
       (NewScheduler\<lparr>hasMetrics := True, persistenceManager := None\<rparr>) = Done r t \<and> sched_wf t)"
proof -
  have E: "mutex (example_env go_rwmutex) = go_rwmutex" "mutex (example_env reentrant_rwmutex) = reentrant_rwmutex"
    "go_rwmutex \<noteq> reentrant_rwmutex"
    by (simp_all add: example_env_def) (metis go_mutex.rlock_blocks re_mutex.rlock_held option.distinct(1))
  have add: "adds (RegisterWorkerCall example_request)" by simp
  obtain t where t: "serve (example_env go_rwmutex) BalancedWorkloadPolicy (RegisterWorkerCall example_request)
      (NewScheduler\<lparr>hasMetrics := True, persistenceManager := None\<rparr>) = Stuck t"
    "\<forall>c'. \<exists>t'. serve (example_env go_rwmutex) BalancedWorkloadPolicy c' t = Stuck t'"
    using requests_are_answered [OF _ example_reached example_request_ok, of "example_env go_rwmutex" BalancedWorkloadPolicy]
      E(1) add by (auto simp del: serve.simps)
  moreover obtain r u where "serve (example_env reentrant_rwmutex) BalancedWorkloadPolicy (RegisterWorkerCall example_request)
      (NewScheduler\<lparr>hasMetrics := True, persistenceManager := None\<rparr>) = Done r u" "sched_wf u"
    using requests_are_answered [OF _ example_reached example_request_ok, of "example_env reentrant_rwmutex" BalancedWorkloadPolicy]
      E by (auto simp del: serve.simps)
  ultimately show ?thesis by blast
qed

text \<open>C9: With Go's \<^verbatim>\<open>sync.RWMutex\<close>, a server that started without saved state never acknowledges a worker,
  a task or a status update: as long as requests are answered at all, the server holds no worker and no
  task, and the request that would add one blocks for ever with the write lock held.\<close>

theorem go_server_stays_empty:
  assumes "mutex E = go_rwmutex" and "reached E p s"
  shows "workers s = [] \<and> tasks s = [] \<and> pendingTasks s = []
     \<and> (\<forall>c. request_ok c \<longrightarrow> (\<exists>req. c = RegisterWorkerCall req) \<or> (\<exists>t. c = AddTaskCall t) \<longrightarrow>
          (\<exists>t. serve E p c s = Stuck t \<and> mu t = write_locked))"
  using go_reached_empty [OF assms] go_adding_blocks [OF assms] unfolding adds_iff by blast

theorem go_server_stays_empty_witness:
  "\<exists>t. serve (example_env go_rwmutex) SimpleWorkloadPolicy (RegisterWorkerCall example_request)
      (NewScheduler\<lparr>hasMetrics := True, persistenceManager := None\<rparr>) = Stuck t \<and> mu t = write_locked"
proof -
  have "mutex (example_env go_rwmutex) = go_rwmutex" by (simp add: example_env_def)
  from go_server_stays_empty [OF this example_reached] example_request_ok show ?thesis by blast
qed

text \<open>C26: A status report for a known task by a known worker never returns under Go's mutex, in any well-formed
  state, for instance one loaded from the database; an unknown task or worker is answered with an error and changes nothing.\<close>

theorem go_report_blocks:
  assumes "mutex E = go_rwmutex" and "mu s = unlocked" and "sched_wf s"
  shows "if map_of (tasks s) (tuTaskId u) \<noteq> None \<and> map_of (workers s) (tuWorkerId u) \<noteq> None
         then \<exists>t. ReportTaskStatus E (AssignTask p) u s = Stuck t \<and> mu t = write_locked
         else \<exists>m. ReportTaskStatus E (AssignTask p) u s = Done (Inl (NotFound, m)) s"
proof (cases "map_of (tasks s) (tuTaskId u) \<noteq> None \<and> map_of (workers s) (tuWorkerId u) \<noteq> None")
  case True
  then show ?thesis using go_mutex.ReportTaskStatus_cases [OF assms, of u p] by auto
next
  case False
  then show ?thesis
    by (cases "map_of (tasks s) (tuTaskId u)")
       (simp_all add: ReportTaskStatus_def go_mutex.with_lock_Done [OF assms(1,2)])
qed

theorem go_report_blocks_witness:
  "\<exists>m. ReportTaskStatus (example_env go_rwmutex) (AssignTask SimpleWorkloadPolicy)
     example_update NewScheduler = Done (Inl (NotFound, m)) NewScheduler"
  using go_report_blocks [of "example_env go_rwmutex" NewScheduler example_update SimpleWorkloadPolicy]
  by (simp add: example_env_def NewScheduler_def sched_wf_def)

text \<open>C22: The starvation invariant: in every reachable state, with either mutex, no pending task can be
  placed on any registered worker by the policy in use.\<close>

theorem pending_tasks_are_unplaceable:
  assumes "mutex E = go_rwmutex \<or> mutex E = reentrant_rwmutex" and "reached E p s"
    and "a \<in> set (pendingTasks s)"
  shows "\<exists>e. AssignTask p ch (workers s) (heap s a) = Inl e"
proof -
  have "\<forall>(w, wk) \<in> set (workers s). \<not> policy_suits p (heap s a) wk"
    using reached_serving [OF assms(1,2)] assms(3) by (simp add: serving_def starved_def)
  then show ?thesis by (simp add: pol.assign_fails_iff)
qed

definition crowded :: "request list" where
  "crowded = [example_worker ''w1'' [''g0''], example_task ''a'', example_task ''b'']"

theorem pending_tasks_are_unplaceable_witness:
  "\<exists>s. example_run (\<lambda>_ _. True) crowded = Some s \<and> pendingTasks s = [1]
     \<and> (\<exists>e. AssignTask BalancedWorkloadPolicy ([], []) (workers s) (heap s 1) = Inl e)"
proof -
  have "map_option pendingTasks (example_run (\<lambda>_ _. True) crowded) = Some [1]" by code_simp
  then obtain s where s: "example_run (\<lambda>_ _. True) crowded = Some s" "pendingTasks s = [1]" by auto
  have "mutex (example_env reentrant_rwmutex) = reentrant_rwmutex" by (simp add: example_env_def)
  from pending_tasks_are_unplaceable [OF disjI2 [OF this] example_run_reached [OF s(1)], of 1 "([], [])"] s
  show ?thesis by simp
qed

text \<open>C2: Consequently \<^verbatim>\<open>RequestTask\<close>, the only way a worker gets a task, never returns one: in every
  reachable state it answers every worker with an error and leaves workers, tasks, queue and heap as they are.\<close>

theorem no_task_is_ever_handed_out:
  assumes "mutex E = go_rwmutex \<or> mutex E = reentrant_rwmutex" and "reached E p s"
  shows "\<exists>e t. RequestTask E (AssignTask p) req s = Done (Inl e) t \<and> workers t = workers s
           \<and> tasks t = tasks s \<and> pendingTasks t = pendingTasks s \<and> heap t = heap s"
proof -
  have s: "serving p s" by (rule reached_serving [OF assms])
  from assms(1) show ?thesis
  proof
    assume "mutex E = go_rwmutex"
    from go_mutex.RequestTask_starved [OF this s, of req] show ?thesis by (auto simp: only_askedD)
  next
    assume "mutex E = reentrant_rwmutex"
    from re_mutex.RequestTask_starved [OF this s, of req] show ?thesis by (auto simp: only_askedD)
  qed
qed

theorem no_task_is_ever_handed_out_witness:
  "\<exists>e t. RequestTask (example_env go_rwmutex) (AssignTask BalancedWorkloadPolicy) example_ask
     (NewScheduler\<lparr>hasMetrics := True, persistenceManager := None\<rparr>) = Done (Inl e) t \<and> workers t = []"
  using no_task_is_ever_handed_out [OF _ example_reached, of "example_env go_rwmutex" BalancedWorkloadPolicy
      example_ask]
  by (auto simp: example_env_def NewScheduler_def)

text \<open>The empty string is never a worker's id.\<close>

lemma unnamed_request_refused:
  assumes "mutex E = go_rwmutex \<or> mutex E = reentrant_rwmutex" and "reached E p s"
    and "trWorkerId req = ''''"
  shows "RequestTask E (AssignTask p) req s = Done (Inl (NotFound, ''Worker not registered: '')) s"
proof -
  have wf: "sched_wf s" "mu s = unlocked"
    using reached_serving [OF assms(1,2)] by (simp_all add: serving_def)
  have none: "map_of (workers s) '''' = None"
    using wf_worker [OF wf(1), of "''''"] by (cases "map_of (workers s) ''''") (simp_all add: worker_ok_def)
  from assms(1) show ?thesis
  proof
    assume "mutex E = go_rwmutex"
    then show ?thesis unfolding RequestTask_def
      by (rule go_mutex.with_lock_Done [OF _ wf(2)]) (simp add: none assms(3))
  next
    assume "mutex E = reentrant_rwmutex"
    then show ?thesis unfolding RequestTask_def
      by (rule re_mutex.with_lock_Done [OF _ wf(2)]) (simp add: none assms(3))
  qed
qed

end
