(* ===== verification/SchedGPU.thy ===== *)
theory SchedGPU
  imports SchedProtocol
begin

text \<open>
  Who holds which GPU. As long as every terminal report comes from the worker that holds the task, no GPU
  is given to two tasks of a worker's task map and none that is given to a task is marked available.
  Without that discipline of the clients, which the scheduler does not check, both fail.
\<close>

section \<open>The accounting invariant\<close>

text \<open>The tasks \<open>k\<close> of worker \<open>w\<close> with their GPUs taken, and no GPU with two tasks; \<open>K\<close> are tasks left out.\<close>

definition holds_gpus :: "string set \<Rightarrow> sched \<Rightarrow> string \<Rightarrow> Worker \<Rightarrow> bool" where
  "holds_gpus K s w wk \<longleftrightarrow>
     (\<forall>k a. map_of (wTasks wk) k = Some a \<longrightarrow> k \<notin> K \<longrightarrow>
        tWorkerID (heap s a) = w
        \<and> (\<forall>g \<in> set (wGPUs wk). gID g \<in> set (tAssignedGPUs (heap s a)) \<longrightarrow> \<not> gAvailable g)
        \<and> (\<forall>k' a'. map_of (wTasks wk) k' = Some a' \<longrightarrow> k' \<noteq> k \<longrightarrow>
              set (tAssignedGPUs (heap s a)) \<inter> set (tAssignedGPUs (heap s a')) = {}))"

definition exclusive :: "sched \<Rightarrow> bool" where
  "exclusive s \<longleftrightarrow> distinct (pendingTasks s)
     \<and> (\<forall>w wk. map_of (workers s) w = Some wk \<longrightarrow> holds_gpus {} s w wk
          \<and> (\<forall>k a. map_of (wTasks wk) k = Some a \<longrightarrow> a \<notin> set (pendingTasks s)))"

definition accounted :: "sched \<Rightarrow> bool" where
  "accounted s \<longleftrightarrow> sched_wf s \<and> exclusive s"

lemma holds_gpus_cong:
  assumes "\<And>k a. map_of (wTasks wk) k = Some a \<Longrightarrow> tWorkerID (heap t a) = tWorkerID (heap s a)
                   \<and> tAssignedGPUs (heap t a) = tAssignedGPUs (heap s a)"
  shows "holds_gpus K t w wk = holds_gpus K s w wk"
  unfolding holds_gpus_def using assms by (auto 0 4) 

lemma exclusive_cong:
  assumes "exclusive s" and "workers t = workers s" and "pendingTasks t = pendingTasks s"
    and "\<And>a. tWorkerID (heap t a) = tWorkerID (heap s a) \<and> tAssignedGPUs (heap t a) = tAssignedGPUs (heap s a)"
  shows "exclusive t"
proof -
  have "holds_gpus {} t w wk = holds_gpus {} s w wk" for w wk
    using assms(4) by (intro holds_gpus_cong) simp
  with assms(1-3) show ?thesis by (simp add: exclusive_def)
qed

lemma insensitive_accounted: "insensitive accounted"
proof -
  have "exclusive (s\<lparr>mu := m\<rparr>) = exclusive s" for s m
    by (simp add: exclusive_def holds_gpus_def)
  moreover have "exclusive s \<Longrightarrow> exclusive (record_call c s)" for s c
    by (erule exclusive_cong) (simp_all add: sched_frame)
  moreover have "exclusive s \<Longrightarrow> exclusive (tick s)" for s
    by (erule exclusive_cong) (simp_all add: sched_frame)
  moreover have "exclusive s \<Longrightarrow> exclusive (request_save s)" for s
    by (erule exclusive_cong) (simp_all add: sched_frame)
  ultimately show ?thesis
    by (simp add: insensitive_def accounted_def wf_mu wf_record_call wf_tick wf_request_save)
qed

section \<open>Placing a task\<close>

lemma set_available_False:
  "g \<in> set (set_available False ids gpus) \<Longrightarrow>
     \<exists>g0 \<in> set gpus. gID g0 = gID g \<and> (gAvailable g \<longrightarrow> gAvailable g0 \<and> gID g \<notin> set ids)"
  by (auto simp: set_available_map split: if_splits)

lemma set_available_True:
  "g \<in> set (set_available True ids gpus) \<Longrightarrow>
     \<exists>g0 \<in> set gpus. gID g0 = gID g \<and> (gAvailable g \<longrightarrow> gAvailable g0 \<or> gID g \<in> set ids)"
  by (auto simp: set_available_map split: if_splits)

lemma remaining_pending:
  assumes "distinct q" and "i < length q"
  shows "distinct (take i q @ drop (Suc i) q)" and "q ! i \<notin> set (take i q @ drop (Suc i) q)"
    and "set (take i q @ drop (Suc i) q) \<subseteq> set q"
proof -
  have "distinct (take i q @ q ! i # drop (Suc i) q)"
    using assms by (simp add: id_take_nth_drop [symmetric])
  then show "distinct (take i q @ drop (Suc i) q)" "q ! i \<notin> set (take i q @ drop (Suc i) q)" by auto
  show "set (take i q @ drop (Suc i) q) \<subseteq> set q" by (auto dest: in_set_takeD in_set_dropD)
qed

text \<open>The worker that takes a task, with GPUs that were free.\<close>

lemma holds_gpus_occupy:
  assumes old: "holds_gpus {} s w wk"
    and free: "set gs \<subseteq> set (free_ids (wGPUs wk))"
    and new: "tWorkerID (heap t a) = w" "tAssignedGPUs (heap t a) = gs"
    and same: "\<And>k b. map_of (wTasks wk) k = Some b \<Longrightarrow> heap t b = heap s b"
  shows "holds_gpus {} t w (occupy k0 a gs wk)"
proof -
  have apart: "set (tAssignedGPUs (heap s b)) \<inter> set gs = {}" if b: "map_of (wTasks wk) k = Some b" for k b
  proof (rule ccontr)
    assume "set (tAssignedGPUs (heap s b)) \<inter> set gs \<noteq> {}"
    then obtain x where x: "x \<in> set (tAssignedGPUs (heap s b))" "x \<in> set (free_ids (wGPUs wk))"
      using free by blast
    then obtain g where "g \<in> set (wGPUs wk)" "gID g = x" "gAvailable g" by (auto simp: free_ids_def)
    then show False using old b x(1) unfolding holds_gpus_def by blast
  qed
  show ?thesis
    unfolding holds_gpus_def
  proof (intro allI impI conjI ballI)
    fix k b assume b: "map_of (wTasks (occupy k0 a gs wk)) k = Some b"
    show "tWorkerID (heap t b) = w"
      using b new same old by (auto simp: holds_gpus_def split: if_splits)
    {
      fix g assume g: "g \<in> set (wGPUs (occupy k0 a gs wk))" "gID g \<in> set (tAssignedGPUs (heap t b))"
      obtain g0 where g0: "g0 \<in> set (wGPUs wk)" "gID g0 = gID g"
          "gAvailable g \<Longrightarrow> gAvailable g0 \<and> gID g \<notin> set gs"
        using set_available_False [of g gs "wGPUs wk"] g(1) by auto
      show "\<not> gAvailable g"
      proof (cases "k = k0")
        case True
        with b have "b = a" by simp
        with g(2) new g0(3) show ?thesis by auto
      next
        case False
        with b have m: "map_of (wTasks wk) k = Some b" by simp
        with g(2) same have "gID g0 \<in> set (tAssignedGPUs (heap s b))" using g0(2) by simp
        then have "\<not> gAvailable g0" using old m g0(1) unfolding holds_gpus_def by blast
        with g0(3) show ?thesis by blast
      qed
    next
      fix k' b' assume b': "map_of (wTasks (occupy k0 a gs wk)) k' = Some b'" "k' \<noteq> k"
      show "set (tAssignedGPUs (heap t b)) \<inter> set (tAssignedGPUs (heap t b')) = {}"
      proof (cases "k = k0 \<or> k' = k0")
        case True
        then consider "b = a" "map_of (wTasks wk) k' = Some b'" | "b' = a" "map_of (wTasks wk) k = Some b"
          using b b' by (auto split: if_splits)
        then show ?thesis
        proof cases
          case 1
          then show ?thesis using apart [OF 1(2)] same [OF 1(2)] new by (simp add: Int_commute)
        next
          case 2
          then show ?thesis using apart [OF 2(2)] same [OF 2(2)] new by simp
        qed
      next
        case False
        then have m: "map_of (wTasks wk) k = Some b" "map_of (wTasks wk) k' = Some b'" using b b' by auto
        have "set (tAssignedGPUs (heap s b)) \<inter> set (tAssignedGPUs (heap s b')) = {}"
          using old m b'(2) unfolding holds_gpus_def by blast
        then show ?thesis using same m by simp
      qed
    }
  qed
qed

lemma accounted_place_on:
  assumes acc: "accounted s" and i: "i < length (pendingTasks s)" and a: "a = pendingTasks s ! i"
    and m: "map_of (workers s) w = Some wk" and free: "set gs \<subseteq> set (free_ids (wGPUs wk))"
  shows "accounted (place_on i a w gs (tick (start_task E a w gs s)))"
proof -
  let ?t = "place_on i a w gs (tick (start_task E a w gs s))"
  have wf: "sched_wf s" and ex: "exclusive s" using acc by (simp_all add: accounted_def)
  have "a < heapNext s" using wf i a by (simp add: wf_pending_bound)
  then have "sched_wf ?t"
    using wf by (intro wf_place_on wf_tick wf_start_task) (simp_all add: sched_frame)
  moreover have "exclusive ?t"
  proof -
    have q: "pendingTasks ?t = take i (pendingTasks s) @ drop (Suc i) (pendingTasks s)"
      by (simp add: place_on_def)
    have d: "distinct (pendingTasks s)" using ex by (simp add: exclusive_def)
    note rem = remaining_pending [OF d i, folded q a]
    have new: "tWorkerID (heap ?t a) = w" "tAssignedGPUs (heap ?t a) = gs"
      by (simp_all add: place_on_def sched_frame)
    have same: "heap ?t b = heap s b" if "b \<noteq> a" for b
      using that by (simp add: place_on_def sched_frame)
    have apart: "b \<noteq> a" if "map_of (workers s) v = Some vk" "map_of (wTasks vk) k = Some b" for v vk k b
      using ex that i a unfolding exclusive_def by (metis nth_mem)
    have "holds_gpus {} ?t v vk \<and> (\<forall>k b. map_of (wTasks vk) k = Some b \<longrightarrow> b \<notin> set (pendingTasks ?t))"
      if v: "map_of (workers ?t) v = Some vk" for v vk
    proof (cases "v = w")
      case True
      with v m have vk: "vk = occupy (tID (heap s a)) a gs wk" by (simp add: map_of_place_on sched_frame)
      have "holds_gpus {} s w wk" using ex m by (simp add: exclusive_def)
      then have "holds_gpus {} ?t w vk"
        unfolding vk using free new same apart [OF m] by (intro holds_gpus_occupy) blast+
      moreover have "b \<notin> set (pendingTasks ?t)" if b: "map_of (wTasks vk) k = Some b" for k b
      proof (cases "k = tID (heap s a)")
        case True
        with b vk have "b = a" by simp
        then show ?thesis using rem(2) by simp
      next
        case False
        with b vk have "map_of (wTasks wk) k = Some b" by simp
        then have "b \<notin> set (pendingTasks s)" using ex m unfolding exclusive_def by blast
        then show ?thesis using rem(3) by blast
      qed
      ultimately show ?thesis using True by blast
    next
      case False
      with v have vk: "map_of (workers s) v = Some vk" by (simp add: map_of_place_on sched_frame)
      have "holds_gpus {} ?t v vk = holds_gpus {} s v vk"
        using apart [OF vk] same by (intro holds_gpus_cong) metis
      then show ?thesis using ex vk rem(3) unfolding exclusive_def by blast
    qed
    with rem(1) show ?thesis unfolding exclusive_def by blast
  qed
  ultimately show ?thesis by (simp add: accounted_def)
qed

lemma keeps_accounted_assign: "keeps accounted (assignPendingTasks E (AssignTask p))"
proof (rule pol.keeps_assignPendingTasks [OF insensitive_accounted])
  fix i s a w wk gs
  assume *: "accounted s" "i < length (pendingTasks s)" "a = pendingTasks s ! i" "map_of (workers s) w = Some wk"
  assume "gs = take (unat (tRequiredGPUs (heap s a))) (collect_gpus (heap s a) (wGPUs wk))"
  then have "set gs \<subseteq> set (free_ids (wGPUs wk))"
    using set_take_subset set_collect_gpus_free by fast
  with * show "accounted (place_on i a w gs (tick (start_task E a w gs s)))"
    by (rule accounted_place_on)
qed (simp add: accounted_def wf_map_ok)

section \<open>Releasing the GPUs of a finished task\<close>

definition held_by :: "string \<Rightarrow> string \<Rightarrow> task_addr \<Rightarrow> sched \<Rightarrow> bool" where
  "held_by w k a s \<longleftrightarrow>
     (case map_of (workers s) w of None \<Rightarrow> False | Some wk \<Rightarrow> map_of (wTasks wk) k = Some a)"

lemma held_by_iff: "held_by w k a s \<longleftrightarrow> (\<exists>wk. map_of (workers s) w = Some wk \<and> map_of (wTasks wk) k = Some a)"
  by (simp add: held_by_def split: option.split)

definition release :: "string \<Rightarrow> string \<Rightarrow> task_addr \<Rightarrow> sched \<Rightarrow> sched" where
  "release w k a s = modify_worker w (\<lambda>wk. wk\<lparr>wTasks := mdel k (wTasks wk)\<rparr>)
     (modify_worker w (\<lambda>wk. wk\<lparr>wGPUs := set_available True (tAssignedGPUs (heap s a)) (wGPUs wk)\<rparr>) s)"

lemma release_frame [sched_frame]:
  "pendingTasks (release w k a s) = pendingTasks s"
  "heap (release w k a s) = heap s"
  "map_of (workers (release w k a s)) = (map_of (workers s))(w := map_option
     (\<lambda>wk. wk\<lparr>wGPUs := set_available True (tAssignedGPUs (heap s a)) (wGPUs wk),
              wTasks := mdel k (wTasks wk)\<rparr>) (map_of (workers s) w))"
  by (auto simp: release_def sched_frame option.map_comp o_def)

lemma holds_gpus_release:
  assumes old: "holds_gpus {} s w wk" and k: "map_of (wTasks wk) k = Some a"
  shows "holds_gpus {} s w (wk\<lparr>wGPUs := set_available True (tAssignedGPUs (heap s a)) (wGPUs wk),
           wTasks := mdel k (wTasks wk)\<rparr>)"
  unfolding holds_gpus_def
proof (intro allI impI conjI ballI)
  let ?wk = "wk\<lparr>wGPUs := set_available True (tAssignedGPUs (heap s a)) (wGPUs wk),
           wTasks := mdel k (wTasks wk)\<rparr>"
  fix k1 b assume "map_of (wTasks ?wk) k1 = Some b"
  then have b: "map_of (wTasks wk) k1 = Some b" "k1 \<noteq> k" by (auto split: if_splits)
  then show "tWorkerID (heap s b) = w" using old unfolding holds_gpus_def by blast
  {
    fix g assume g: "g \<in> set (wGPUs ?wk)" "gID g \<in> set (tAssignedGPUs (heap s b))"
    obtain g0 where g0: "g0 \<in> set (wGPUs wk)" "gID g0 = gID g"
        "gAvailable g \<Longrightarrow> gAvailable g0 \<or> gID g \<in> set (tAssignedGPUs (heap s a))"
      using set_available_True [of g "tAssignedGPUs (heap s a)" "wGPUs wk"] g(1) by auto
    have "set (tAssignedGPUs (heap s b)) \<inter> set (tAssignedGPUs (heap s a)) = {}"
      using old b k unfolding holds_gpus_def by blast
    moreover have "\<not> gAvailable g0" using old b(1) g0(1,2) g(2) unfolding holds_gpus_def by force
    ultimately show "\<not> gAvailable g" using g0(3) g(2) by blast
  next
    fix k' b' assume "map_of (wTasks ?wk) k' = Some b'" "k' \<noteq> k1"
    then have "map_of (wTasks wk) k' = Some b'" by (auto split: if_splits)
    then show "set (tAssignedGPUs (heap s b)) \<inter> set (tAssignedGPUs (heap s b')) = {}"
      using old b(1) \<open>k' \<noteq> k1\<close> unfolding holds_gpus_def by blast
  }
qed

lemma accounted_release:
  assumes acc: "accounted s" and held: "held_by w k a s"
  shows "accounted (release w k a s)"
proof -
  obtain wk where m: "map_of (workers s) w = Some wk" and k: "map_of (wTasks wk) k = Some a"
    using held by (auto simp: held_by_iff)
  have ex: "exclusive s" using acc by (simp add: accounted_def)
  have "sched_wf (release w k a s)"
    using acc unfolding release_def accounted_def
    by (intro wf_modify_worker worker_ok_fields) (simp_all add: sched_frame worker_ok_fields wf_modify_worker)
  moreover have "holds_gpus {} (release w k a s) v vk
      \<and> (\<forall>k1 b. map_of (wTasks vk) k1 = Some b \<longrightarrow> b \<notin> set (pendingTasks s))"
    if v: "map_of (workers (release w k a s)) v = Some vk" for v vk
  proof -
    have cong: "holds_gpus {} (release w k a s) v vk = holds_gpus {} s v vk"
      by (rule holds_gpus_cong) (simp add: sched_frame)
    show ?thesis
    proof (cases "v = w")
      case True
      with v m have vk: "vk = wk\<lparr>wGPUs := set_available True (tAssignedGPUs (heap s a)) (wGPUs wk),
          wTasks := mdel k (wTasks wk)\<rparr>" by (simp add: sched_frame)
      have old: "holds_gpus {} s w wk" using ex m by (simp add: exclusive_def)
      have sub: "map_of (wTasks wk) k1 = Some b" if "map_of (wTasks vk) k1 = Some b" for k1 b
        using that unfolding vk by (auto split: if_splits)
      have "holds_gpus {} s w vk" unfolding vk by (rule holds_gpus_release [OF old k])
      moreover have "b \<notin> set (pendingTasks s)" if "map_of (wTasks vk) k1 = Some b" for k1 b
        using ex m sub [OF that] unfolding exclusive_def by blast
      ultimately show ?thesis using True cong by blast
    next
      case False
      with v have "map_of (workers s) v = Some vk" by (simp add: sched_frame)
      then show ?thesis using ex unfolding cong exclusive_def by blast
    qed
  qed
  ultimately show ?thesis
    using ex unfolding accounted_def exclusive_def by (simp add: sched_frame)
qed

section \<open>Requests that follow the protocol\<close>

text \<open>A terminal report comes from the worker whose task map holds the reported task.\<close>

fun conforming :: "request \<Rightarrow> sched \<Rightarrow> bool" where
  "conforming (ReportTaskStatusCall u) s \<longleftrightarrow>
     (terminal (tuStatus u) \<longrightarrow>
       (case map_of (tasks s) (tuTaskId u) of
          None \<Rightarrow> True
        | Some a \<Rightarrow> map_of (workers s) (tuWorkerId u) \<noteq> None \<longrightarrow> held_by (tuWorkerId u) (tuTaskId u) a s))"
| "conforming _ s \<longleftrightarrow> True"

inductive conforming_run :: "env \<Rightarrow> WorkloadPolicy \<Rightarrow> sched \<Rightarrow> bool" for E p where
  start: "conforming_run E p (NewScheduler\<lparr>hasMetrics := b, persistenceManager := m\<rparr>)"
| step: "conforming_run E p s \<Longrightarrow> request_ok c \<Longrightarrow> conforming c s \<Longrightarrow> serve E p c s = Done r t \<Longrightarrow>
           conforming_run E p t"

lemma conforming_reached: "conforming_run E p s \<Longrightarrow> reached E p s"
  by (induction rule: conforming_run.induct) (auto intro: reached.intros)

lemma keeps_accounted_idle: "keeps accounted (idle_if_no_tasks E w)"
proof (rule keepsI)
  fix s assume s: "accounted s"
  have "accounted (modify_worker w (\<lambda>wk. wk\<lparr>wStatus := st\<rparr>) s)" if "accounted s" for st s
  proof -
    let ?t = "modify_worker w (\<lambda>wk. wk\<lparr>wStatus := st\<rparr>) s"
    have ex: "exclusive s" and "sched_wf ?t"
      using that by (simp_all add: accounted_def wf_modify_worker worker_ok_fields)
    moreover have "exclusive ?t"
    proof -
      have "holds_gpus {} ?t v vk \<and> (\<forall>k a. map_of (wTasks vk) k = Some a \<longrightarrow> a \<notin> set (pendingTasks s))"
        if v: "map_of (workers ?t) v = Some vk" for v vk
      proof -
        obtain wk where "map_of (workers s) v = Some wk" "wTasks vk = wTasks wk" "wGPUs vk = wGPUs wk"
          using v by (cases "v = w") (auto simp: sched_frame)
        then show ?thesis using ex unfolding exclusive_def holds_gpus_def by (simp add: sched_frame)
      qed
      then show ?thesis using ex by (simp add: exclusive_def)
    qed
    ultimately show ?thesis by (simp add: accounted_def)
  qed
  then have "keeps accounted (block [act (modify_worker w (\<lambda>wk. wk\<lparr>wStatus := WorkerStatus_IDLE\<rparr>)),
                  recordWorkerStatusChange E])"
    by (intro keeps_intros keeps_act keeps_small insensitive_accounted)
  from keepsD [OF this s] s show "accounted (final_state (idle_if_no_tasks E w s))"
    unfolding idle_if_no_tasks_def by (simp split: option.split del: block.simps)
qed

lemma block_act_act: "block (act f # act g # fs) = block (act (\<lambda>s. g (f s)) # fs)"
  by (rule ext) (simp add: act_def)

lemma accounted_finish_task:
  assumes "accounted s" and "held_by w k a s"
  shows "accounted (final_state (finish_task E (AssignTask p) k w a s))"
proof -
  have ins: "insensitive (\<lambda>s. accounted s \<and> held_by w k a s)"
    using insensitive_accounted by (simp add: insensitive_def held_by_iff sched_frame)
  have rest: "keeps accounted (block [idle_if_no_tasks E w, assignPendingTasks E (AssignTask p)])"
    by (intro keeps_intros keeps_accounted_idle keeps_accounted_assign)
  have fin: "finish_task E (AssignTask p) k w a = block [recordTaskCompletion E a, act (release w k a),
      idle_if_no_tasks E w, assignPendingTasks E (AssignTask p)]"
    unfolding finish_task_def release_def block.simps(2) [of "recordTaskCompletion E a"] block_act_act by simp
  have s': "accounted (final_state (recordTaskCompletion E a s)) \<and> held_by w k a (final_state (recordTaskCompletion E a s))"
    using keepsD [OF keeps_recordTaskCompletion [OF ins]] assms by blast
  show ?thesis
  proof (cases "recordTaskCompletion E a s")
    case (Done r t)
    then have "accounted (release w k a t)" using s' accounted_release by simp
    from keepsD [OF rest this] show ?thesis using Done by (simp add: fin act_def)
  qed (use s' in \<open>simp_all add: fin\<close>)
qed

lemma accounted_only_asked: "only_asked s t \<Longrightarrow> accounted s \<Longrightarrow> accounted t"
  unfolding accounted_def
  by (auto intro: wf_only_asked elim!: exclusive_cong simp: only_askedD)

lemma accounted_mu: "accounted (s\<lparr>mu := m\<rparr>) = accounted s"
  by (rule insensitiveD(1) [OF insensitive_accounted])

lemma accounted_add_worker:
  assumes "accounted s" and "w \<noteq> ''''" and "length (rwGpus req) < 2 ^ 32"
  shows "accounted (s\<lparr>workers := mput w (new_worker w req) (workers s)\<rparr>)"
proof -
  have same: "holds_gpus {} (s\<lparr>workers := ws\<rparr>) v vk = holds_gpus {} s v vk" for ws v vk
    by (simp add: holds_gpus_def)
  have "holds_gpus {} s v (new_worker v req) \<and> wTasks (new_worker v req) = []" for v
    by (simp add: holds_gpus_def new_worker_def)
  with assms show ?thesis
    by (auto simp: accounted_def exclusive_def same wf_add_worker split: if_splits)
qed

lemma keeps_accounted_admit:
  assumes "w \<noteq> ''''" and "length (rwGpus req) < 2 ^ 32"
  shows "keeps accounted (admit_worker E (AssignTask p) w req)"
  unfolding admit_worker_def
  by (intro keeps_intros keeps_act keeps_small insensitive_accounted keeps_accounted_assign
      accounted_add_worker assms)

lemma keeps_accounted_RegisterWorker:
  assumes "length (rwGpus req) < 2 ^ 32"
  shows "keeps accounted (RegisterWorker E (AssignTask p) req)"
  unfolding RegisterWorker_def
proof (rule keeps_with_lock [OF accounted_mu], rule keepsI)
  fix s r1 r2 assume s: "accounted s"
  note adm = keepsD [OF keeps_accounted_admit [OF assigned_id_nonempty [of req s] assms] s]
  show "accounted (final_state (let w = assigned_id req s in
      if map_of (workers s) w \<noteq> None then Done (r1 w) s
      else returning (r2 w) (admit_worker E (AssignTask p) w req s)))"
    using s adm by (simp add: Let_def)
qed

lemma accounted_apply_update:
  assumes s: "accounted s" and held: "terminal (tuStatus u) \<Longrightarrow> held_by (tuWorkerId u) (tuTaskId u) a s"
  shows "accounted (final_state (apply_update E (AssignTask p) u a s))"
proof -
  let ?s = "modify_task a (\<lambda>t. t\<lparr>tStatus := tuStatus u, tProgress := tuProgress u,
                                  tMetrics := tuMetrics u\<rparr>) s"
  have "exclusive ?s"
    using s unfolding accounted_def by (elim conjE exclusive_cong) (simp_all add: sched_frame)
  then have s': "accounted ?s" using s by (simp add: accounted_def wf_set_task)
  have upd: "keeps accounted (block [UpdatePersistentState E])"
    by (intro keeps_intros keeps_small insensitive_accounted)
  show ?thesis
  proof (cases "terminal (tuStatus u)")
    case True
    have "held_by (tuWorkerId u) (tuTaskId u) a ?s"
      using held [OF True] by (simp add: held_by_iff sched_frame)
    note fin = accounted_finish_task [OF s' this]
    show ?thesis
    proof (cases "finish_task E (AssignTask p) (tuTaskId u) (tuWorkerId u) a ?s")
      case (Done r t)
      then show ?thesis using keepsD [OF upd, of t] fin [of E p] True
        by (simp add: apply_update_def act_def)
    qed (use fin [of E p] True in \<open>simp_all add: apply_update_def act_def\<close>)
  qed (use keepsD [OF upd s'] in \<open>simp add: apply_update_def act_def\<close>)
qed

lemma accounted_ReportTaskStatus:
  assumes s: "accounted s" and c: "conforming (ReportTaskStatusCall u) s"
  shows "accounted (final_state (ReportTaskStatus E (AssignTask p) u s))"
  unfolding ReportTaskStatus_def Let_def with_lock_def
proof (rule final_state_locked [where P = accounted, OF accounted_mu s])
  fix m and e1 e2 and r :: "sched \<Rightarrow> grpc_error + TaskStatusResponse"
  let ?s = "s\<lparr>mu := m\<rparr>"
  have "accounted ?s" using s by (simp only: accounted_mu)
  moreover have "terminal (tuStatus u) \<Longrightarrow> held_by (tuWorkerId u) (tuTaskId u) a ?s"
    if "map_of (tasks s) (tuTaskId u) = Some a" "map_of (workers s) (tuWorkerId u) \<noteq> None" for a
    using c that by (auto simp: held_by_iff)
  ultimately show "accounted (final_state (case map_of (tasks ?s) (tuTaskId u) of
         None \<Rightarrow> Done (Inl e1) ?s
       | Some a \<Rightarrow> if map_of (workers ?s) (tuWorkerId u) = None then Done (Inl e2) ?s
           else returning r (apply_update E (AssignTask p) u a ?s)))"
    by (auto split: option.split intro!: accounted_apply_update)
qed

lemma accounted_submit:
  assumes "accounted s" shows "accounted (final_state (submit_task E (AssignTask p) t s))"
proof -
  define a where "a = heapNext s"
  define s0 where "s0 = s\<lparr>heap := (heap s)(a := t), heapNext := Suc a\<rparr>"
  have wf: "sched_wf s" and ex: "exclusive s" using assms by (simp_all add: accounted_def)
  have old: "b < a" if "b \<in> set (pendingTasks s)" for b
    using wf that by (simp add: sched_wf_def a_def)
  have oldw: "b < a" if "map_of (workers s) w = Some wk" "map_of (wTasks wk) k = Some b" for w wk k b
    using wf_worker [OF wf that(1)] that(2) by (simp add: worker_ok_def a_def)
  have s0: "sched_wf s0" using wf_alloc [OF wf, of t] by (simp add: alloc_task_def s0_def a_def)
  have "accounted (s0\<lparr>mu := m, tasks := mput (tID t) a (tasks s), pendingTasks := pendingTasks s @ [a]\<rparr>)" for m
  proof -
    let ?t = "s0\<lparr>mu := m, tasks := mput (tID t) a (tasks s), pendingTasks := pendingTasks s @ [a]\<rparr>"
    have "sched_wf (s0\<lparr>mu := m\<rparr>)" using s0 by (simp add: wf_mu)
    from wf_enqueue [OF this, of a]
    have "sched_wf (s0\<lparr>mu := m, tasks := mput (tID t) a (tasks s0)\<rparr>)"
      by (simp add: s0_def)
    from wf_enqueue(2) [OF this, of a] have "sched_wf ?t" by (simp add: s0_def)
    moreover have "exclusive ?t"
    proof -
      have "holds_gpus {} ?t w wk \<and> (\<forall>k b. map_of (wTasks wk) k = Some b \<longrightarrow> b \<notin> set (pendingTasks ?t))"
        if w: "map_of (workers s) w = Some wk" for w wk
      proof -
        have "holds_gpus {} ?t w wk = holds_gpus {} s w wk"
          using oldw [OF w] by (intro holds_gpus_cong) (auto simp: s0_def)
        moreover have "b \<notin> set (pendingTasks ?t)" if "map_of (wTasks wk) k = Some b" for k b
          using ex w oldw [OF w that] that unfolding exclusive_def by auto
        ultimately show ?thesis using ex w unfolding exclusive_def by blast
      qed
      moreover have "distinct (pendingTasks ?t)" using ex old by (auto simp: exclusive_def)
      ultimately show ?thesis unfolding exclusive_def by (simp add: s0_def)
    qed
    ultimately show ?thesis by (simp add: accounted_def)
  qed
  note enq = this
  have rest: "keeps accounted (block [recordTaskSubmission E, UpdatePersistentState E,
      assignPendingTasks E (AssignTask p)])"
    by (intro keeps_intros keeps_small insensitive_accounted keeps_accounted_assign)
  have "accounted s0"
  proof -
    have "holds_gpus {} s0 w wk" if w: "map_of (workers s) w = Some wk" for w wk
    proof -
      have "holds_gpus {} s0 w wk = holds_gpus {} s w wk"
        using oldw [OF w] by (intro holds_gpus_cong) (auto simp: s0_def)
      then show ?thesis using ex w by (simp add: exclusive_def)
    qed
    then have "exclusive s0" using ex unfolding exclusive_def by (simp add: s0_def)
    with s0 show ?thesis by (simp add: accounted_def)
  qed
  then have "accounted (final_state (AddTask E (AssignTask p) a s0))"
    unfolding AddTask_def with_lock_def
  proof (rule final_state_locked [where P = accounted, OF accounted_mu])
    fix m
    have st: "s0\<lparr>mu := m, tasks := mput (tID (heap s0 a)) a (tasks s0), pendingTasks := pendingTasks s0 @ [a]\<rparr>
      = s0\<lparr>mu := m, tasks := mput (tID t) a (tasks s), pendingTasks := pendingTasks s @ [a]\<rparr>"
      by (simp add: s0_def)
    from keepsD [OF rest enq [of m]]
    show "accounted (final_state (block [act (\<lambda>s. s\<lparr>tasks := mput (tID (heap s a)) a (tasks s)\<rparr>),
          act (\<lambda>s. s\<lparr>pendingTasks := pendingTasks s @ [a]\<rparr>), recordTaskSubmission E,
          UpdatePersistentState E, assignPendingTasks E (AssignTask p)] (s0\<lparr>mu := m\<rparr>)))"
      by (simp only: block_act) (simp del: block.simps add: st)
  qed
  then show ?thesis by (simp add: submit_task_def alloc_task_def s0_def a_def)
qed

lemma conforming_accounted:
  assumes E: "mutex E = go_rwmutex \<or> mutex E = reentrant_rwmutex" and run: "conforming_run E p s"
  shows "accounted s"
  using run
proof (induction rule: conforming_run.induct)
  case (start b m)
  show ?case by (simp add: accounted_def exclusive_def sched_wf_def NewScheduler_def)
next
  case (step s c r t)
  have s: "serving p s" using reached_serving [OF E conforming_reached [OF step.hyps(1)]] .
  have fin: "accounted t" if "accounted (final_state (serve E p c s))" using that step.hyps(4) by simp
  have mr: "final_state (map_reply f x) = final_state x" for f :: "'a \<Rightarrow> reply" and x :: "('a, sched) res"
    by (cases x) simp_all
  have u: "mu s = unlocked" using s by (simp add: serving_def)
  have read: "accounted t" if "\<exists>r t'. serve E p c s = Done r t' \<and> only_asked s t'"
    using that step.hyps(4) accounted_only_asked [OF _ step.IH] by auto
  show ?case
  proof (cases c)
    case (RegisterWorkerCall req)
    then show ?thesis
      using fin keepsD [OF keeps_accounted_RegisterWorker step.IH, of req E p] step.hyps(2)
      by (simp add: mr)
  next
    case (RequestTaskCall req)
    then show ?thesis
      using E go_mutex.RequestTask_starved [OF _ s, of E req] re_mutex.RequestTask_starved [OF _ s, of E req]
      by (intro read) fastforce
  next
    case (ReportTaskStatusCall v)
    then show ?thesis using fin accounted_ReportTaskStatus [OF step.IH, of v E p] step.hyps(3)
      by (simp add: mr)
  next
    case (MonitorTurnCall w)
    then show ?thesis
      using E go_mutex.monitor_turn_reads [OF _ u, of E w] re_mutex.monitor_turn_reads [OF _ u, of E w]
      by (intro read) fastforce
  next
    case ListWorkersCall
    then show ?thesis
      using E go_mutex.ListWorkers_reads [OF _ u, of E] re_mutex.ListWorkers_reads [OF _ u, of E]
      by (intro read) fastforce
  next
    case (AddTaskCall task)
    then show ?thesis using fin accounted_submit [OF step.IH, of E p task] by (simp add: mr)
  qed
qed

lemma run_all_conforming:
  "run_all conforming E p cs s = Some t \<Longrightarrow> conforming_run E p s \<Longrightarrow> conforming_run E p t"
proof (induction cs arbitrary: s)
  case (Cons c cs)
  then show ?case by (auto split: if_splits res.splits intro: conforming_run.step)
qed simp

section \<open>Properties\<close>

text \<open>What a worker holds: for each task in its map, the GPUs assigned to it.\<close>

definition holdings :: "string \<Rightarrow> sched \<Rightarrow> (string \<times> string list) list" where
  "holdings w s = (case map_of (workers s) w of None \<Rightarrow> []
     | Some wk \<Rightarrow> map (\<lambda>(k, a). (k, tAssignedGPUs (heap s a))) (wTasks wk))"

lemma example_run_conforming:
  "example_run conforming cs = Some s \<Longrightarrow> conforming_run (example_env reentrant_rwmutex) BalancedWorkloadPolicy s"
  unfolding example_run_def
  by (erule run_all_conforming) (simp add: example_start_def conforming_run.start)

definition two_tasks :: "request list" where
  "two_tasks = [example_worker ''w1'' [''g0'', ''g1''], example_task ''a'', example_task ''b'']"

text \<open>C1: Exclusive GPUs: when every terminal report comes from the worker that holds the task, two tasks in a
  worker's task map never share a GPU, no GPU of a held task is marked available, and the task's record
  names that worker.\<close>

theorem gpus_are_exclusive:
  assumes "mutex E = go_rwmutex \<or> mutex E = reentrant_rwmutex" and "conforming_run E p s"
    and "map_of (workers s) w = Some wk" and "map_of (wTasks wk) k = Some a"
  shows "tWorkerID (heap s a) = w
     \<and> (\<forall>g \<in> set (wGPUs wk). gID g \<in> set (tAssignedGPUs (heap s a)) \<longrightarrow> \<not> gAvailable g)
     \<and> (\<forall>k' a'. map_of (wTasks wk) k' = Some a' \<longrightarrow> k' \<noteq> k \<longrightarrow>
          set (tAssignedGPUs (heap s a)) \<inter> set (tAssignedGPUs (heap s a')) = {})"
proof -
  have "holds_gpus {} s w wk"
    using conforming_accounted [OF assms(1,2)] assms(3) by (simp add: accounted_def exclusive_def)
  then show ?thesis using assms(4) unfolding holds_gpus_def by blast
qed

theorem gpus_are_exclusive_witness:
  "\<exists>s. example_run conforming two_tasks = Some s \<and> holdings ''w1'' s = [(''a'', [''g0'']), (''b'', [''g1''])]
     \<and> tWorkerID (heap s 0) = ''w1''"
proof -
  have "map_option (\<lambda>s. (holdings ''w1'' s, map_option (\<lambda>wk. map_of (wTasks wk) ''a'') (map_of (workers s) ''w1'')))
      (example_run conforming two_tasks) = Some ([(''a'', [''g0'']), (''b'', [''g1''])], Some (Some 0))"
    by code_simp
  then obtain s wk where s: "example_run conforming two_tasks = Some s"
      "holdings ''w1'' s = [(''a'', [''g0'']), (''b'', [''g1''])]"
      "map_of (workers s) ''w1'' = Some wk" "map_of (wTasks wk) ''a'' = Some 0"
    by auto
  have "mutex (example_env reentrant_rwmutex) = reentrant_rwmutex" by (simp add: example_env_def)
  from gpus_are_exclusive [OF disjI2 [OF this] example_run_conforming [OF s(1)] s(3,4)] s(1,2)
  show ?thesis by blast
qed

definition duplicate_report :: "request list" where
  "duplicate_report =
     [example_worker ''w1'' [''g0''], example_task ''a'', example_report ''w1'' ''a'' TaskStatus_COMPLETED,
      example_task ''b'', example_report ''w1'' ''a'' TaskStatus_COMPLETED, example_task ''c'']"

text \<open>The scheduler does not enforce that discipline. With the nested read locks granted (Go's mutex blocks before), after a duplicate
  \<^verbatim>\<open>COMPLETED\<close> report for a finished task, the GPU it once had is free for the taking although another task runs on it, and the next task is
  given the same GPU.\<close>

theorem duplicate_report_shares_gpu:
  "\<exists>s. example_run (\<lambda>_ _. True) duplicate_report = Some s
     \<and> reached (example_env reentrant_rwmutex) BalancedWorkloadPolicy s
     \<and> holdings ''w1'' s = [(''b'', [''g0'']), (''c'', [''g0''])]"
proof -
  have "map_option (holdings ''w1'') (example_run (\<lambda>_ _. True) duplicate_report)
      = Some [(''b'', [''g0'']), (''c'', [''g0''])]"
    by code_simp
  then obtain s where "example_run (\<lambda>_ _. True) duplicate_report = Some s"
      "holdings ''w1'' s = [(''b'', [''g0'']), (''c'', [''g0''])]" by auto
  with example_run_reached show ?thesis by blast
qed

end
