(* ===== verification/Database.thy ===== *)
theory Database
  imports ManagerTypes
begin

text \<open>
  \<^verbatim>\<open>pkg/persistence/database.go\<close>: the five tables and the operations on them. GORM and the
  database drivers are third-party code and not part of the repository, so the statements the code
  issues are a parameter: a record \<open>gorm\<close> of operations on a database state of any type. A statement
  returns the error it reports, if any, and the database after it. What the library documents about
  these statements is the predicate \<open>gorm_laws\<close>, over a view of the database as tables.
\<close>

section \<open>Rows\<close>

text \<open>Times are nanoseconds since 1970 (the zero \<^verbatim>\<open>time.Time\<close> is \<open>zero_time\<close>); Go's \<^verbatim>\<open>int\<close> has 64 bits.\<close>

type_synonym i64 = "64 word"

record WorkerModel =
  wmID :: string
  wmAddress :: string
  wmStatus :: i64
  wmCreatedAt :: int
  wmUpdatedAt :: int

record GPUModel =
  gmID :: string
  gmWorkerID :: string
  gmModel :: string
  gmMemoryMB :: u64
  gmAvailable :: bool
  gmCreatedAt :: int
  gmUpdatedAt :: int

record TaskModel =
  tmID :: string
  tmName :: string
  tmRequiredGPUs :: u32
  tmMinGPUMemory :: u64
  tmConfiguration :: bytes
  tmStatus :: i64
  tmWorkerID :: string
  tmStartTime :: int
  tmProgress :: gofloat
  tmCreatedAt :: int
  tmUpdatedAt :: int

record TaskGPUModel =
  tgTaskID :: string
  tgGPUID :: string

record PendingTaskModel =
  pdTaskID :: string
  pdCreatedAt :: int

section \<open>The statements of the database library\<close>

type_synonym 'db stmt = "'db \<Rightarrow> string option \<times> 'db"

record 'db gorm =
  gq_open :: "string \<Rightarrow> string \<Rightarrow> bool \<Rightarrow> string + 'db"
  gq_migrate :: "'db stmt"
  gq_transaction :: "'db stmt \<Rightarrow> 'db stmt"
  gq_save_worker :: "WorkerModel \<Rightarrow> 'db stmt"
  gq_save_gpu :: "GPUModel \<Rightarrow> 'db stmt"
  gq_save_task :: "TaskModel \<Rightarrow> 'db stmt"
  gq_create_task_gpu :: "TaskGPUModel \<Rightarrow> 'db stmt"
  gq_create_pending :: "PendingTaskModel \<Rightarrow> 'db stmt"
  gq_delete_task_gpus :: "string \<Rightarrow> 'db stmt"
  gq_delete_pending :: "string \<Rightarrow> 'db stmt"
  gq_exec :: "string \<Rightarrow> 'db stmt"
  gq_find_workers :: "'db \<Rightarrow> string + WorkerModel list"
  gq_find_gpus :: "string \<Rightarrow> 'db \<Rightarrow> string + GPUModel list"
  gq_find_tasks :: "'db \<Rightarrow> string + TaskModel list"
  gq_find_task_gpus :: "string \<Rightarrow> 'db \<Rightarrow> string + TaskGPUModel list"
  gq_find_pending :: "'db \<Rightarrow> string + PendingTaskModel list"
  gq_close :: "'db stmt"

section \<open>Statement sequences\<close>

text \<open>\<^verbatim>\<open>if err := ...; err != nil { return err }\<close>, one statement after the other.\<close>

fun run_stmts :: "'db stmt list \<Rightarrow> 'db stmt" where
  "run_stmts [] db = (None, db)"
| "run_stmts (st # sts) db =
     (case st db of (Some e, db') \<Rightarrow> (Some e, db') | (None, db') \<Rightarrow> run_stmts sts db')"

text \<open>\<^verbatim>\<open>fmt.Errorf("...: %v", err)\<close>\<close>

definition wrap_error :: "string \<Rightarrow> 'db stmt \<Rightarrow> 'db stmt" where
  "wrap_error msg st db = (case st db of (None, db') \<Rightarrow> (None, db') | (Some e, db') \<Rightarrow> (Some (msg @ e), db'))"

section \<open>The database manager\<close>

text \<open>The two columns that are set from the clock and read nowhere: their values for a row's key.\<close>

type_synonym stamps = "string \<Rightarrow> int \<times> int"

definition MigrateSchema :: "'db gorm \<Rightarrow> 'db stmt" where
  "MigrateSchema G = gq_migrate G"

definition NewDatabaseManager :: "'db gorm \<Rightarrow> DatabaseConfig \<Rightarrow> string + 'db" where
  "NewDatabaseManager G config =
     (if dcType config \<noteq> SQLite \<and> dcType config \<noteq> PostgreSQL
      then Inl (''unsupported database type: '' @ dcType config)
      else case gq_open G (dcType config) (dcConnectionString config) (dcLogMode config) of
             Inl err \<Rightarrow> Inl (''failed to connect to database: '' @ err)
           | Inr db \<Rightarrow>
               if dcAutoMigrate config
               then (case MigrateSchema G db of
                       (Some err, _) \<Rightarrow> Inl (''failed to migrate database schema: '' @ err)
                     | (None, db') \<Rightarrow> Inr db')
               else Inr db)"

definition SaveWorker :: "'db gorm \<Rightarrow> WorkerModel \<Rightarrow> GPUModel list \<Rightarrow> 'db stmt" where
  "SaveWorker G worker gpus = gq_transaction G (run_stmts
     (gq_save_worker G worker
      # map (\<lambda>gpu. gq_save_gpu G (gpu\<lparr>gmWorkerID := wmID worker\<rparr>)) gpus))"

definition SaveTask :: "'db gorm \<Rightarrow> TaskModel \<Rightarrow> string list \<Rightarrow> 'db stmt" where
  "SaveTask G task assignedGPUs = gq_transaction G (run_stmts
     (gq_save_task G task
      # gq_delete_task_gpus G (tmID task)
      # map (\<lambda>gpuID. gq_create_task_gpu G \<lparr>tgTaskID = tmID task, tgGPUID = gpuID\<rparr>) assignedGPUs))"

definition SavePendingTask :: "'db gorm \<Rightarrow> stamps \<Rightarrow> string \<Rightarrow> 'db stmt" where
  "SavePendingTask G stamp taskID =
     gq_create_pending G \<lparr>pdTaskID = taskID, pdCreatedAt = fst (stamp taskID)\<rparr>"

definition RemovePendingTask :: "'db gorm \<Rightarrow> string \<Rightarrow> 'db stmt" where
  "RemovePendingTask G taskID = gq_delete_pending G taskID"

definition GetWorkers :: "'db gorm \<Rightarrow> 'db \<Rightarrow> string + WorkerModel list" where
  "GetWorkers G = gq_find_workers G"

definition GetWorkerGPUs :: "'db gorm \<Rightarrow> string \<Rightarrow> 'db \<Rightarrow> string + GPUModel list" where
  "GetWorkerGPUs G workerID = gq_find_gpus G workerID"

definition GetTasks :: "'db gorm \<Rightarrow> 'db \<Rightarrow> string + TaskModel list" where
  "GetTasks G = gq_find_tasks G"

definition GetTaskGPUs :: "'db gorm \<Rightarrow> string \<Rightarrow> 'db \<Rightarrow> string + string list" where
  "GetTaskGPUs G taskID db = map_sum id (map tgGPUID) (gq_find_task_gpus G taskID db)"

definition GetPendingTasks :: "'db gorm \<Rightarrow> 'db \<Rightarrow> string + string list" where
  "GetPendingTasks G db = map_sum id (map pdTaskID) (gq_find_pending G db)"

definition ClearAllState :: "'db gorm \<Rightarrow> 'db stmt" where
  "ClearAllState G = gq_transaction G (run_stmts
     [gq_exec G ''DELETE FROM pending_task_models'',
      gq_exec G ''DELETE FROM task_gpu_models'',
      gq_exec G ''DELETE FROM task_models'',
      gq_exec G ''DELETE FROM gpu_models'',
      gq_exec G ''DELETE FROM worker_models''])"

definition Close :: "'db gorm \<Rightarrow> 'db stmt" where
  "Close G = gq_close G"

section \<open>The documented behaviour of the statements\<close>

text \<open>The tables, each a set of rows with at most one row per primary key.\<close>

record tables =
  tb_workers :: "string \<rightharpoonup> WorkerModel"
  tb_gpus :: "string \<rightharpoonup> GPUModel"
  tb_tasks :: "string \<rightharpoonup> TaskModel"
  tb_task_gpus :: "(string \<times> string) set"
  tb_pending :: "string set"

text \<open>
  What can be stored for sure. Text is valid UTF-8 without the character 0 (PostgreSQL refuses anything else in a column
  or a condition). \<^verbatim>\<open>Save\<close> needs a non-empty primary key (without one it inserts), \<^verbatim>\<open>database/sql\<close> refuses unsigned values
  with the high bit set, a number is finite (SQLite turns a NaN into NULL), and a time is in the years 1 to 9999.
\<close>

definition utf8_tail :: "nat \<Rightarrow> bool" where
  "utf8_tail b \<longleftrightarrow> 128 \<le> b \<and> b < 192"

fun utf8_text :: "nat list \<Rightarrow> bool" where
  "utf8_text [] = True"
| "utf8_text (a # bs) =
     (if a < 128 then a \<noteq> 0 \<and> utf8_text bs
      else (case bs of [] \<Rightarrow> False | b # cs \<Rightarrow>
        if 194 \<le> a \<and> a < 224 then utf8_tail b \<and> utf8_text cs
        else (case cs of [] \<Rightarrow> False | c # ds \<Rightarrow>
          if 224 \<le> a \<and> a < 240 then
            utf8_tail b \<and> utf8_tail c \<and> (a = 224 \<longrightarrow> 160 \<le> b) \<and> (a = 237 \<longrightarrow> b < 160) \<and> utf8_text ds
          else (case ds of [] \<Rightarrow> False | d # es \<Rightarrow>
            240 \<le> a \<and> a < 245 \<and> utf8_tail b \<and> utf8_tail c \<and> utf8_tail d
            \<and> (a = 240 \<longrightarrow> 144 \<le> b) \<and> (a = 244 \<longrightarrow> b < 144) \<and> utf8_text es))))"

definition storable_text :: "string \<Rightarrow> bool" where
  "storable_text s \<longleftrightarrow> utf8_text (map of_char s)"

definition storable_time :: "int \<Rightarrow> bool" where
  "storable_time t \<longleftrightarrow> zero_time \<le> t \<and> t < 253402300800 * 1000000000"

definition storable_float :: "gofloat \<Rightarrow> bool" where
  "storable_float x \<longleftrightarrow> (case x of Fin _ \<Rightarrow> True | _ \<Rightarrow> False)"

definition storable_worker :: "WorkerModel \<Rightarrow> bool" where
  "storable_worker w \<longleftrightarrow> wmID w \<noteq> [] \<and> storable_text (wmID w) \<and> storable_text (wmAddress w)"

definition storable_gpu :: "GPUModel \<Rightarrow> bool" where
  "storable_gpu g \<longleftrightarrow> gmID g \<noteq> [] \<and> storable_text (gmID g) \<and> storable_text (gmWorkerID g)
     \<and> storable_text (gmModel g) \<and> uint (gmMemoryMB g) < 2 ^ 63"

definition storable_task :: "TaskModel \<Rightarrow> bool" where
  "storable_task t \<longleftrightarrow> tmID t \<noteq> [] \<and> storable_text (tmID t) \<and> storable_text (tmName t)
     \<and> storable_text (tmWorkerID t) \<and> uint (tmMinGPUMemory t) < 2 ^ 63 \<and> storable_float (tmProgress t)
     \<and> storable_time (tmStartTime t)"

text \<open>
  GORM sets \<^verbatim>\<open>CreatedAt\<close> and \<^verbatim>\<open>UpdatedAt\<close> itself: \<^verbatim>\<open>Save\<close> overwrites the second, and the first when it is zero. The tables are looked
  at without these columns, which the program never reads.
\<close>

definition plain_worker :: "WorkerModel \<Rightarrow> WorkerModel" where
  "plain_worker w = w\<lparr>wmCreatedAt := 0, wmUpdatedAt := 0\<rparr>"

definition plain_gpu :: "GPUModel \<Rightarrow> GPUModel" where
  "plain_gpu g = g\<lparr>gmCreatedAt := 0, gmUpdatedAt := 0\<rparr>"

definition plain_task :: "TaskModel \<Rightarrow> TaskModel" where
  "plain_task t = t\<lparr>tmCreatedAt := 0, tmUpdatedAt := 0\<rparr>"

definition succeeds :: "('db \<Rightarrow> tables) \<Rightarrow> ('db \<Rightarrow> bool) \<Rightarrow> 'db stmt \<Rightarrow> (tables \<Rightarrow> tables) \<Rightarrow> 'db \<Rightarrow> bool" where
  "succeeds view up st f db \<longleftrightarrow> fst (st db) = None \<and> up (snd (st db)) \<and> view (snd (st db)) = f (view db)"

definition rejects :: "('db \<Rightarrow> tables) \<Rightarrow> ('db \<Rightarrow> bool) \<Rightarrow> 'db stmt \<Rightarrow> 'db \<Rightarrow> bool" where
  "rejects view up st db \<longleftrightarrow> fst (st db) \<noteq> None \<and> up (snd (st db)) \<and> view (snd (st db)) = view db"

text \<open>What a query returns, without the two columns.\<close>

definition plain_rows :: "('a \<Rightarrow> 'a) \<Rightarrow> string + 'a list \<Rightarrow> string + 'a list" where
  "plain_rows plain = map_sum id (map plain)"

definition lists_rows :: "('a \<Rightarrow> 'k) \<Rightarrow> ('k \<rightharpoonup> 'a) \<Rightarrow> (string + 'a list) \<Rightarrow> bool" where
  "lists_rows key table r \<longleftrightarrow>
     (\<exists>rows. r = Inr rows \<and> distinct (map key rows) \<and> (\<forall>x. x \<in> set rows \<longleftrightarrow> table (key x) = Some x))"

text \<open>
  While the database is up, with text that can be stored: \<^verbatim>\<open>Save\<close> inserts or replaces by primary key, \<^verbatim>\<open>Create\<close> inserts and
  fails on a duplicate key, \<^verbatim>\<open>Delete\<close> with a condition and \<^verbatim>\<open>DELETE FROM\<close> remove the rows, \<^verbatim>\<open>Find\<close> returns the
  rows in some order, and a transaction keeps all or nothing of what its function did.
\<close>

definition gorm_laws :: "'db gorm \<Rightarrow> ('db \<Rightarrow> tables) \<Rightarrow> ('db \<Rightarrow> bool) \<Rightarrow> bool" where
  "gorm_laws G view up \<longleftrightarrow> (\<forall>db. up db \<longrightarrow>
     (\<forall>st. (case st db of (None, db') \<Rightarrow> up db' \<longrightarrow> gq_transaction G st db = (None, db')
            | (Some e, db') \<Rightarrow> rejects view up (gq_transaction G st) db))
   \<and> (\<forall>w. storable_worker w \<longrightarrow>
        succeeds view up (gq_save_worker G w) (\<lambda>T. T\<lparr>tb_workers := (tb_workers T)(wmID w \<mapsto> plain_worker w)\<rparr>) db)
   \<and> (\<forall>g. storable_gpu g \<longrightarrow>
        succeeds view up (gq_save_gpu G g) (\<lambda>T. T\<lparr>tb_gpus := (tb_gpus T)(gmID g \<mapsto> plain_gpu g)\<rparr>) db)
   \<and> (\<forall>t. storable_task t \<longrightarrow>
        succeeds view up (gq_save_task G t) (\<lambda>T. T\<lparr>tb_tasks := (tb_tasks T)(tmID t \<mapsto> plain_task t)\<rparr>) db)
   \<and> (\<forall>a. storable_text (tgTaskID a) \<and> storable_text (tgGPUID a) \<longrightarrow>
          (if (tgTaskID a, tgGPUID a) \<in> tb_task_gpus (view db)
          then rejects view up (gq_create_task_gpu G a) db
          else succeeds view up (gq_create_task_gpu G a)
                 (\<lambda>T. T\<lparr>tb_task_gpus := insert (tgTaskID a, tgGPUID a) (tb_task_gpus T)\<rparr>) db))
   \<and> (\<forall>p. storable_text (pdTaskID p) \<longrightarrow>
          (if pdTaskID p \<in> tb_pending (view db)
          then rejects view up (gq_create_pending G p) db
          else succeeds view up (gq_create_pending G p)
                 (\<lambda>T. T\<lparr>tb_pending := insert (pdTaskID p) (tb_pending T)\<rparr>) db))
   \<and> (\<forall>k. storable_text k \<longrightarrow> succeeds view up (gq_delete_task_gpus G k)
          (\<lambda>T. T\<lparr>tb_task_gpus := {p \<in> tb_task_gpus T. fst p \<noteq> k}\<rparr>) db)
   \<and> (\<forall>k. storable_text k \<longrightarrow> succeeds view up (gq_delete_pending G k) (\<lambda>T. T\<lparr>tb_pending := tb_pending T - {k}\<rparr>) db)
   \<and> succeeds view up (gq_exec G ''DELETE FROM pending_task_models'') (\<lambda>T. T\<lparr>tb_pending := {}\<rparr>) db
   \<and> succeeds view up (gq_exec G ''DELETE FROM task_gpu_models'') (\<lambda>T. T\<lparr>tb_task_gpus := {}\<rparr>) db
   \<and> succeeds view up (gq_exec G ''DELETE FROM task_models'') (\<lambda>T. T\<lparr>tb_tasks := Map.empty\<rparr>) db
   \<and> succeeds view up (gq_exec G ''DELETE FROM gpu_models'') (\<lambda>T. T\<lparr>tb_gpus := Map.empty\<rparr>) db
   \<and> succeeds view up (gq_exec G ''DELETE FROM worker_models'') (\<lambda>T. T\<lparr>tb_workers := Map.empty\<rparr>) db
   \<and> lists_rows wmID (tb_workers (view db)) (plain_rows plain_worker (gq_find_workers G db))
   \<and> (\<forall>w. storable_text w \<longrightarrow> lists_rows gmID (\<lambda>k. case tb_gpus (view db) k of
            Some g \<Rightarrow> if gmWorkerID g = w then Some g else None | None \<Rightarrow> None)
          (plain_rows plain_gpu (gq_find_gpus G w db)))
   \<and> lists_rows tmID (tb_tasks (view db)) (plain_rows plain_task (gq_find_tasks G db))
   \<and> (\<forall>k. storable_text k \<longrightarrow> (\<exists>rows. gq_find_task_gpus G k db = Inr rows \<and> distinct (map tgGPUID rows)
          \<and> (\<forall>r \<in> set rows. tgTaskID r = k)
          \<and> (\<forall>i. i \<in> tgGPUID ` set rows \<longleftrightarrow> (k, i) \<in> tb_task_gpus (view db))))
   \<and> (\<exists>rows. gq_find_pending G db = Inr rows \<and> distinct (map pdTaskID rows)
          \<and> set (map pdTaskID rows) = tb_pending (view db)))"

end
