(* ===== verification/PersistManager.thy ===== *)
theory PersistManager
  imports Database
begin

text \<open>
  The operations of \<^verbatim>\<open>pkg/persistence/manager.go\<close> on the manager and the database: opening and
  stopping, the auto-save loop, and the conversions between the snapshot and the tables. The manager's own
  mutex is only held for one operation at a time and never nested, so it is left out; the logger
  only writes.
\<close>

section \<open>Opening, the auto-save loop, stopping\<close>

definition NewManager :: "'db gorm \<Rightarrow> Config \<Rightarrow> string + Manager \<times> 'db option" where
  "NewManager G config =
     (let manager = \<lparr>mgConfig = config, mgHasDB = False, mgStopped = False, mgSaveTrigger = 0,
                     mgAutoSave = False\<rparr>
      in if cfType config = DatabasePersistence
         then (case NewDatabaseManager G (cfDatabase config) of
                 Inl err \<Rightarrow> Inl (''failed to create database manager: '' @ err)
               | Inr db \<Rightarrow> Inr (manager\<lparr>mgHasDB := True\<rparr>, Some db))
         else Inr (manager, None))"

text \<open>\<^verbatim>\<open>Start\<close> starts the loop's goroutine: \<open>mgAutoSave\<close> records that it runs.\<close>

definition Start :: "Manager \<Rightarrow> Manager" where
  "Start m = (if cfAutoSave (mgConfig m) then m\<lparr>mgAutoSave := True\<rparr> else m)"

datatype loop_event = TickerFired | StopClosed

text \<open>The loop over the events its \<^verbatim>\<open>select\<close> sees; it ends when \<^verbatim>\<open>stopCh\<close> is closed.\<close>

fun autoSaveLoop :: "loop_event list \<Rightarrow> Manager \<Rightarrow> Manager" where
  "autoSaveLoop [] m = m"
| "autoSaveLoop (TickerFired # es) m = autoSaveLoop es (send_trigger m)"
| "autoSaveLoop (StopClosed # es) m = m\<lparr>mgAutoSave := False\<rparr>"

text \<open>
  \<^verbatim>\<open>time.Duration(m.config.SaveInterval) * time.Second\<close>, a product of type int64 that wraps around. A ticker whose
  period is not positive panics, and with the loop's goroutine the whole process ends.
\<close>

definition save_period :: "Config \<Rightarrow> int" where
  "save_period config = sint (word_of_int (cfSaveInterval config) * word_of_int 1000000000 :: 64 word)"

definition auto_save :: "loop_event list \<Rightarrow> Manager \<Rightarrow> (unit, Manager) res" where
  "auto_save es m = (if save_period (mgConfig m) \<le> 0 then Panicked m else Done () (autoSaveLoop es m))"

definition ticker_panics :: "Manager \<Rightarrow> bool" where
  "ticker_panics m \<longleftrightarrow> mgAutoSave m \<and> is_panic (auto_save [] m)"

text \<open>
  \<^verbatim>\<open>close(m.stopCh)\<close> panics when the channel is closed already. The error of closing the database is dropped.
\<close>

definition Stop :: "'db gorm \<Rightarrow> Manager \<Rightarrow> 'db \<Rightarrow> ('db, Manager) res" where
  "Stop G m db =
     (if mgStopped m then Panicked m
      else Done (if mgHasDB m then snd (Close G db) else db) (m\<lparr>mgStopped := True\<rparr>))"

section \<open>From the snapshot to the tables\<close>

text \<open>\<^verbatim>\<open>int(status)\<close> of an int32 enum, and back.\<close>

definition int_of_status :: "32 word \<Rightarrow> i64" where
  "int_of_status st = scast st"

definition status_of_int :: "i64 \<Rightarrow> 32 word" where
  "status_of_int n = ucast n"

definition unix_time :: "int \<Rightarrow> int" where
  "unix_time sec = sec * 1000000000"

definition unix_seconds :: "int \<Rightarrow> int" where
  "unix_seconds t = t div 1000000000"

definition worker_model :: "stamps \<Rightarrow> string \<Rightarrow> WorkerState \<Rightarrow> WorkerModel" where
  "worker_model stamp wid worker = \<lparr>wmID = wid, wmAddress = wsAddress worker,
     wmStatus = int_of_status (wsWStatus worker),
     wmCreatedAt = fst (stamp wid), wmUpdatedAt = snd (stamp wid)\<rparr>"

definition gpu_model :: "stamps \<Rightarrow> string \<Rightarrow> GPUState \<Rightarrow> GPUModel" where
  "gpu_model stamp wid gpu = \<lparr>gmID = gsID gpu, gmWorkerID = wid, gmModel = gsModel gpu,
     gmMemoryMB = gsMemoryMB gpu, gmAvailable = gsAvailable gpu,
     gmCreatedAt = fst (stamp (gsID gpu)), gmUpdatedAt = snd (stamp (gsID gpu))\<rparr>"

definition task_model :: "stamps \<Rightarrow> string \<Rightarrow> TaskState \<Rightarrow> TaskModel" where
  "task_model stamp tid task =
     (let startTime = unix_time (tkStartTime task);
          startTime = (if tkStartTime task = 0 then zero_time else startTime)
      in \<lparr>tmID = tid, tmName = tkName task, tmRequiredGPUs = tkRequiredGPUs task,
          tmMinGPUMemory = tkMinGPUMemory task, tmConfiguration = tkConfiguration task,
          tmStatus = int_of_status (tkStatus task), tmWorkerID = tkWorkerID task,
          tmStartTime = startTime, tmProgress = tkProgress task,
          tmCreatedAt = fst (stamp tid), tmUpdatedAt = snd (stamp tid)\<rparr>)"

definition saveToDatabase ::
  "'db gorm \<Rightarrow> Manager \<Rightarrow> stamps \<Rightarrow> choices \<Rightarrow> SchedulerState \<Rightarrow> 'db stmt" where
  "saveToDatabase G m stamp ch state db =
     (if \<not> mgHasDB m then (Some ''database manager not initialized'', db)
      else run_stmts
        (wrap_error ''failed to clear existing state: '' (ClearAllState G)
         # map (\<lambda>(wid, worker).
               wrap_error (''failed to save worker '' @ wid @ '': '')
                 (SaveWorker G (worker_model stamp wid worker) (map (gpu_model stamp wid) (wsGPUs worker))))
             (permute (fst ch) (ssWorkers state))
         @ map (\<lambda>(tid, task).
               wrap_error (''failed to save task '' @ tid @ '': '')
                 (SaveTask G (task_model stamp tid task) (tkAssignedGPUs task)))
             (permute (snd ch) (ssTasks state))
         @ map (\<lambda>tid. wrap_error (''failed to save pending task '' @ tid @ '': '')
                         (SavePendingTask G stamp tid))
             (ssPendingTasks state)) db)"

section \<open>From the tables to the snapshot\<close>

definition gpu_state :: "GPUModel \<Rightarrow> GPUState" where
  "gpu_state gm = \<lparr>gsID = gmID gm, gsModel = gmModel gm, gsMemoryMB = gmMemoryMB gm,
     gsAvailable = gmAvailable gm\<rparr>"

definition task_state :: "TaskModel \<Rightarrow> string list \<Rightarrow> TaskState" where
  "task_state tm gpuIDs =
     (let startTime = unix_seconds (tmStartTime tm);
          startTime = (if tmStartTime tm = zero_time then 0 else startTime)
      in \<lparr>tkID = tmID tm, tkName = tmName tm, tkRequiredGPUs = tmRequiredGPUs tm,
          tkMinGPUMemory = tmMinGPUMemory tm, tkConfiguration = tmConfiguration tm,
          tkStatus = status_of_int (tmStatus tm), tkWorkerID = tmWorkerID tm,
          tkAssignedGPUs = gpuIDs, tkStartTime = startTime, tkProgress = tmProgress tm\<rparr>)"

fun load_workers ::
  "'db gorm \<Rightarrow> 'db \<Rightarrow> WorkerModel list \<Rightarrow> WorkerState gomap \<Rightarrow> string + WorkerState gomap" where
  "load_workers G db [] ws = Inr ws"
| "load_workers G db (wm # wms) ws =
     (case GetWorkerGPUs G (wmID wm) db of
        Inl err \<Rightarrow> Inl (''failed to load GPUs for worker '' @ wmID wm @ '': '' @ err)
      | Inr gms \<Rightarrow> load_workers G db wms
          (mput (wmID wm) \<lparr>wsID = wmID wm, wsGPUs = map gpu_state gms, wsAddress = wmAddress wm,
                           wsWStatus = status_of_int (wmStatus wm), wsTasks = []\<rparr> ws))"

text \<open>\<^verbatim>\<open>worker.Tasks = append(worker.Tasks, taskModel.ID)\<close> if the task names a known worker.\<close>

definition list_task :: "TaskModel \<Rightarrow> WorkerState gomap \<Rightarrow> WorkerState gomap" where
  "list_task tm ws =
     (if tmWorkerID tm \<noteq> '''' then
        (case map_of ws (tmWorkerID tm) of
           None \<Rightarrow> ws
         | Some worker \<Rightarrow> mput (tmWorkerID tm) (worker\<lparr>wsTasks := wsTasks worker @ [tmID tm]\<rparr>) ws)
      else ws)"

fun load_tasks ::
  "'db gorm \<Rightarrow> 'db \<Rightarrow> TaskModel list \<Rightarrow> WorkerState gomap \<Rightarrow> TaskState gomap \<Rightarrow>
   string + WorkerState gomap \<times> TaskState gomap" where
  "load_tasks G db [] ws ts = Inr (ws, ts)"
| "load_tasks G db (tm # tms) ws ts =
     (case GetTaskGPUs G (tmID tm) db of
        Inl err \<Rightarrow> Inl (''failed to load GPU assignments for task '' @ tmID tm @ '': '' @ err)
      | Inr gpuIDs \<Rightarrow>
          load_tasks G db tms (list_task tm ws) (mput (tmID tm) (task_state tm gpuIDs) ts))"

definition loadFromDatabase :: "'db gorm \<Rightarrow> Manager \<Rightarrow> int \<Rightarrow> 'db \<Rightarrow> string + SchedulerState" where
  "loadFromDatabase G m now db =
     (if \<not> mgHasDB m then Inl ''database manager not initialized''
      else case GetWorkers G db of
        Inl err \<Rightarrow> Inl (''failed to load workers: '' @ err)
      | Inr workerModels \<Rightarrow>
          (case load_workers G db workerModels [] of
             Inl err \<Rightarrow> Inl err
           | Inr ws \<Rightarrow>
               (case GetTasks G db of
                  Inl err \<Rightarrow> Inl (''failed to load tasks: '' @ err)
                | Inr taskModels \<Rightarrow>
                    (case load_tasks G db taskModels ws [] of
                       Inl err \<Rightarrow> Inl err
                     | Inr (ws', ts) \<Rightarrow>
                         (case GetPendingTasks G db of
                            Inl err \<Rightarrow> Inl (''failed to load pending tasks: '' @ err)
                          | Inr pendingTaskIDs \<Rightarrow>
                              Inr \<lparr>ssWorkers = ws', ssTasks = ts, ssPendingTasks = pendingTaskIDs,
                                   ssSavedAt = unix_seconds now\<rparr>)))))"

section \<open>\<^verbatim>\<open>SaveState\<close> and \<^verbatim>\<open>LoadState\<close>\<close>

definition unsupported_type :: "Manager \<Rightarrow> string" where
  "unsupported_type m = ''unsupported persistence type: '' @ cfType (mgConfig m)"

definition manager_SaveState ::
  "'db gorm \<Rightarrow> Manager \<Rightarrow> int \<Rightarrow> stamps \<Rightarrow> choices \<Rightarrow> SchedulerState \<Rightarrow> 'db stmt" where
  "manager_SaveState G m now stamp ch state db =
     (let state = state\<lparr>ssSavedAt := unix_seconds now\<rparr>
      in if cfType (mgConfig m) = DatabasePersistence then saveToDatabase G m stamp ch state db
         else (Some (unsupported_type m), db))"

definition manager_LoadState :: "'db gorm \<Rightarrow> Manager \<Rightarrow> int \<Rightarrow> 'db \<Rightarrow> string + SchedulerState" where
  "manager_LoadState G m now db =
     (if cfType (mgConfig m) = DatabasePersistence then loadFromDatabase G m now db
      else Inl (unsupported_type m))"

end
