(* ===== verification/MemoryDB.thy ===== *)
theory MemoryDB
  imports Database
begin

text \<open>
  A database in memory: lists of rows with the statements executed on them. It shows that the laws of
  \<open>gorm_laws\<close> can hold, and runs the examples of the persistence theories.
\<close>

record memory_db =
  mem_workers :: "WorkerModel gomap"
  mem_gpus :: "GPUModel gomap"
  mem_tasks :: "TaskModel gomap"
  mem_task_gpus :: "(string \<times> string) list"
  mem_pending :: "PendingTaskModel gomap"

definition empty_db :: memory_db where
  "empty_db = \<lparr>mem_workers = [], mem_gpus = [], mem_tasks = [], mem_task_gpus = [], mem_pending = []\<rparr>"

definition exec_delete :: "string \<Rightarrow> memory_db stmt" where
  "exec_delete sql d =
     (if sql = ''DELETE FROM pending_task_models'' then (None, d\<lparr>mem_pending := []\<rparr>)
      else if sql = ''DELETE FROM task_gpu_models'' then (None, d\<lparr>mem_task_gpus := []\<rparr>)
      else if sql = ''DELETE FROM task_models'' then (None, d\<lparr>mem_tasks := []\<rparr>)
      else if sql = ''DELETE FROM gpu_models'' then (None, d\<lparr>mem_gpus := []\<rparr>)
      else if sql = ''DELETE FROM worker_models'' then (None, d\<lparr>mem_workers := []\<rparr>)
      else (Some ''syntax error'', d))"

definition memory_gorm :: "memory_db gorm" where
  "memory_gorm = \<lparr>
     gq_open = (\<lambda>_ _ _. Inr empty_db),
     gq_migrate = (\<lambda>d. (None, d)),
     gq_transaction = (\<lambda>st d. case st d of (None, d') \<Rightarrow> (None, d') | (Some e, _) \<Rightarrow> (Some e, d)),
     gq_save_worker = (\<lambda>w d. (None, d\<lparr>mem_workers := mput (wmID w) w (mem_workers d)\<rparr>)),
     gq_save_gpu = (\<lambda>g d. (None, d\<lparr>mem_gpus := mput (gmID g) g (mem_gpus d)\<rparr>)),
     gq_save_task = (\<lambda>t d. (None, d\<lparr>mem_tasks := mput (tmID t) t (mem_tasks d)\<rparr>)),
     gq_create_task_gpu = (\<lambda>a d.
       if (tgTaskID a, tgGPUID a) \<in> set (mem_task_gpus d) then (Some ''UNIQUE constraint failed'', d)
       else (None, d\<lparr>mem_task_gpus := mem_task_gpus d @ [(tgTaskID a, tgGPUID a)]\<rparr>)),
     gq_create_pending = (\<lambda>p d.
       if map_of (mem_pending d) (pdTaskID p) \<noteq> None then (Some ''UNIQUE constraint failed'', d)
       else (None, d\<lparr>mem_pending := mput (pdTaskID p) p (mem_pending d)\<rparr>)),
     gq_delete_task_gpus = (\<lambda>k d. (None, d\<lparr>mem_task_gpus := filter (\<lambda>p. fst p \<noteq> k) (mem_task_gpus d)\<rparr>)),
     gq_delete_pending = (\<lambda>k d. (None, d\<lparr>mem_pending := mdel k (mem_pending d)\<rparr>)),
     gq_exec = exec_delete,
     gq_find_workers = (\<lambda>d. Inr (map snd (mem_workers d))),
     gq_find_gpus = (\<lambda>w d. Inr (filter (\<lambda>g. gmWorkerID g = w) (map snd (mem_gpus d)))),
     gq_find_tasks = (\<lambda>d. Inr (map snd (mem_tasks d))),
     gq_find_task_gpus = (\<lambda>k d. Inr (map (\<lambda>p. \<lparr>tgTaskID = fst p, tgGPUID = snd p\<rparr>)
                                        (filter (\<lambda>p. fst p = k) (mem_task_gpus d)))),
     gq_find_pending = (\<lambda>d. Inr (map snd (mem_pending d))),
     gq_close = (\<lambda>d. (None, d))\<rparr>"

definition memory_view :: "memory_db \<Rightarrow> tables" where
  "memory_view d = \<lparr>tb_workers = map_option plain_worker \<circ> map_of (mem_workers d),
     tb_gpus = map_option plain_gpu \<circ> map_of (mem_gpus d), tb_tasks = map_option plain_task \<circ> map_of (mem_tasks d), tb_task_gpus = set (mem_task_gpus d),
     tb_pending = fst ` set (mem_pending d)\<rparr>"

text \<open>The lists are tables: keys are unique and agree with the rows.\<close>

definition memory_up :: "memory_db \<Rightarrow> bool" where
  "memory_up d \<longleftrightarrow>
     map_ok (mem_workers d) \<and> (\<forall>(k, r) \<in> set (mem_workers d). wmID r = k)
   \<and> map_ok (mem_gpus d) \<and> (\<forall>(k, r) \<in> set (mem_gpus d). gmID r = k)
   \<and> map_ok (mem_tasks d) \<and> (\<forall>(k, r) \<in> set (mem_tasks d). tmID r = k)
   \<and> map_ok (mem_pending d) \<and> (\<forall>(k, r) \<in> set (mem_pending d). pdTaskID r = k)
   \<and> distinct (mem_task_gpus d)"

lemma set_mput_ok: "map_ok m \<Longrightarrow> set (mput k v m) = {(k', v') \<in> set m. k' \<noteq> k} \<union> {(k, v)}"
proof (induction m)
  case (Cons p m)
  obtain a b where p: "p = (a, b)" by (cases p)
  have ok: "map_ok m" "\<forall>(k', v') \<in> set m. k' \<noteq> a" using Cons.prems by (auto simp: map_ok_def p image_iff)
  show ?case
  proof (cases "k = a")
    case True
    have "{(k', v') \<in> set m. k' \<noteq> a} = set m" using ok(2) by auto
    moreover have "{(k', v') \<in> set (p # m). k' \<noteq> a} = {(k', v') \<in> set m. k' \<noteq> a}" by (auto simp: p)
    ultimately show ?thesis using True by (simp add: p)
  next
    case False
    have "{(k', v') \<in> set (p # m). k' \<noteq> k} = insert p {(k', v') \<in> set m. k' \<noteq> k}"
      using False by (auto simp: p)
    then show ?thesis using False Cons.IH [OF ok(1)] by (simp add: p insert_commute)
  qed
qed simp

lemma set_mdel: "set (mdel k m) = {(k', v') \<in> set m. k' \<noteq> k}"
  by (auto simp: mdel_def AList.delete_eq)

lemma plain_keys [simp]:
  "wmID (plain_worker w) = wmID w" "gmID (plain_gpu g) = gmID g" "gmWorkerID (plain_gpu g) = gmWorkerID g"
  "tmID (plain_task t) = tmID t"
  by (simp_all add: plain_worker_def plain_gpu_def plain_task_def)

lemma lists_rows_mem:
  assumes "map_ok m" and "\<forall>(k, r) \<in> set m. key r = k" and plain: "\<And>r. key (plain r) = key r"
  shows "lists_rows key (map_option plain \<circ> map_of m) (plain_rows plain (Inr (map snd m)))"
proof -
  have keys: "map (key \<circ> (plain \<circ> snd)) m = map fst m" using assms(2) by (induction m) (auto simp: plain)
  have "x \<in> set (map (plain \<circ> snd) m) \<longleftrightarrow> map_option plain (map_of m (key x)) = Some x" for x
  proof
    assume "x \<in> set (map (plain \<circ> snd) m)"
    then obtain k r where r: "(k, r) \<in> set m" "x = plain r" by auto
    then have "map_of m (key x) = Some r" using assms by (auto simp: map_ok_in_iff [symmetric] plain)
    then show "map_option plain (map_of m (key x)) = Some x" using r(2) by simp
  next
    assume "map_option plain (map_of m (key x)) = Some x"
    then show "x \<in> set (map (plain \<circ> snd) m)" by (force dest: map_of_SomeD)
  qed
  moreover have "distinct (map key (map (plain \<circ> snd) m))"
    using assms(1) unfolding map_ok_def map_map keys .
  ultimately show ?thesis by (simp add: lists_rows_def plain_rows_def)
qed

lemma lists_rows_filter:
  assumes "lists_rows key table (plain_rows plain (Inr rows))" and "\<And>r. P (plain r) = P r"
  shows "lists_rows key (\<lambda>k. case table k of Some r \<Rightarrow> if P r then Some r else None | None \<Rightarrow> None)
           (plain_rows plain (Inr (filter P rows)))"
proof -
  have "map plain (filter P rows) = filter P (map plain rows)" by (simp add: filter_map comp_def assms(2))
  then show ?thesis using assms(1)
    by (auto simp: lists_rows_def plain_rows_def distinct_map_filter simp del: map_map set_map split: option.splits)
qed

lemma task_gpu_rows:
  assumes "distinct ps"
  defines "rows k \<equiv> map (\<lambda>p. \<lparr>tgTaskID = fst p, tgGPUID = snd p\<rparr>) (filter (\<lambda>p. fst p = k) ps)"
  shows "distinct (map tgGPUID (rows k)) \<and> (\<forall>r \<in> set (rows k). tgTaskID r = k)
     \<and> (\<forall>i. i \<in> tgGPUID ` set (rows k) \<longleftrightarrow> (k, i) \<in> set ps)"
proof -
  have "inj_on snd (set (filter (\<lambda>p. fst p = k) ps))" by (auto simp: inj_on_def)
  moreover have "map tgGPUID (rows k) = map snd (filter (\<lambda>p. fst p = k) ps)" by (simp add: rows_def)
  ultimately have "distinct (map tgGPUID (rows k))" using assms(1) by (simp add: distinct_map)
  then show ?thesis by (force simp: rows_def)
qed

lemma memory_gorm_laws: "gorm_laws memory_gorm memory_view memory_up"
  unfolding gorm_laws_def
proof (intro allI impI conjI)
  fix d assume d: "memory_up d"
  note defs = succeeds_def rejects_def memory_gorm_def memory_view_def exec_delete_def
  show "case st d of (None, d') \<Rightarrow> memory_up d' \<longrightarrow> gq_transaction memory_gorm st d = (None, d')
      | (Some e, d') \<Rightarrow> rejects memory_view memory_up (gq_transaction memory_gorm st) d" for st
    using d by (auto simp: defs split: option.split prod.split)
  show "succeeds memory_view memory_up (gq_save_worker memory_gorm w)
      (\<lambda>T. T\<lparr>tb_workers := (tb_workers T)(wmID w \<mapsto> plain_worker w)\<rparr>) d" for w
    using d by (auto simp: defs memory_up_def set_mput_ok fun_eq_iff)
  show "succeeds memory_view memory_up (gq_save_gpu memory_gorm g)
      (\<lambda>T. T\<lparr>tb_gpus := (tb_gpus T)(gmID g \<mapsto> plain_gpu g)\<rparr>) d" for g
    using d by (auto simp: defs memory_up_def set_mput_ok fun_eq_iff)
  show "succeeds memory_view memory_up (gq_save_task memory_gorm t)
      (\<lambda>T. T\<lparr>tb_tasks := (tb_tasks T)(tmID t \<mapsto> plain_task t)\<rparr>) d" for t
    using d by (auto simp: defs memory_up_def set_mput_ok fun_eq_iff)
  show "if (tgTaskID a, tgGPUID a) \<in> tb_task_gpus (memory_view d)
      then rejects memory_view memory_up (gq_create_task_gpu memory_gorm a) d
      else succeeds memory_view memory_up (gq_create_task_gpu memory_gorm a)
             (\<lambda>T. T\<lparr>tb_task_gpus := insert (tgTaskID a, tgGPUID a) (tb_task_gpus T)\<rparr>) d" for a
    using d by (auto simp: defs memory_up_def)
  show "if pdTaskID p \<in> tb_pending (memory_view d)
      then rejects memory_view memory_up (gq_create_pending memory_gorm p) d
      else succeeds memory_view memory_up (gq_create_pending memory_gorm p)
             (\<lambda>T. T\<lparr>tb_pending := insert (pdTaskID p) (tb_pending T)\<rparr>) d" for p
    using d by (auto simp: defs memory_up_def set_mput_ok map_of_eq_None_iff)
  show "succeeds memory_view memory_up (gq_delete_task_gpus memory_gorm k)
      (\<lambda>T. T\<lparr>tb_task_gpus := {p \<in> tb_task_gpus T. fst p \<noteq> k}\<rparr>) d" for k
    using d by (auto simp: defs memory_up_def)
  show "succeeds memory_view memory_up (gq_delete_pending memory_gorm k)
      (\<lambda>T. T\<lparr>tb_pending := tb_pending T - {k}\<rparr>) d" for k
    using d by (auto simp: defs memory_up_def set_mdel image_iff)
  show "succeeds memory_view memory_up (gq_exec memory_gorm ''DELETE FROM pending_task_models'')
      (\<lambda>T. T\<lparr>tb_pending := {}\<rparr>) d"
    using d by (simp add: defs memory_up_def)
  show "succeeds memory_view memory_up (gq_exec memory_gorm ''DELETE FROM task_gpu_models'')
      (\<lambda>T. T\<lparr>tb_task_gpus := {}\<rparr>) d"
    using d by (simp add: defs memory_up_def)
  show "succeeds memory_view memory_up (gq_exec memory_gorm ''DELETE FROM task_models'')
      (\<lambda>T. T\<lparr>tb_tasks := Map.empty\<rparr>) d"
    using d by (simp add: defs memory_up_def)
  show "succeeds memory_view memory_up (gq_exec memory_gorm ''DELETE FROM gpu_models'')
      (\<lambda>T. T\<lparr>tb_gpus := Map.empty\<rparr>) d"
    using d by (simp add: defs memory_up_def)
  show "succeeds memory_view memory_up (gq_exec memory_gorm ''DELETE FROM worker_models'')
      (\<lambda>T. T\<lparr>tb_workers := Map.empty\<rparr>) d"
    using d by (simp add: defs memory_up_def)
  show "lists_rows wmID (tb_workers (memory_view d)) (plain_rows plain_worker (gq_find_workers memory_gorm d))"
    using d by (simp add: defs memory_up_def lists_rows_mem)
  show "lists_rows gmID (\<lambda>k. case tb_gpus (memory_view d) k of
      Some g \<Rightarrow> if gmWorkerID g = w then Some g else None | None \<Rightarrow> None)
      (plain_rows plain_gpu (gq_find_gpus memory_gorm w d))" for w
    using d lists_rows_filter [OF lists_rows_mem [of "mem_gpus d" gmID plain_gpu], of "\<lambda>g. gmWorkerID g = w"]
    by (simp add: defs memory_up_def)
  show "lists_rows tmID (tb_tasks (memory_view d)) (plain_rows plain_task (gq_find_tasks memory_gorm d))"
    using d by (simp add: defs memory_up_def lists_rows_mem)
  show "\<exists>rows. gq_find_task_gpus memory_gorm k d = Inr rows \<and> distinct (map tgGPUID rows)
      \<and> (\<forall>r \<in> set rows. tgTaskID r = k)
      \<and> (\<forall>i. i \<in> tgGPUID ` set rows \<longleftrightarrow> (k, i) \<in> tb_task_gpus (memory_view d))" for k
    using task_gpu_rows [of "mem_task_gpus d" k] d by (simp add: defs memory_up_def)
  show "\<exists>rows. gq_find_pending memory_gorm d = Inr rows \<and> distinct (map pdTaskID rows)
      \<and> set (map pdTaskID rows) = tb_pending (memory_view d)"
  proof -
    have "map pdTaskID (map snd (mem_pending d)) = map fst (mem_pending d)"
      using d unfolding memory_up_def by (auto simp: case_prod_beta)
    then have "distinct (map pdTaskID (map snd (mem_pending d)))
        \<and> set (map pdTaskID (map snd (mem_pending d))) = fst ` set (mem_pending d)"
      using d unfolding memory_up_def map_ok_def by (metis list.set_map)
    then show ?thesis by (simp add: defs image_comp o_def)
  qed
qed

end
