(* ===== verification/PersistRT.thy ===== *)
theory PersistRT
  imports PersistManager MemoryDB
begin

text \<open>
  Saving a snapshot and loading it again. Under the documented behaviour of the database library
  (\<open>gorm_laws\<close>) a snapshot whose GPU ids are unique over all workers is saved without an error, and what is loaded
  afterwards agrees with it, up to the order of rows and up to the workers' task lists, which are
  computed from the tasks instead of being stored.
\<close>

section \<open>Statements that succeed\<close>

text \<open>A statement that has effect \<open>f\<close> on the tables whenever the database is up and \<open>p\<close> holds of them.\<close>

definition effects ::
  "('db \<Rightarrow> tables) \<Rightarrow> ('db \<Rightarrow> bool) \<Rightarrow> (tables \<Rightarrow> bool) \<Rightarrow> 'db stmt \<Rightarrow> (tables \<Rightarrow> tables) \<Rightarrow> bool" where
  "effects view up p st f \<longleftrightarrow> (\<forall>db. up db \<longrightarrow> p (view db) \<longrightarrow> succeeds view up st f db)"

lemma effectsD:
  assumes "effects view up p st f" and "up db" and "p (view db)"
  obtains db' where "st db = (None, db')" and "up db'" and "view db' = f (view db)"
proof -
  have "succeeds view up st f db" using assms by (simp add: effects_def)
  then show thesis using that by (cases "st db") (auto simp: succeeds_def)
qed

lemma effectsI:
  "(\<And>db. up db \<Longrightarrow> p (view db) \<Longrightarrow> \<exists>db'. st db = (None, db') \<and> up db' \<and> view db' = f (view db))
     \<Longrightarrow> effects view up p st f"
  unfolding effects_def succeeds_def by fastforce

lemma effects_wrap_error: "effects view up p st f \<Longrightarrow> effects view up p (wrap_error msg st) f"
  by (rule effectsI, erule effectsD) (auto simp: wrap_error_def)

lemma effects_cong: "f = g \<Longrightarrow> effects view up p st f = effects view up p st g"
  by simp

lemma effects_Nil: "effects view up p (run_stmts []) (\<lambda>T. T)"
  by (rule effectsI) simp

lemma effects_Cons:
  assumes st: "effects view up p st f" and sts: "effects view up q (run_stmts sts) g"
    and "\<And>T. p T \<Longrightarrow> q (f T)"
  shows "effects view up p (run_stmts (st # sts)) (\<lambda>T. g (f T))"
proof (rule effectsI)
  fix db assume db: "up db" "p (view db)"
  obtain db1 where db1: "st db = (None, db1)" "up db1" "view db1 = f (view db)" by (rule effectsD [OF st db])
  then have "q (view db1)" using assms(3) db(2) by simp
  from effectsD [OF sts db1(2) this] obtain db2 where
    "run_stmts sts db1 = (None, db2)" "up db2" "view db2 = g (view db1)" .
  with db1 show "\<exists>db'. run_stmts (st # sts) db = (None, db') \<and> up db' \<and> view db' = g (f (view db))" by simp
qed

lemma effects_append:
  assumes "effects view up p (run_stmts xs) f" and "effects view up q (run_stmts ys) g"
    and "\<And>T. p T \<Longrightarrow> q (f T)"
  shows "effects view up p (run_stmts (xs @ ys)) (\<lambda>T. g (f T))"
proof (rule effectsI)
  fix db assume db: "up db" "p (view db)"
  obtain db1 where db1: "run_stmts xs db = (None, db1)" "up db1" "view db1 = f (view db)"
    by (rule effectsD [OF assms(1) db])
  then have "q (view db1)" using assms(3) db(2) by simp
  from effectsD [OF assms(2) db1(2) this] obtain db2 where
    db2: "run_stmts ys db1 = (None, db2)" "up db2" "view db2 = g (view db1)" .
  have "run_stmts (xs @ ys) db = run_stmts ys db1" if "run_stmts xs db = (None, db1)" for db
    using that by (induction xs arbitrary: db) (auto split: prod.splits option.splits)
  with db1 db2 show "\<exists>db'. run_stmts (xs @ ys) db = (None, db') \<and> up db' \<and> view db' = g (f (view db))"
    by auto
qed

text \<open>The same statement for each element, when the effects do not get into each other's way.\<close>

lemma effects_map:
  assumes "\<And>x. x \<in> set xs \<Longrightarrow> effects view up (p x) (st x) (f x)"
    and "\<And>ys x zs T. xs = ys @ x # zs \<Longrightarrow> P T \<Longrightarrow> p x (fold f ys T)"
  shows "effects view up P (run_stmts (map st xs)) (fold f xs)"
  using assms
proof (induction xs arbitrary: P)
  case Nil
  then show ?case by (auto intro!: effectsI)
next
  case (Cons x xs)
  have rest: "effects view up (\<lambda>T. \<exists>S. P S \<and> T = f x S) (run_stmts (map st xs)) (fold f xs)"
  proof (rule Cons.IH)
    fix ys y zs T assume *: "xs = ys @ y # zs" "\<exists>S. P S \<and> T = f x S"
    then obtain S where "P S" "T = f x S" by blast
    with Cons.prems(2) [of "x # ys" y zs S] *(1) show "p y (fold f ys T)" by simp
  qed (use Cons.prems(1) in simp)
  have "effects view up P (st x) (f x)"
    using Cons.prems(1) [of x] Cons.prems(2) [of "[]" x xs] by (simp add: effects_def)
  from effects_Cons [OF this rest]
  have "effects view up P (run_stmts (st x # map st xs)) (\<lambda>T. fold f xs (f x T))" by blast
  then show ?case by (simp only: list.map fold.simps comp_def)
qed

text \<open>Statements without a condition on the tables.\<close>

lemma effects_map_free:
  assumes "\<And>x. x \<in> set xs \<Longrightarrow> effects view up (\<lambda>_. True) (st x) (f x)"
  shows "effects view up P (run_stmts (map st xs)) (fold f xs)"
  by (rule effects_map [where p = "\<lambda>_ _. True"]) (use assms in simp_all)

lemma effects_weaken: "effects view up q st f \<Longrightarrow> (\<And>T. p T \<Longrightarrow> q T) \<Longrightarrow> effects view up p st f"
  by (simp add: effects_def)

section \<open>The operations of the database manager\<close>

lemma gorm_transaction:
  assumes G: "gorm_laws G view up" and "effects view up p st f"
  shows "effects view up p (gq_transaction G st) f"
proof (rule effectsI)
  fix db assume db: "up db" "p (view db)"
  obtain db' where db': "st db = (None, db')" "up db'" "view db' = f (view db)"
    by (rule effectsD [OF assms(2) db])
  have "case st db of (None, db') \<Rightarrow> up db' \<longrightarrow> gq_transaction G st db = (None, db')
     | (Some e, db') \<Rightarrow> rejects view up (gq_transaction G st) db"
    by (rule G [unfolded gorm_laws_def, THEN spec, THEN mp, OF db(1), THEN conjunct1, THEN spec])
  with db' show "\<exists>db'. gq_transaction G st db = (None, db') \<and> up db' \<and> view db' = f (view db)" by auto
qed


lemma gorm_effects:
  assumes "gorm_laws G view up"
  shows "storable_worker w \<Longrightarrow> effects view up (\<lambda>_. True) (gq_save_worker G w)
           (\<lambda>T. T\<lparr>tb_workers := (tb_workers T)(wmID w \<mapsto> plain_worker w)\<rparr>)"
    and "storable_gpu g \<Longrightarrow> effects view up (\<lambda>_. True) (gq_save_gpu G g)
           (\<lambda>T. T\<lparr>tb_gpus := (tb_gpus T)(gmID g \<mapsto> plain_gpu g)\<rparr>)"
    and "storable_task t \<Longrightarrow> effects view up (\<lambda>_. True) (gq_save_task G t)
           (\<lambda>T. T\<lparr>tb_tasks := (tb_tasks T)(tmID t \<mapsto> plain_task t)\<rparr>)"
    and "storable_text (tgTaskID a) \<Longrightarrow> storable_text (tgGPUID a) \<Longrightarrow> effects view up (\<lambda>T. (tgTaskID a, tgGPUID a) \<notin> tb_task_gpus T) (gq_create_task_gpu G a)
           (\<lambda>T. T\<lparr>tb_task_gpus := insert (tgTaskID a, tgGPUID a) (tb_task_gpus T)\<rparr>)"
    and "storable_text (pdTaskID p) \<Longrightarrow> effects view up (\<lambda>T. pdTaskID p \<notin> tb_pending T) (gq_create_pending G p)
           (\<lambda>T. T\<lparr>tb_pending := insert (pdTaskID p) (tb_pending T)\<rparr>)"
    and "storable_text k \<Longrightarrow> effects view up (\<lambda>_. True) (gq_delete_task_gpus G k)
           (\<lambda>T. T\<lparr>tb_task_gpus := {p \<in> tb_task_gpus T. fst p \<noteq> k}\<rparr>)"
    and "effects view up (\<lambda>_. True) (gq_exec G ''DELETE FROM pending_task_models'') (\<lambda>T. T\<lparr>tb_pending := {}\<rparr>)"
    and "effects view up (\<lambda>_. True) (gq_exec G ''DELETE FROM task_gpu_models'') (\<lambda>T. T\<lparr>tb_task_gpus := {}\<rparr>)"
    and "effects view up (\<lambda>_. True) (gq_exec G ''DELETE FROM task_models'') (\<lambda>T. T\<lparr>tb_tasks := Map.empty\<rparr>)"
    and "effects view up (\<lambda>_. True) (gq_exec G ''DELETE FROM gpu_models'') (\<lambda>T. T\<lparr>tb_gpus := Map.empty\<rparr>)"
    and "effects view up (\<lambda>_. True) (gq_exec G ''DELETE FROM worker_models'') (\<lambda>T. T\<lparr>tb_workers := Map.empty\<rparr>)"
  using assms unfolding gorm_laws_def effects_def by simp_all

definition no_rows :: tables where
  "no_rows = \<lparr>tb_workers = Map.empty, tb_gpus = Map.empty, tb_tasks = Map.empty, tb_task_gpus = {},
     tb_pending = {}\<rparr>"

lemma effects_ClearAllState:
  assumes "gorm_laws G view up" shows "effects view up (\<lambda>_. True) (ClearAllState G) (\<lambda>_. no_rows)"
proof -
  note E = gorm_effects(7-11) [OF assms]
  have "effects view up (\<lambda>_. True) (ClearAllState G) (\<lambda>T. T\<lparr>tb_pending := {}\<rparr>\<lparr>tb_task_gpus := {}\<rparr>
      \<lparr>tb_tasks := Map.empty\<rparr>\<lparr>tb_gpus := Map.empty\<rparr>\<lparr>tb_workers := Map.empty\<rparr>)"
    unfolding ClearAllState_def
    by (intro gorm_transaction [OF assms]
        effects_Cons [OF E(1) effects_Cons [OF E(2) effects_Cons [OF E(3) effects_Cons [OF E(4)
          effects_Cons [OF E(5) effects_Nil]]]]]) simp_all
  moreover have "(\<lambda>T. T\<lparr>tb_pending := {}\<rparr>\<lparr>tb_task_gpus := {}\<rparr>\<lparr>tb_tasks := Map.empty\<rparr>
      \<lparr>tb_gpus := Map.empty\<rparr>\<lparr>tb_workers := Map.empty\<rparr>) = (\<lambda>_. no_rows)"
  proof
    show "T\<lparr>tb_pending := {}\<rparr>\<lparr>tb_task_gpus := {}\<rparr>\<lparr>tb_tasks := Map.empty\<rparr>
      \<lparr>tb_gpus := Map.empty\<rparr>\<lparr>tb_workers := Map.empty\<rparr> = no_rows" for T :: tables
      by (cases T) (simp add: no_rows_def)
  qed
  ultimately show ?thesis by simp
qed

definition add_gpus :: "GPUModel list \<Rightarrow> tables \<Rightarrow> tables" where
  "add_gpus gms T = T\<lparr>tb_gpus := tb_gpus T ++ map_of (rev (map (\<lambda>g. (gmID g, g)) gms))\<rparr>"

lemma fold_add_gpu:
  "fold (\<lambda>g T. T\<lparr>tb_gpus := (tb_gpus T)(gmID g \<mapsto> plain_gpu g)\<rparr>) gms = add_gpus (map plain_gpu gms)"
proof
  show "fold (\<lambda>g T. T\<lparr>tb_gpus := (tb_gpus T)(gmID g \<mapsto> plain_gpu g)\<rparr>) gms T = add_gpus (map plain_gpu gms) T" for T
    by (induction gms arbitrary: T) (simp_all add: add_gpus_def)
qed

lemma effects_SaveWorker:
  assumes G: "gorm_laws G view up" and w: "storable_worker w"
    and gs: "\<forall>g \<in> set gms. storable_gpu g \<and> gmWorkerID g = wmID w"
  shows "effects view up (\<lambda>_. True) (SaveWorker G w gms)
     (\<lambda>T. add_gpus (map plain_gpu gms) (T\<lparr>tb_workers := (tb_workers T)(wmID w \<mapsto> plain_worker w)\<rparr>))"
proof -
  have same: "g\<lparr>gmWorkerID := wmID w\<rparr> = g" if "g \<in> set gms" for g
    using bspec [OF gs that] by (cases g) simp
  have eq: "map (\<lambda>g. gq_save_gpu G (g\<lparr>gmWorkerID := wmID w\<rparr>)) gms = map (gq_save_gpu G) gms"
    using same by simp
  have "effects view up (\<lambda>_. True) (run_stmts (map (gq_save_gpu G) gms))
      (fold (\<lambda>g T. T\<lparr>tb_gpus := (tb_gpus T)(gmID g \<mapsto> plain_gpu g)\<rparr>) gms)"
    using gs by (intro effects_map_free gorm_effects(2) [OF G]) simp
  then show ?thesis unfolding SaveWorker_def eq fold_add_gpu
    by (intro gorm_transaction [OF G] effects_Cons [OF gorm_effects(1) [OF G w]])
qed

lemma effects_SaveTask:
  assumes G: "gorm_laws G view up" and t: "storable_task t" and ids: "distinct ids" "list_all storable_text ids"
  shows "effects view up (\<lambda>_. True) (SaveTask G t ids)
     (\<lambda>T. T\<lparr>tb_tasks := (tb_tasks T)(tmID t \<mapsto> plain_task t),
            tb_task_gpus := {p \<in> tb_task_gpus T. fst p \<noteq> tmID t} \<union> {tmID t} \<times> set ids\<rparr>)"
proof -
  let ?ins = "\<lambda>i (T :: tables). T\<lparr>tb_task_gpus := insert (tmID t, i) (tb_task_gpus T)\<rparr>"
  let ?P = "\<lambda>T. \<forall>i. (tmID t, i) \<notin> tb_task_gpus T"
  have key: "storable_text (tmID t)" using t by (simp add: storable_task_def)
  have fold: "fold ?ins xs T = T\<lparr>tb_task_gpus := tb_task_gpus T \<union> {tmID t} \<times> set xs\<rparr>" for xs T
    by (induction xs arbitrary: T) auto
  have "effects view up ?P (run_stmts (map (\<lambda>i. gq_create_task_gpu G \<lparr>tgTaskID = tmID t, tgGPUID = i\<rparr>) ids))
      (fold ?ins ids)"
  proof (rule effects_map)
    show "effects view up (\<lambda>T. (tmID t, i) \<notin> tb_task_gpus T)
        (gq_create_task_gpu G \<lparr>tgTaskID = tmID t, tgGPUID = i\<rparr>) (?ins i)" if "i \<in> set ids" for i
      using gorm_effects(4) [OF G, of "\<lparr>tgTaskID = tmID t, tgGPUID = i\<rparr>"] ids(2) that key
      by (simp add: list_all_iff)
  next
    fix ys i zs and T :: tables assume "ids = ys @ i # zs" "?P T"
    then show "(tmID t, i) \<notin> tb_task_gpus (fold ?ins ys T)" using ids(1) by (simp add: fold)
  qed
  note creates = this
  have "effects view up (\<lambda>_. True) (run_stmts (gq_delete_task_gpus G (tmID t)
      # map (\<lambda>i. gq_create_task_gpu G \<lparr>tgTaskID = tmID t, tgGPUID = i\<rparr>) ids))
      (\<lambda>T. fold ?ins ids (T\<lparr>tb_task_gpus := {p \<in> tb_task_gpus T. fst p \<noteq> tmID t}\<rparr>))"
    by (rule effects_Cons [OF gorm_effects(6) [OF G key] creates]) simp
  from gorm_transaction [OF G effects_Cons [OF gorm_effects(3) [OF G t] this]]
  have "effects view up (\<lambda>_. True) (SaveTask G t ids)
     (\<lambda>T. fold ?ins ids ((T\<lparr>tb_tasks := (tb_tasks T)(tmID t \<mapsto> plain_task t)\<rparr>)
        \<lparr>tb_task_gpus := {p \<in> tb_task_gpus (T\<lparr>tb_tasks := (tb_tasks T)(tmID t \<mapsto> plain_task t)\<rparr>). fst p \<noteq> tmID t}\<rparr>))"
    unfolding SaveTask_def by blast
  then show ?thesis by (simp add: fold)
qed

lemma effects_SavePending:
  assumes G: "gorm_laws G view up" and ids: "distinct ids" "list_all storable_text ids"
  shows "effects view up (\<lambda>T. tb_pending T = {})
     (run_stmts (map (\<lambda>i. wrap_error (msg i) (SavePendingTask G stamp i)) ids))
     (\<lambda>T. T\<lparr>tb_pending := tb_pending T \<union> set ids\<rparr>)"
proof -
  let ?ins = "\<lambda>i (T :: tables). T\<lparr>tb_pending := insert i (tb_pending T)\<rparr>"
  have fold: "fold ?ins xs T = T\<lparr>tb_pending := tb_pending T \<union> set xs\<rparr>" for xs T
    by (induction xs arbitrary: T) auto
  have "effects view up (\<lambda>T. tb_pending T = {})
     (run_stmts (map (\<lambda>i. wrap_error (msg i) (SavePendingTask G stamp i)) ids)) (fold ?ins ids)"
  proof (rule effects_map)
    show "effects view up (\<lambda>T. i \<notin> tb_pending T) (wrap_error (msg i) (SavePendingTask G stamp i)) (?ins i)" if "i \<in> set ids" for i
      unfolding SavePendingTask_def
      using effects_wrap_error [OF gorm_effects(5) [OF G, of "\<lparr>pdTaskID = i, pdCreatedAt = fst (stamp i)\<rparr>"]]
        ids(2) that by (simp add: list_all_iff)
  next
    fix ys i zs and T :: tables assume "ids = ys @ i # zs" "tb_pending T = {}"
    then show "i \<notin> tb_pending (fold ?ins ys T)" using ids(1) by (simp add: fold)
  qed
  moreover have "fold ?ins ids = (\<lambda>T. T\<lparr>tb_pending := tb_pending T \<union> set ids\<rparr>)" using fold by auto
  ultimately show ?thesis by simp
qed

section \<open>The tables after a save\<close>

definition saveable_worker :: "string \<times> WorkerState \<Rightarrow> bool" where
  "saveable_worker p \<longleftrightarrow> fst p \<noteq> '''' \<and> storable_text (fst p) \<and> storable_text (wsAddress (snd p)) \<and>
     (\<forall>g \<in> set (wsGPUs (snd p)). gsID g \<noteq> '''' \<and> storable_text (gsID g) \<and> storable_text (gsModel g)
       \<and> uint (gsMemoryMB g) < 2 ^ 63)"

definition saveable_task :: "string \<times> TaskState \<Rightarrow> bool" where
  "saveable_task p \<longleftrightarrow> fst p \<noteq> '''' \<and> storable_text (fst p) \<and> storable_text (tkName (snd p))
     \<and> storable_text (tkWorkerID (snd p)) \<and> uint (tkMinGPUMemory (snd p)) < 2 ^ 63 \<and> storable_float (tkProgress (snd p))
     \<and> distinct (tkAssignedGPUs (snd p)) \<and> list_all storable_text (tkAssignedGPUs (snd p))
     \<and> - 62135596800 < tkStartTime (snd p) \<and> tkStartTime (snd p) < 253402300800"

definition all_gpus :: "WorkerState gomap \<Rightarrow> GPUState list" where
  "all_gpus ws = concat (map (\<lambda>(_, w). wsGPUs w) ws)"

definition saveable_rows :: "SchedulerState \<Rightarrow> bool" where
  "saveable_rows st \<longleftrightarrow> map_ok (ssWorkers st) \<and> map_ok (ssTasks st)
     \<and> list_all saveable_worker (ssWorkers st) \<and> list_all saveable_task (ssTasks st)
     \<and> distinct (ssPendingTasks st) \<and> list_all storable_text (ssPendingTasks st)"

definition saveable :: "SchedulerState \<Rightarrow> bool" where
  "saveable st \<longleftrightarrow> saveable_rows st \<and> distinct (map gsID (all_gpus (ssWorkers st)))"

definition all_gpu_models :: "stamps \<Rightarrow> WorkerState gomap \<Rightarrow> GPUModel list" where
  "all_gpu_models stamp ws = concat (map (\<lambda>(wid, w). map (gpu_model stamp wid) (wsGPUs w)) ws)"

definition saved_tables :: "stamps \<Rightarrow> WorkerState gomap \<Rightarrow> TaskState gomap \<Rightarrow> string list \<Rightarrow> tables" where
  "saved_tables stamp ws ts pending = \<lparr>
     tb_workers = (\<lambda>k. map_option (worker_model stamp k) (map_of ws k)),
     tb_gpus = map_of (map (\<lambda>g. (gmID g, g)) (all_gpu_models stamp ws)),
     tb_tasks = (\<lambda>k. map_option (task_model stamp k) (map_of ts k)),
     tb_task_gpus = {(k, i). \<exists>t. map_of ts k = Some t \<and> i \<in> set (tkAssignedGPUs t)},
     tb_pending = set pending\<rparr>"

text \<open>The rows without the two columns that GORM sets.\<close>

definition no_stamps :: stamps where
  "no_stamps = (\<lambda>_. (0, 0))"

lemma plain_models:
  "plain_worker (worker_model stamp k w) = worker_model no_stamps k w"
  "plain_gpu (gpu_model stamp k g) = gpu_model no_stamps k g"
  "plain_task (task_model stamp k t) = task_model no_stamps k t"
  by (simp_all add: plain_worker_def plain_gpu_def plain_task_def worker_model_def gpu_model_def task_model_def no_stamps_def Let_def)

lemma map_of_rev: "distinct (map fst xs) \<Longrightarrow> map_of (rev xs) = map_of xs"
  by (subst map_of_inject_set) (simp_all add: rev_map [symmetric])

lemma map_of_mset: "mset xs = mset ys \<Longrightarrow> distinct (map fst xs) \<Longrightarrow> map_of xs = map_of ys"
  by (metis distinct_map map_of_inject_set mset_eq_imp_distinct_iff mset_eq_setD mset_map)

lemma map_of_models: "map_of (map (\<lambda>(k, v). (k, h k v)) m) k = map_option (h k) (map_of m k)"
  by (induction m) auto

lemma fst_models: "map fst (map (\<lambda>(k, v). (k, h k v)) m) = map fst m"
  by (induction m) auto

lemma mset_concat_permute:
  "mset (concat (map f (permute cs xs))) = mset (concat (map f xs))"
  by (simp only: mset_concat sum_mset_sum_list [symmetric] mset_map mset_permute)

lemma gm_keys: "map gmID (all_gpu_models stamp ws) = map gsID (all_gpus ws)"
  by (induction ws) (auto simp: all_gpu_models_def all_gpus_def gpu_model_def)

lemma map_add_first:
  "(m(k \<mapsto> v)) ++ map_of (rev xs) = m ++ map_of (rev ((k, v) # xs))"
  "(m ++ map_of (rev ys)) ++ map_of (rev xs) = m ++ map_of (rev (ys @ xs))"
  by (simp_all add: map_add_def fun_eq_iff split: option.split)

text \<open>What one iteration of each loop of \<^verbatim>\<open>saveToDatabase\<close> does to the tables.\<close>

definition worker_effect :: "stamps \<Rightarrow> string \<times> WorkerState \<Rightarrow> tables \<Rightarrow> tables" where
  "worker_effect stamp p T = (case p of (wid, w) \<Rightarrow> add_gpus (map (gpu_model stamp wid) (wsGPUs w))
     (T\<lparr>tb_workers := (tb_workers T)(wid \<mapsto> worker_model stamp wid w)\<rparr>))"

definition task_effect :: "stamps \<Rightarrow> string \<times> TaskState \<Rightarrow> tables \<Rightarrow> tables" where
  "task_effect stamp p T = (case p of (tid, t) \<Rightarrow>
     T\<lparr>tb_tasks := (tb_tasks T)(tid \<mapsto> task_model stamp tid t),
       tb_task_gpus := {p \<in> tb_task_gpus T. fst p \<noteq> tid} \<union> {tid} \<times> set (tkAssignedGPUs t)\<rparr>)"

lemma fold_workers:
  "fold (worker_effect stamp) ws T
     = T\<lparr>tb_workers := tb_workers T ++ map_of (rev (map (\<lambda>(k, w). (k, worker_model stamp k w)) ws)),
         tb_gpus := tb_gpus T ++ map_of (rev (map (\<lambda>g. (gmID g, g)) (all_gpu_models stamp ws)))\<rparr>"
proof (induction ws arbitrary: T)
  case (Cons p ws)
  obtain wid w where p: "p = (wid, w)" by (cases p)
  have eff: "worker_effect stamp (wid, w) T = T\<lparr>tb_workers := (tb_workers T)(wid \<mapsto> worker_model stamp wid w),
      tb_gpus := tb_gpus T ++ map_of (rev (map (\<lambda>g. (gmID g, g)) (map (gpu_model stamp wid) (wsGPUs w))))\<rparr>"
    by (simp add: worker_effect_def add_gpus_def)
  have T: "T\<lparr>tb_workers := x, tb_gpus := y\<rparr>\<lparr>tb_workers := x', tb_gpus := y'\<rparr>
      = T\<lparr>tb_workers := x', tb_gpus := y'\<rparr>" for x y x' y' by simp
  have sel: "tb_workers (T\<lparr>tb_workers := x, tb_gpus := y\<rparr>) = x"
    "tb_gpus (T\<lparr>tb_workers := x, tb_gpus := y\<rparr>) = y" for x y by simp_all
  show ?case
    by (simp only: fold_simps Cons.IH)
       (simp only: eff T sel list.map prod.case map_add_first all_gpu_models_def
          concat.simps map_append p)
qed (simp add: all_gpu_models_def)

lemma fold_tasks:
  assumes "distinct (map fst ts)" and "\<forall>k \<in> fst ` set ts. \<forall>i. (k, i) \<notin> tb_task_gpus T"
  shows "fold (task_effect stamp) ts T
     = T\<lparr>tb_tasks := tb_tasks T ++ map_of (rev (map (\<lambda>(k, t). (k, task_model stamp k t)) ts)),
         tb_task_gpus := tb_task_gpus T \<union> {(k, i). \<exists>t. (k, t) \<in> set ts \<and> i \<in> set (tkAssignedGPUs t)}\<rparr>"
  using assms
proof (induction ts arbitrary: T)
  case (Cons p ts)
  obtain tid t where p: "p = (tid, t)" by (cases p)
  have same: "{p \<in> tb_task_gpus T. fst p \<noteq> tid} = tb_task_gpus T" using Cons.prems(2) by (auto simp: p)
  have T: "T\<lparr>tb_tasks := x, tb_task_gpus := y\<rparr>\<lparr>tb_tasks := x', tb_task_gpus := y'\<rparr>
      = T\<lparr>tb_tasks := x', tb_task_gpus := y'\<rparr>" for x y x' y' by simp
  have sel: "tb_tasks (T\<lparr>tb_tasks := x, tb_task_gpus := y\<rparr>) = x"
    "tb_task_gpus (T\<lparr>tb_tasks := x, tb_task_gpus := y\<rparr>) = y" for x y by simp_all
  have eff: "task_effect stamp (tid, t) T = T\<lparr>tb_tasks := (tb_tasks T)(tid \<mapsto> task_model stamp tid t),
      tb_task_gpus := tb_task_gpus T \<union> {tid} \<times> set (tkAssignedGPUs t)\<rparr>"
    by (simp only: task_effect_def prod.case same)
  have "\<forall>k \<in> fst ` set ts. \<forall>i. (k, i) \<notin> tb_task_gpus (task_effect stamp p T)"
    using Cons.prems by (auto simp: p eff image_iff)
  note IH = Cons.IH [OF _ this]
  have "{tid} \<times> set (tkAssignedGPUs t) \<union> {(k, i). \<exists>t. (k, t) \<in> set ts \<and> i \<in> set (tkAssignedGPUs t)}
      = {(k, i). \<exists>t. (k, t) \<in> set (p # ts) \<and> i \<in> set (tkAssignedGPUs t)}"
    by (auto simp: p)
  moreover have "distinct (map fst ts)" using Cons.prems(1) by simp
  ultimately show ?case
    by (simp only: fold_simps IH) (simp only: eff T sel map_add_first same list.map prod.case p Un_assoc)
qed simp

lemma effects_save_workers:
  assumes G: "gorm_laws G view up" and ws: "\<forall>p \<in> set ws. saveable_worker p"
  shows "effects view up P (run_stmts (map (\<lambda>(wid, worker). wrap_error (msg wid)
      (SaveWorker G (worker_model stamp wid worker) (map (gpu_model stamp wid) (wsGPUs worker)))) ws))
    (fold (worker_effect no_stamps) ws)"
proof (rule effects_map_free)
  fix p assume "p \<in> set ws"
  moreover obtain wid w where p: "p = (wid, w)" by (cases p)
  ultimately have ok: "saveable_worker (wid, w)" using ws by auto
  have key: "wmID (worker_model stamp wid w) = wid" by (simp add: worker_model_def)
  have wm: "storable_worker (worker_model stamp wid w)"
    using ok by (simp add: storable_worker_def worker_model_def saveable_worker_def)
  have gms: "\<forall>g \<in> set (map (gpu_model stamp wid) (wsGPUs w)).
      storable_gpu g \<and> gmWorkerID g = wmID (worker_model stamp wid w)"
    using ok by (auto simp: key saveable_worker_def storable_gpu_def gpu_model_def)
  have "worker_effect no_stamps p = (\<lambda>T. add_gpus (map plain_gpu (map (gpu_model stamp wid) (wsGPUs w)))
      (T\<lparr>tb_workers := (tb_workers T)(wmID (worker_model stamp wid w) \<mapsto> plain_worker (worker_model stamp wid w))\<rparr>))"
    by (rule ext) (simp only: worker_effect_def p prod.case key plain_models map_map comp_def)
  with effects_SaveWorker [OF G wm gms] have "effects view up (\<lambda>_. True)
      (SaveWorker G (worker_model stamp wid w) (map (gpu_model stamp wid) (wsGPUs w))) (worker_effect no_stamps p)"
    by (simp only:)
  then show "effects view up (\<lambda>_. True) (case p of (wid, worker) \<Rightarrow> wrap_error (msg wid)
      (SaveWorker G (worker_model stamp wid worker) (map (gpu_model stamp wid) (wsGPUs worker))))
      (worker_effect no_stamps p)"
    by (simp add: p effects_wrap_error)
qed

lemma effects_save_tasks:
  assumes G: "gorm_laws G view up" and ts: "\<forall>p \<in> set ts. saveable_task p"
  shows "effects view up P (run_stmts (map (\<lambda>(tid, task). wrap_error (msg tid)
      (SaveTask G (task_model stamp tid task) (tkAssignedGPUs task))) ts)) (fold (task_effect no_stamps) ts)"
proof (rule effects_map_free)
  fix p assume "p \<in> set ts"
  moreover obtain tid t where p: "p = (tid, t)" by (cases p)
  ultimately have ok: "saveable_task (tid, t)" using ts by auto
  have "storable_time (tmStartTime (task_model stamp tid t))"
    using ok by (simp add: storable_time_def saveable_task_def task_model_def zero_time_def unix_time_def Let_def)
  then have "storable_task (task_model stamp tid t)" "tmID (task_model stamp tid t) = tid"
    using ok by (simp_all add: storable_task_def saveable_task_def task_model_def Let_def)
  note tm = this
  have ids: "distinct (tkAssignedGPUs t)" "list_all storable_text (tkAssignedGPUs t)"
    using ok by (simp_all add: saveable_task_def)
  have "task_effect no_stamps p = (\<lambda>T. T\<lparr>tb_tasks := (tb_tasks T)(tmID (task_model stamp tid t) \<mapsto> plain_task (task_model stamp tid t)),
      tb_task_gpus := {p \<in> tb_task_gpus T. fst p \<noteq> tmID (task_model stamp tid t)}
        \<union> {tmID (task_model stamp tid t)} \<times> set (tkAssignedGPUs t)\<rparr>)"
    by (rule ext) (simp only: task_effect_def p prod.case tm plain_models)
  with effects_SaveTask [OF G tm(1) ids]
  have "effects view up (\<lambda>_. True) (SaveTask G (task_model stamp tid t) (tkAssignedGPUs t)) (task_effect no_stamps p)"
    by (simp only:)
  then show "effects view up (\<lambda>_. True) (case p of (tid, task) \<Rightarrow> wrap_error (msg tid)
      (SaveTask G (task_model stamp tid task) (tkAssignedGPUs task))) (task_effect no_stamps p)"
    by (simp add: p effects_wrap_error)
qed

text \<open>GPU rows: with unique ids the order of the writes does not matter.\<close>

lemma gpu_rows_permute:
  assumes "distinct (map gsID (all_gpus ws))"
  shows "map_of (rev (map (\<lambda>g. (gmID g, g)) (all_gpu_models stamp (permute cs ws))))
      = map_of (map (\<lambda>g. (gmID g, g)) (all_gpu_models stamp ws))"
proof -
  let ?rows = "\<lambda>ws. map (\<lambda>g. (gmID g, g)) (all_gpu_models stamp ws)"
  have ms: "mset (?rows (permute cs ws)) = mset (?rows ws)"
    unfolding all_gpu_models_def mset_map mset_concat_permute ..
  have "map fst (?rows ws) = map gsID (all_gpus ws)"
    by (simp only: map_map comp_def fst_conv gm_keys)
  with assms have d: "distinct (map fst (?rows ws))" by (simp only:)
  have "mset (map fst (?rows (permute cs ws))) = mset (map fst (?rows ws))"
    unfolding mset_map [of fst] ms ..
  from iffD2 [OF mset_eq_imp_distinct_iff [OF this] d]
  have d': "distinct (map fst (?rows (permute cs ws)))" .
  show ?thesis unfolding map_of_rev [OF d'] by (rule map_of_mset [OF ms d'])
qed

lemma distinct_model_keys:
  "map_ok m \<Longrightarrow> distinct (map fst (map (\<lambda>(k, v). (k, h k v)) (permute cs m)))"
  unfolding fst_models using map_ok_permute [of cs m] by (simp only: map_ok_def)

lemma saved_workers:
  assumes "map_ok ws"
  shows "fold (worker_effect stamp) (permute cs ws) no_rows
     = no_rows\<lparr>tb_workers := \<lambda>k. map_option (worker_model stamp k) (map_of ws k),
               tb_gpus := map_of (rev (map (\<lambda>g. (gmID g, g)) (all_gpu_models stamp (permute cs ws))))\<rparr>"
  unfolding fold_workers map_of_rev [OF distinct_model_keys [OF assms]]
  using assms by (simp add: no_rows_def fun_eq_iff map_of_models)

lemma saved_tasks:
  assumes "map_ok ws" and "map_ok ts"
  shows "fold (task_effect stamp) (permute cs' ts) (fold (worker_effect stamp) (permute cs ws) no_rows)
     = (saved_tables stamp ws ts [])
         \<lparr>tb_gpus := map_of (rev (map (\<lambda>g. (gmID g, g)) (all_gpu_models stamp (permute cs ws))))\<rparr>"
proof -
  let ?T = "fold (worker_effect stamp) (permute cs ws) no_rows"
  have ts: "distinct (map fst (permute cs' ts))"
    using assms(2) map_ok_permute [of cs' ts] by (simp only: map_ok_def)
  have none: "tb_task_gpus ?T = {}" "tb_tasks ?T = Map.empty"
    by (simp_all add: saved_workers [OF assms(1)]) (simp_all add: no_rows_def)
  have "(k, t) \<in> set (permute cs' ts) \<longleftrightarrow> map_of ts k = Some t" for k t
    using assms(2) by (simp add: map_ok_in_iff)
  then have tasks: "fold (task_effect stamp) (permute cs' ts) ?T
      = ?T\<lparr>tb_tasks := \<lambda>k. map_option (task_model stamp k) (map_of ts k),
           tb_task_gpus := {(k, i). \<exists>t. map_of ts k = Some t \<and> i \<in> set (tkAssignedGPUs t)}\<rparr>"
    using fold_tasks [OF ts, of ?T stamp] assms(2)
    by (simp add: none map_of_rev [OF distinct_model_keys [OF assms(2)]] map_of_models [abs_def])
  show ?thesis unfolding tasks unfolding saved_workers [OF assms(1)]
    by (simp add: no_rows_def saved_tables_def)
qed

lemma saveToDatabase_eq:
  assumes "mgHasDB m"
  shows "saveToDatabase G m stamp ch st = run_stmts
     (wrap_error ''failed to clear existing state: '' (ClearAllState G)
      # map (\<lambda>(wid, worker). wrap_error (''failed to save worker '' @ wid @ '': '')
            (SaveWorker G (worker_model stamp wid worker) (map (gpu_model stamp wid) (wsGPUs worker))))
          (permute (fst ch) (ssWorkers st))
      @ map (\<lambda>(tid, task). wrap_error (''failed to save task '' @ tid @ '': '')
            (SaveTask G (task_model stamp tid task) (tkAssignedGPUs task)))
          (permute (snd ch) (ssTasks st))
      @ map (\<lambda>tid. wrap_error (''failed to save pending task '' @ tid @ '': '')
            (SavePendingTask G stamp tid)) (ssPendingTasks st))"
  by (rule ext) (simp only: saveToDatabase_def assms not_True_eq_False if_False)

text \<open>
  A save clears the tables and writes the rows; of GPU rows with the same id the last one stays. When the ids are unique
  the order of the writes does not matter.
\<close>

lemma effects_save_rows:
  assumes G: "gorm_laws G view up" and m: "mgHasDB m" and st: "saveable_rows st"
  shows "effects view up (\<lambda>_. True) (saveToDatabase G m stamp ch st)
     (\<lambda>_. (saved_tables no_stamps (ssWorkers st) (ssTasks st) (ssPendingTasks st))
        \<lparr>tb_gpus := map_of (rev (map (\<lambda>g. (gmID g, g)) (all_gpu_models no_stamps (permute (fst ch) (ssWorkers st)))))\<rparr>)"
proof -
  let ?ws = "permute (fst ch) (ssWorkers st)" and ?ts = "permute (snd ch) (ssTasks st)"
  let ?T1 = "fold (worker_effect no_stamps) ?ws no_rows"
  have ok: "map_ok (ssWorkers st)" "map_ok (ssTasks st)"
    and pd: "distinct (ssPendingTasks st)" "list_all storable_text (ssPendingTasks st)"
    and ws: "\<forall>p \<in> set ?ws. saveable_worker p" and ts: "\<forall>p \<in> set ?ts. saveable_task p"
    using st by (simp_all add: saveable_rows_def list_all_iff)
  note tabs = saved_tasks [OF ok, of no_stamps "snd ch" "fst ch"]
  have P: "effects view up (\<lambda>T. T = ?T1) (run_stmts (map (\<lambda>(tid, task).
        wrap_error (''failed to save task '' @ tid @ '': '')
          (SaveTask G (task_model stamp tid task) (tkAssignedGPUs task))) ?ts
      @ map (\<lambda>tid. wrap_error (''failed to save pending task '' @ tid @ '': '')
          (SavePendingTask G stamp tid)) (ssPendingTasks st)))
     (\<lambda>T. (fold (task_effect no_stamps) ?ts T)\<lparr>tb_pending :=
        tb_pending (fold (task_effect no_stamps) ?ts T) \<union> set (ssPendingTasks st)\<rparr>)"
    by (rule effects_append [OF effects_save_tasks [OF G ts] effects_SavePending [OF G pd]])
       (simp add: tabs saved_tables_def)
  note W = effects_append [OF effects_save_workers [OF G ws, of "\<lambda>T. T = no_rows"] P, simplified]
  from effects_Cons [OF effects_wrap_error [OF effects_ClearAllState [OF G]] W]
  have "effects view up (\<lambda>_. True) (saveToDatabase G m stamp ch st)
     (\<lambda>_. (fold (task_effect no_stamps) ?ts ?T1)\<lparr>tb_pending :=
        tb_pending (fold (task_effect no_stamps) ?ts ?T1) \<union> set (ssPendingTasks st)\<rparr>)"
    unfolding saveToDatabase_eq [OF m] by simp
  then show ?thesis by (simp add: tabs saved_tables_def)
qed

lemma effects_saveToDatabase:
  assumes G: "gorm_laws G view up" and m: "mgHasDB m" and st: "saveable st"
  shows "effects view up (\<lambda>_. True) (saveToDatabase G m stamp ch st)
     (\<lambda>_. saved_tables no_stamps (ssWorkers st) (ssTasks st) (ssPendingTasks st))"
proof -
  have rows: "saveable_rows st" "distinct (map gsID (all_gpus (ssWorkers st)))" using st by (simp_all add: saveable_def)
  from effects_save_rows [OF G m rows(1), of stamp ch] show ?thesis
    by (simp add: gpu_rows_permute [OF rows(2)] saved_tables_def)
qed

end
