(* ===== verification/PersistLoad.thy ===== *)
theory PersistLoad
  imports PersistRT "HOL-Library.Multiset"
begin

text \<open>
  Loading what \<^verbatim>\<open>saveToDatabase\<close> stored: the conversions are inverse to each other, the load loops
  are folds over the rows, and the loaded snapshot is the saved one up to the order of rows.
\<close>

section \<open>The conversions\<close>

lemma status_roundtrip [simp]: "status_of_int (int_of_status st) = st"
  by (rule bit_word_eqI) (auto simp: status_of_int_def int_of_status_def bit_simps)

lemma unix_roundtrip [simp]: "unix_seconds (unix_time sec) = sec"
  by (simp add: unix_seconds_def unix_time_def)

lemma gpu_roundtrip [simp]: "gpu_state (gpu_model stamp wid g) = g"
  by (simp add: gpu_state_def gpu_model_def)

lemma task_roundtrip:
  assumes "- 62135596800 < tkStartTime t"
  shows "task_state (task_model stamp tid t) ids = t\<lparr>tkID := tid, tkAssignedGPUs := ids\<rparr>"
proof -
  have "unix_time (tkStartTime t) \<noteq> zero_time" using assms by (simp add: unix_time_def zero_time_def)
  then show ?thesis by (cases t) (simp add: task_state_def task_model_def Let_def)
qed

section \<open>The loops\<close>

lemma fold_mput:
  assumes "distinct (map key xs)" and "map_ok m"
  shows "map_ok (fold (\<lambda>x. mput (key x) (f x)) xs m)"
    and "map_of (fold (\<lambda>x. mput (key x) (f x)) xs m) k
         = (if k \<in> key ` set xs then map_of (map (\<lambda>x. (key x, f x)) xs) k else map_of m k)"
  using assms
proof (induction xs arbitrary: m)
  case (Cons x xs)
  { case 1 then show ?case using Cons.IH(1) by simp }
  { case 2
    then have "map_of (fold (\<lambda>x. mput (key x) (f x)) (x # xs) m) k
        = (if k \<in> key ` set xs then map_of (map (\<lambda>x. (key x, f x)) xs) k else map_of (mput (key x) (f x) m) k)"
      using Cons.IH(2) [of "mput (key x) (f x) m"] by simp
    then show ?case using 2 by auto }
qed simp_all

lemma map_of_key:
  assumes "distinct (map key xs)" and "x \<in> set xs"
  shows "map_of (map (\<lambda>x. (key x, f x)) xs) (key x) = Some (f x)"
  using assms by (intro map_of_is_SomeI) (simp_all add: comp_def)

text \<open>A map filled from the rows of a table maps each key of the table to its row's image.\<close>

lemma fold_mput_rows:
  assumes rows: "lists_rows key table (Inr rows)" and "\<And>k x. table k = Some x \<Longrightarrow> key x = k"
  shows "map_ok (fold (\<lambda>x. mput (key x) (f x)) rows [])"
    and "map_of (fold (\<lambda>x. mput (key x) (f x)) rows []) k = map_option f (table k)"
proof -
  have d: "distinct (map key rows)" and mem: "\<And>x. x \<in> set rows \<longleftrightarrow> table (key x) = Some x"
    using rows by (auto simp: lists_rows_def)
  show "map_ok (fold (\<lambda>x. mput (key x) (f x)) rows [])" by (rule fold_mput [OF d]) simp
  show "map_of (fold (\<lambda>x. mput (key x) (f x)) rows []) k = map_option f (table k)"
  proof (cases "table k")
    case None
    then have "k \<notin> key ` set rows" using mem by force
    then show ?thesis using None by (simp add: fold_mput(2) [OF d])
  next
    case (Some x)
    then have "x \<in> set rows" "key x = k" using mem assms(2) by metis+
    then show ?thesis using Some map_of_key [OF d] by (force simp: fold_mput(2) [OF d])
  qed
qed

lemma fold_mput_saved:
  assumes rows: "lists_rows key (\<lambda>k. map_option (h k) (map_of m k)) (Inr rows)" and key: "\<And>k x. key (h k x) = k"
  shows "map_ok (fold (\<lambda>x. mput (key x) (f x)) rows [])"
    and "map_of (fold (\<lambda>x. mput (key x) (f x)) rows []) k = map_option (\<lambda>x. f (h k x)) (map_of m k)"
proof -
  have inv: "key y = k" if "map_option (h k) (map_of m k) = Some y" for k y using that key by auto
  show "map_ok (fold (\<lambda>x. mput (key x) (f x)) rows [])" by (rule fold_mput_rows(1) [OF rows inv])
  show "map_of (fold (\<lambda>x. mput (key x) (f x)) rows []) k = map_option (\<lambda>x. f (h k x)) (map_of m k)"
    using fold_mput_rows(2) [OF rows inv, of f k] by (simp add: option.map_comp comp_def)
qed

definition loaded_worker :: "(string \<Rightarrow> GPUModel list) \<Rightarrow> WorkerModel \<Rightarrow> WorkerState" where
  "loaded_worker gms wm = \<lparr>wsID = wmID wm, wsGPUs = map gpu_state (gms (wmID wm)),
     wsAddress = wmAddress wm, wsWStatus = status_of_int (wmStatus wm), wsTasks = []\<rparr>"

lemma plain_states [simp]:
  "gpu_state (plain_gpu g) = gpu_state g" "task_state (plain_task t) ids = task_state t ids"
  "loaded_worker gms (plain_worker w) = loaded_worker gms w" "list_task (plain_task t) = list_task t"
  by (simp_all add: gpu_state_def plain_gpu_def task_state_def plain_task_def loaded_worker_def plain_worker_def
      list_task_def fun_eq_iff split: option.split)

lemma plain_rowsD:
  assumes "plain_rows plain r = Inr rows"
  obtains raw where "r = Inr raw" "rows = map plain raw"
  using that assms by (cases r) (simp_all add: plain_rows_def)

lemma load_workers_eq:
  assumes "\<And>wm. wm \<in> set wms \<Longrightarrow> plain_rows plain_gpu (GetWorkerGPUs G (wmID wm) db) = Inr (gms (wmID wm))"
  shows "load_workers G db wms ws = Inr (fold (\<lambda>wm. mput (wmID wm) (loaded_worker gms wm)) (map plain_worker wms) ws)"
  using assms
proof (induction wms arbitrary: ws)
  case (Cons wm wms)
  obtain raw where "GetWorkerGPUs G (wmID wm) db = Inr raw" "gms (wmID wm) = map plain_gpu raw"
    by (rule plain_rowsD [OF Cons.prems [of wm]]) simp_all
  moreover have "wmAddress (plain_worker wm) = wmAddress wm" "wmStatus (plain_worker wm) = wmStatus wm"
    by (simp_all add: plain_worker_def)
  ultimately show ?case using Cons by (simp add: loaded_worker_def comp_def)
qed simp

lemma load_tasks_eq:
  assumes "\<And>tm. tm \<in> set tms \<Longrightarrow> GetTaskGPUs G (tmID tm) db = Inr (ids (tmID tm))"
  shows "load_tasks G db tms ws ts = Inr (fold list_task (map plain_task tms) ws,
    fold (\<lambda>tm. mput (tmID tm) (task_state tm (ids (tmID tm)))) (map plain_task tms) ts)"
  using assms by (induction tms arbitrary: ws ts) simp_all

text \<open>The task list of each worker: the tasks that name it, in the order of the rows.\<close>

lemma map_ok_list_task [simp]: "map_ok ws \<Longrightarrow> map_ok (list_task tm ws)"
  by (simp add: list_task_def split: option.split)

lemma map_of_list_task:
  assumes "k \<noteq> ''''"
  shows "map_of (list_task tm ws) k
     = map_option (\<lambda>w. w\<lparr>wsTasks := wsTasks w @ (if tmWorkerID tm = k then [tmID tm] else [])\<rparr>) (map_of ws k)"
  using assms by (auto simp: list_task_def split: option.split)

lemma fold_list_task:
  assumes "map_ok ws"
  shows "map_ok (fold list_task tms ws)"
    and "k \<noteq> '''' \<Longrightarrow> map_of (fold list_task tms ws) k
     = map_option (\<lambda>w. w\<lparr>wsTasks := wsTasks w @ map tmID (filter (\<lambda>tm. tmWorkerID tm = k) tms)\<rparr>) (map_of ws k)"
  using assms
  by (induction tms arbitrary: ws)
     (simp_all add: map_of_list_task option.map_comp comp_def option.map_ident)

lemma fold_list_task_None: "map_of (fold list_task tms ws) k = None \<longleftrightarrow> map_of ws k = None"
proof (induction tms arbitrary: ws)
  case (Cons tm tms)
  have "map_of (list_task tm ws) k = None \<longleftrightarrow> map_of ws k = None"
    by (auto simp: list_task_def split: option.split)
  with Cons show ?case by simp
qed simp

section \<open>The round trip\<close>

text \<open>
  The loaded snapshot against the saved one: the same workers, each with its address, status and the same GPUs;
  the same tasks with the same GPU assignments; the same pending tasks. The order of rows is lost, and the task list of a worker
  is made of the tasks that name it, whatever the saved list was.
\<close>

definition restored_worker :: "TaskState gomap \<Rightarrow> string \<Rightarrow> WorkerState \<Rightarrow> WorkerState \<Rightarrow> bool" where
  "restored_worker ts wid w w' \<longleftrightarrow>
     wsID w' = wid \<and> wsAddress w' = wsAddress w \<and> wsWStatus w' = wsWStatus w
     \<and> mset (wsGPUs w') = mset (wsGPUs w)
     \<and> mset (wsTasks w') = mset (map fst (filter (\<lambda>(_, t). tkWorkerID t = wid) ts))"

definition restored_task :: "string \<Rightarrow> TaskState \<Rightarrow> TaskState \<Rightarrow> bool" where
  "restored_task tid t t' \<longleftrightarrow>
     t'\<lparr>tkAssignedGPUs := []\<rparr> = t\<lparr>tkID := tid, tkAssignedGPUs := []\<rparr>
     \<and> mset (tkAssignedGPUs t') = mset (tkAssignedGPUs t)"

definition restored :: "SchedulerState \<Rightarrow> SchedulerState \<Rightarrow> bool" where
  "restored st st' \<longleftrightarrow>
     map_ok (ssWorkers st') \<and> map_ok (ssTasks st')
     \<and> (\<forall>k. rel_option (restored_worker (ssTasks st) k) (map_of (ssWorkers st) k) (map_of (ssWorkers st') k))
     \<and> (\<forall>k. rel_option (restored_task k) (map_of (ssTasks st) k) (map_of (ssTasks st') k))
     \<and> mset (ssPendingTasks st') = mset (ssPendingTasks st)"

lemma mset_by_set: "distinct xs \<Longrightarrow> distinct ys \<Longrightarrow> set xs = set ys \<Longrightarrow> mset xs = mset ys"
  by (simp add: set_eq_iff_mset_eq_distinct)

text \<open>The rows read back for one worker or one task.\<close>

lemma saved_gpu_rows:
  assumes ok: "map_ok ws" "distinct (map gsID (all_gpus ws))" and w: "map_of ws wid = Some w"
    and rows: "lists_rows gmID (\<lambda>k. case map_of (map (\<lambda>g. (gmID g, g)) (all_gpu_models stamp ws)) k of
      Some g \<Rightarrow> if gmWorkerID g = wid then Some g else None | None \<Rightarrow> None) (Inr rows)"
  shows "mset (map gpu_state rows) = mset (wsGPUs w)"
proof -
  let ?all = "all_gpu_models stamp ws"
  have d: "distinct (map gmID ?all)" using ok(2) by (simp only: gm_keys)
  have row: "map_of (map (\<lambda>g. (gmID g, g)) ?all) (gmID g) = Some g \<longleftrightarrow> g \<in> set ?all" for g
    using d by (subst map_of_eq_Some_iff) (auto simp: comp_def)
  have dr: "distinct (map gmID rows)" using rows by (simp add: lists_rows_def)
  have mem: "g \<in> set rows \<longleftrightarrow> g \<in> set ?all \<and> gmWorkerID g = wid" for g
  proof -
    have "g \<in> set rows \<longleftrightarrow> (case map_of (map (\<lambda>g. (gmID g, g)) ?all) (gmID g) of
      Some g \<Rightarrow> if gmWorkerID g = wid then Some g else None | None \<Rightarrow> None) = Some g"
      using rows by (simp only: lists_rows_def sum.inject) blast
    then show ?thesis by (cases "map_of (map (\<lambda>g. (gmID g, g)) ?all) (gmID g)") (auto simp: row [symmetric])
  qed
  have own: "gmWorkerID (gpu_model stamp k g) = k" for k g by (simp add: gpu_model_def)
  have all: "set ?all = (\<Union>(k, v) \<in> set ws. gpu_model stamp k ` set (wsGPUs v))"
    by (simp add: all_gpu_models_def case_prod_beta)
  have "(wid, v) \<in> set ws \<longleftrightarrow> v = w" for v using ok(1) w by (auto simp: map_ok_in_iff)
  then have set: "set rows = gpu_model stamp wid ` set (wsGPUs w)"
    using mem own by (auto simp: all) blast
  have "distinct (map gsID (wsGPUs w))"
  proof -
    have "wsGPUs w \<in> set (map (\<lambda>(_, w). wsGPUs w) ws)" using map_of_SomeD [OF w] by force
    then obtain xs ys where "map (\<lambda>(_, w). wsGPUs w) ws = xs @ wsGPUs w # ys" by (meson split_list)
    then show ?thesis using ok(2) by (simp add: all_gpus_def)
  qed
  then have dw: "distinct (wsGPUs w)" by (simp add: distinct_map)
  have "inj_on gpu_state (set rows)" unfolding set by (auto simp: inj_on_def)
  then have "distinct (map gpu_state rows)" using dr by (simp add: distinct_map)
  moreover have "set (map gpu_state rows) = set (wsGPUs w)" by (simp add: set image_image)
  ultimately show ?thesis using dw by (intro mset_by_set)
qed

lemma saved_task_list:
  assumes ok: "map_ok ts"
    and rows: "lists_rows tmID (\<lambda>k. map_option (task_model stamp k) (map_of ts k)) (Inr tms)"
  shows "mset (map tmID (filter (\<lambda>tm. tmWorkerID tm = wid) tms))
       = mset (map fst (filter (\<lambda>(_, t). tkWorkerID t = wid) ts))"
proof (rule mset_by_set)
  have "distinct (map tmID tms)" using rows by (simp add: lists_rows_def)
  then show "distinct (map tmID (filter (\<lambda>tm. tmWorkerID tm = wid) tms))" by (rule distinct_map_filter)
  show "distinct (map fst (filter (\<lambda>(_, t). tkWorkerID t = wid) ts))"
    using ok unfolding map_ok_def by (rule distinct_map_filter)
  have key: "tmID (task_model stamp k t) = k" "tmWorkerID (task_model stamp k t) = tkWorkerID t" for k t
    by (simp_all add: task_model_def Let_def)
  have mem: "tm \<in> set tms \<longleftrightarrow> map_option (task_model stamp (tmID tm)) (map_of ts (tmID tm)) = Some tm" for tm
    using rows by (simp add: lists_rows_def)
  have "tm \<in> set tms \<longleftrightarrow> (\<exists>k t. map_of ts k = Some t \<and> tm = task_model stamp k t)" for tm
    unfolding mem map_option_eq_Some using key(1) by metis
  then have row: "tm \<in> set tms \<longleftrightarrow> (\<exists>k t. (k, t) \<in> set ts \<and> tm = task_model stamp k t)" for tm
    using ok by (simp add: map_ok_in_iff)
  show "set (map tmID (filter (\<lambda>tm. tmWorkerID tm = wid) tms))
      = set (map fst (filter (\<lambda>(_, t). tkWorkerID t = wid) ts))"
  proof (rule set_eqI)
    fix k
    have "k \<in> set (map tmID (filter (\<lambda>tm. tmWorkerID tm = wid) tms))
      \<longleftrightarrow> (\<exists>tm. tm \<in> set tms \<and> tmWorkerID tm = wid \<and> tmID tm = k)" by auto
    also have "\<dots> \<longleftrightarrow> (\<exists>t. (k, t) \<in> set ts \<and> tkWorkerID t = wid)" unfolding row by (metis key)
    also have "\<dots> \<longleftrightarrow> k \<in> set (map fst (filter (\<lambda>(_, t). tkWorkerID t = wid) ts))" by (auto simp: image_iff)
    finally show "k \<in> set (map tmID (filter (\<lambda>tm. tmWorkerID tm = wid) tms))
      \<longleftrightarrow> k \<in> set (map fst (filter (\<lambda>(_, t). tkWorkerID t = wid) ts))" .
  qed
qed

lemma gorm_finds:
  assumes "gorm_laws G view up" and "up db"
  shows "lists_rows wmID (tb_workers (view db)) (plain_rows plain_worker (gq_find_workers G db))"
    and "storable_text w \<Longrightarrow> lists_rows gmID (\<lambda>k. case tb_gpus (view db) k of
           Some g \<Rightarrow> if gmWorkerID g = w then Some g else None | None \<Rightarrow> None) (plain_rows plain_gpu (gq_find_gpus G w db))"
    and "lists_rows tmID (tb_tasks (view db)) (plain_rows plain_task (gq_find_tasks G db))"
    and "storable_text k \<Longrightarrow> \<exists>rows. gq_find_task_gpus G k db = Inr rows \<and> distinct (map tgGPUID rows)
          \<and> (\<forall>r \<in> set rows. tgTaskID r = k)
          \<and> (\<forall>i. i \<in> tgGPUID ` set rows \<longleftrightarrow> (k, i) \<in> tb_task_gpus (view db))"
    and "\<exists>rows. gq_find_pending G db = Inr rows \<and> distinct (map pdTaskID rows)
          \<and> set (map pdTaskID rows) = tb_pending (view db)"
  using assms(1) [unfolded gorm_laws_def, THEN spec, THEN mp, OF assms(2)] by (elim conjE; simp)+

text \<open>What the statements of a load return, with the saved snapshot in the tables, whatever the table of GPUs holds.\<close>

definition gpus_of :: "(string \<rightharpoonup> GPUModel) \<Rightarrow> string \<Rightarrow> string \<rightharpoonup> GPUModel" where
  "gpus_of gpus w k = (case gpus k of Some g \<Rightarrow> if gmWorkerID g = w then Some g else None | None \<Rightarrow> None)"

definition load_rows ::
  "'db gorm \<Rightarrow> 'db \<Rightarrow> stamps \<Rightarrow> (string \<rightharpoonup> GPUModel) \<Rightarrow> SchedulerState \<Rightarrow> WorkerModel list \<Rightarrow> (string \<Rightarrow> GPUModel list)
    \<Rightarrow> TaskModel list \<Rightarrow> (string \<Rightarrow> string list) \<Rightarrow> string list \<Rightarrow> bool" where
  "load_rows G db stamp gpus st wms gms tms ids pd \<longleftrightarrow>
     plain_rows plain_worker (GetWorkers G db) = Inr wms
     \<and> (\<forall>k. storable_text k \<longrightarrow> plain_rows plain_gpu (GetWorkerGPUs G k db) = Inr (gms k))
     \<and> plain_rows plain_task (GetTasks G db) = Inr tms
     \<and> (\<forall>k. storable_text k \<longrightarrow> GetTaskGPUs G k db = Inr (ids k)) \<and> GetPendingTasks G db = Inr pd
     \<and> lists_rows wmID (\<lambda>k. map_option (worker_model stamp k) (map_of (ssWorkers st) k)) (Inr wms)
     \<and> (\<forall>k. storable_text k \<longrightarrow> lists_rows gmID (gpus_of gpus k) (Inr (gms k)))
     \<and> lists_rows tmID (\<lambda>k. map_option (task_model stamp k) (map_of (ssTasks st) k)) (Inr tms)
     \<and> (\<forall>k t. map_of (ssTasks st) k = Some t \<longrightarrow> mset (ids k) = mset (tkAssignedGPUs t))
     \<and> mset pd = mset (ssPendingTasks st)"

lemma lists_rows_Inr:
  assumes "lists_rows key T r"
  shows "r = Inr (projr r) \<and> lists_rows key T (Inr (projr r))"
proof -
  obtain rows where "r = Inr rows" using assms unfolding lists_rows_def by blast
  with assms show ?thesis by simp
qed

lemma saveable_keys:
  assumes "saveable_rows st"
  shows "map_of (ssWorkers st) k = Some w \<Longrightarrow> saveable_worker (k, w)" "map_of (ssTasks st) k = Some t \<Longrightarrow> saveable_task (k, t)"
  using assms by (auto simp: saveable_rows_def list_all_iff dest!: map_of_SomeD)

lemma load_rows_saved:
  assumes G: "gorm_laws G view up" and up: "up db" and st: "saveable_rows st"
    and T: "view db = (saved_tables stamp (ssWorkers st) (ssTasks st) (ssPendingTasks st))\<lparr>tb_gpus := gpus\<rparr>"
  obtains wms gms tms ids pd where "load_rows G db stamp gpus st wms gms tms ids pd"
proof -
  note laws = gorm_finds [OF G up, unfolded T saved_tables_def tables.simps]
  have ok: "\<And>k t. map_of (ssTasks st) k = Some t \<Longrightarrow> distinct (tkAssignedGPUs t)" "distinct (ssPendingTasks st)"
    using st saveable_keys(2) [OF st] by (auto simp: saveable_rows_def saveable_task_def)
  have "lists_rows wmID (\<lambda>k. map_option (worker_model stamp k) (map_of (ssWorkers st) k))
      (plain_rows plain_worker (gq_find_workers G db))" by (rule laws)
  then obtain wms where wms: "plain_rows plain_worker (gq_find_workers G db) = Inr wms"
    "lists_rows wmID (\<lambda>k. map_option (worker_model stamp k) (map_of (ssWorkers st) k)) (Inr wms)"
    by (auto simp: lists_rows_def)
  have "lists_rows tmID (\<lambda>k. map_option (task_model stamp k) (map_of (ssTasks st) k))
      (plain_rows plain_task (gq_find_tasks G db))" by (rule laws)
  then obtain tms where tms: "plain_rows plain_task (gq_find_tasks G db) = Inr tms"
    "lists_rows tmID (\<lambda>k. map_option (task_model stamp k) (map_of (ssTasks st) k)) (Inr tms)"
    by (auto simp: lists_rows_def)
  define gms where "gms w = projr (plain_rows plain_gpu (gq_find_gpus G w db))" for w
  have gms: "plain_rows plain_gpu (gq_find_gpus G w db) = Inr (gms w)" "lists_rows gmID (gpus_of gpus w) (Inr (gms w))"
    if "storable_text w" for w
    using lists_rows_Inr [OF laws(2) [OF that]] unfolding gms_def gpus_of_def [abs_def] by blast+
  define ids where "ids k = map tgGPUID (projr (gq_find_task_gpus G k db))" for k
  have ids: "GetTaskGPUs G k db = Inr (ids k) \<and> distinct (ids k)
      \<and> (\<forall>i. i \<in> set (ids k) \<longleftrightarrow> (\<exists>t. map_of (ssTasks st) k = Some t \<and> i \<in> set (tkAssignedGPUs t)))"
    if "storable_text k" for k
    using laws(4) [OF that] by (auto simp: ids_def GetTaskGPUs_def)
  obtain pd where pd: "gq_find_pending G db = Inr pd" "distinct (map pdTaskID pd)"
    "set (map pdTaskID pd) = set (ssPendingTasks st)"
    using laws(5) by blast
  have "mset (ids k) = mset (tkAssignedGPUs t)" if "map_of (ssTasks st) k = Some t" for k t
  proof -
    have "storable_text k" using saveable_keys(2) [OF st that] by (simp add: saveable_task_def)
    from ids [OF this] that show ?thesis by (intro mset_by_set ok(1) [OF that]) auto
  qed
  moreover have "mset (map pdTaskID pd) = mset (ssPendingTasks st)"
    using pd(2,3) ok(2) by (intro mset_by_set)
  ultimately have "load_rows G db stamp gpus st wms gms tms ids (map pdTaskID pd)"
    using wms tms gms ids pd(1)
    by (simp add: load_rows_def GetWorkers_def GetTasks_def GetWorkerGPUs_def GetPendingTasks_def)
  then show thesis by (rule that)
qed

lemma loaded_workers:
  assumes rows: "load_rows G db stamp gpus st wms gms tms ids pd" and st: "saveable_rows st"
  defines "ws \<equiv> fold list_task tms (fold (\<lambda>wm. mput (wmID wm) (loaded_worker gms wm)) wms [])"
  shows "map_ok ws" and "map_of ws k = map_option (\<lambda>w. (loaded_worker gms (worker_model stamp k w))
      \<lparr>wsTasks := map tmID (filter (\<lambda>tm. tmWorkerID tm = k) tms)\<rparr>) (map_of (ssWorkers st) k)"
proof -
  let ?ws = "fold (\<lambda>wm. mput (wmID wm) (loaded_worker gms wm)) wms []"
  have W: "lists_rows wmID (\<lambda>k. map_option (worker_model stamp k) (map_of (ssWorkers st) k)) (Inr wms)"
    using rows unfolding load_rows_def by blast
  have "wmID (worker_model stamp k w) = k" for k w by (simp add: worker_model_def)
  note ws = fold_mput_saved [OF W this, where f = "loaded_worker gms"]
  show "map_ok ws" unfolding ws_def by (rule fold_list_task(1) [OF ws(1)])
  show "map_of ws k = map_option (\<lambda>w. (loaded_worker gms (worker_model stamp k w))
      \<lparr>wsTasks := map tmID (filter (\<lambda>tm. tmWorkerID tm = k) tms)\<rparr>) (map_of (ssWorkers st) k)"
  proof (cases "map_of (ssWorkers st) k")
    case None
    then show ?thesis unfolding ws_def using fold_list_task_None [of tms ?ws k] by (simp add: ws(2))
  next
    case (Some w)
    then have "k \<noteq> ''''" using saveable_keys(1) [OF st] by (simp add: saveable_worker_def)
    note found = fold_list_task(2) [OF ws(1) this, of tms, unfolded ws(2) Some option.map]
    show ?thesis unfolding ws_def found Some by (simp add: loaded_worker_def)
  qed
qed

lemma restored_workers:
  assumes rows: "load_rows G db stamp (map_of (map (\<lambda>g. (gmID g, g)) (all_gpu_models stamp (ssWorkers st)))) st wms gms tms ids pd"
    and st: "saveable st"
  defines "ws \<equiv> fold list_task tms (fold (\<lambda>wm. mput (wmID wm) (loaded_worker gms wm)) wms [])"
  shows "map_ok ws \<and> (\<forall>k. rel_option (restored_worker (ssTasks st) k) (map_of (ssWorkers st) k) (map_of ws k))"
proof -
  have T: "lists_rows tmID (\<lambda>k. map_option (task_model stamp k) (map_of (ssTasks st) k)) (Inr tms)"
    and gms: "\<And>k. storable_text k \<Longrightarrow>
      lists_rows gmID (gpus_of (map_of (map (\<lambda>g. (gmID g, g)) (all_gpu_models stamp (ssWorkers st)))) k) (Inr (gms k))"
    using rows unfolding load_rows_def by blast+
  have st': "saveable_rows st" "distinct (map gsID (all_gpus (ssWorkers st)))" using st by (simp_all add: saveable_def)
  then have ok: "map_ok (ssWorkers st)" "map_ok (ssTasks st)" by (simp_all add: saveable_rows_def)
  note ws = loaded_workers [OF rows st'(1), folded ws_def]
  have "rel_option (restored_worker (ssTasks st) k) (map_of (ssWorkers st) k) (map_of ws k)" for k
  proof (cases "map_of (ssWorkers st) k")
    case (Some w)
    then have "storable_text k" using saveable_keys(1) [OF st'(1)] by (simp add: saveable_worker_def)
    from saved_gpu_rows [OF ok(1) st'(2) Some gms [OF this, unfolded gpus_of_def [abs_def]]] saved_task_list [OF ok(2) T, of k]
    show ?thesis unfolding ws(2) Some by (simp add: restored_worker_def loaded_worker_def worker_model_def)
  qed (simp add: ws(2))
  with ws(1) show ?thesis by blast
qed

lemma restored_tasks:
  assumes rows: "load_rows G db stamp gpus st wms gms tms ids pd" and st: "saveable_rows st"
  defines "ts \<equiv> fold (\<lambda>tm. mput (tmID tm) (task_state tm (ids (tmID tm)))) tms []"
  shows "map_ok ts \<and> (\<forall>k. rel_option (restored_task k) (map_of (ssTasks st) k) (map_of ts k))"
proof -
  have T: "lists_rows tmID (\<lambda>k. map_option (task_model stamp k) (map_of (ssTasks st) k)) (Inr tms)"
    and ids: "\<And>k t. map_of (ssTasks st) k = Some t \<Longrightarrow> mset (ids k) = mset (tkAssignedGPUs t)"
    using rows unfolding load_rows_def by blast+
  have key: "tmID (task_model stamp k t) = k" for k t by (simp add: task_model_def Let_def)
  note ts = fold_mput_saved [OF T key, where f = "\<lambda>tm. task_state tm (ids (tmID tm))", folded ts_def]
  have "rel_option (restored_task k) (map_of (ssTasks st) k) (map_of ts k)" for k
  proof (cases "map_of (ssTasks st) k")
    case (Some t)
    then have "- 62135596800 < tkStartTime t" using saveable_keys(2) [OF st] by (simp add: saveable_task_def)
    then show ?thesis using Some ids [OF Some] by (simp add: ts(2) key task_roundtrip restored_task_def)
  qed (simp add: ts(2))
  with ts(1) show ?thesis by blast
qed

lemma load_from_rows:
  assumes rows: "load_rows G db stamp gpus st wms gms tms ids pd" and st: "saveable_rows st" and m: "mgHasDB m"
  shows "loadFromDatabase G m now db = Inr \<lparr>ssWorkers = fold list_task tms (fold (\<lambda>wm. mput (wmID wm) (loaded_worker gms wm)) wms []),
    ssTasks = fold (\<lambda>tm. mput (tmID tm) (task_state tm (ids (tmID tm)))) tms [], ssPendingTasks = pd,
    ssSavedAt = unix_seconds now\<rparr>"
proof -
  have R: "plain_rows plain_worker (GetWorkers G db) = Inr wms" "plain_rows plain_task (GetTasks G db) = Inr tms"
    "\<And>k. storable_text k \<Longrightarrow> plain_rows plain_gpu (GetWorkerGPUs G k db) = Inr (gms k)"
    "\<And>k. storable_text k \<Longrightarrow> GetTaskGPUs G k db = Inr (ids k)" "GetPendingTasks G db = Inr pd"
    and W: "lists_rows wmID (\<lambda>k. map_option (worker_model stamp k) (map_of (ssWorkers st) k)) (Inr wms)"
    and T: "lists_rows tmID (\<lambda>k. map_option (task_model stamp k) (map_of (ssTasks st) k)) (Inr tms)"
    using rows unfolding load_rows_def by blast+
  obtain wraw where wraw: "GetWorkers G db = Inr wraw" "wms = map plain_worker wraw" by (rule plain_rowsD [OF R(1)])
  obtain traw where traw: "GetTasks G db = Inr traw" "tms = map plain_task traw" by (rule plain_rowsD [OF R(2)])
  have "storable_text (wmID wm)" if "wm \<in> set wraw" for wm
  proof -
    have "plain_worker wm \<in> set wms" using that wraw(2) by simp
    then have "map_of (ssWorkers st) (wmID (plain_worker wm)) \<noteq> None" using W unfolding lists_rows_def by fastforce
    then show ?thesis using saveable_keys(1) [OF st] by (auto simp: saveable_worker_def)
  qed
  then have ws: "load_workers G db wraw ws = Inr (fold (\<lambda>wm. mput (wmID wm) (loaded_worker gms wm)) wms ws)" for ws
    unfolding wraw(2) by (intro load_workers_eq R(3))
  have "storable_text (tmID tm)" if "tm \<in> set traw" for tm
  proof -
    have "plain_task tm \<in> set tms" using that traw(2) by simp
    then have "map_of (ssTasks st) (tmID (plain_task tm)) \<noteq> None" using T unfolding lists_rows_def by fastforce
    then show ?thesis using saveable_keys(2) [OF st] by (auto simp: saveable_task_def)
  qed
  then have ts: "load_tasks G db traw ws ts
      = Inr (fold list_task tms ws, fold (\<lambda>tm. mput (tmID tm) (task_state tm (ids (tmID tm)))) tms ts)" for ws ts
    unfolding traw(2) by (intro load_tasks_eq R(4))
  show ?thesis using m by (simp add: loadFromDatabase_def wraw(1) traw(1) ws ts R(5))
qed

lemma loaded_restores:
  assumes G: "gorm_laws G view up" and up: "up db" and m: "mgHasDB m" and st: "saveable st"
    and T: "view db = saved_tables stamp (ssWorkers st) (ssTasks st) (ssPendingTasks st)"
  shows "\<exists>st'. loadFromDatabase G m now db = Inr st' \<and> restored st st' \<and> ssSavedAt st' = unix_seconds now"
proof -
  let ?gpus = "map_of (map (\<lambda>g. (gmID g, g)) (all_gpu_models stamp (ssWorkers st)))"
  have st': "saveable_rows st" using st by (simp add: saveable_def)
  have "view db = (saved_tables stamp (ssWorkers st) (ssTasks st) (ssPendingTasks st))\<lparr>tb_gpus := ?gpus\<rparr>"
    by (simp add: T saved_tables_def)
  from load_rows_saved [OF G up st' this] obtain wms gms tms ids pd
    where rows: "load_rows G db stamp ?gpus st wms gms tms ids pd" .
  then have "mset pd = mset (ssPendingTasks st)" unfolding load_rows_def by blast
  with load_from_rows [OF rows st' m] restored_workers [OF rows st] restored_tasks [OF rows st'] show ?thesis
    by (simp add: restored_def)
qed

text \<open>Without unique GPU ids: the workers come back, each with the GPUs whose row names it.\<close>

lemma loaded_gpus:
  assumes G: "gorm_laws G view up" and up: "up db" and m: "mgHasDB m" and st: "saveable_rows st"
    and T: "view db = (saved_tables stamp (ssWorkers st) (ssTasks st) (ssPendingTasks st))\<lparr>tb_gpus := gpus\<rparr>"
    and key: "\<forall>i g. gpus i = Some g \<longrightarrow> gmID g = i"
  shows "\<exists>st'. loadFromDatabase G m now db = Inr st' \<and> (\<forall>k. rel_option (\<lambda>w w'. wsAddress w' = wsAddress w
      \<and> gsID ` set (wsGPUs w') = {i. \<exists>g. gpus i = Some g \<and> gmWorkerID g = k}) (map_of (ssWorkers st) k) (map_of (ssWorkers st') k))"
proof -
  from load_rows_saved [OF G up st T] obtain wms gms tms ids pd where rows: "load_rows G db stamp gpus st wms gms tms ids pd" .
  have gms: "gsID ` gpu_state ` set (gms k) = {i. \<exists>g. gpus i = Some g \<and> gmWorkerID g = k}" if "storable_text k" for k
  proof -
    have "lists_rows gmID (gpus_of gpus k) (Inr (gms k))" using rows that unfolding load_rows_def by blast
    then have "g \<in> set (gms k) \<longleftrightarrow> gpus (gmID g) = Some g \<and> gmWorkerID g = k" for g
      by (auto simp: lists_rows_def gpus_of_def split: option.splits if_splits)
    then show ?thesis using key by (force simp: image_image gpu_state_def)
  qed
  have "rel_option (\<lambda>w w'. wsAddress w' = wsAddress w \<and> gsID ` set (wsGPUs w') = {i. \<exists>g. gpus i = Some g \<and> gmWorkerID g = k})
      (map_of (ssWorkers st) k)
      (map_of (fold list_task tms (fold (\<lambda>wm. mput (wmID wm) (loaded_worker gms wm)) wms [])) k)" for k
  proof (cases "map_of (ssWorkers st) k")
    case (Some w)
    then have "storable_text k" using saveable_keys(1) [OF st] by (simp add: saveable_worker_def)
    from gms [OF this] show ?thesis unfolding loaded_workers(2) [OF rows st] Some
      by (simp add: loaded_worker_def worker_model_def)
  qed (simp add: loaded_workers(2) [OF rows st])
  then show ?thesis unfolding load_from_rows [OF rows st m] by simp
qed

end
