(* ===== verification/GoString.thy ===== *)
theory GoString
  imports GoFloat
begin

text \<open>
  The functions of \<^verbatim>\<open>strings\<close>, \<^verbatim>\<open>strconv\<close> and \<^verbatim>\<open>time\<close> that read the worker's configuration commands, on
  byte strings. \<open>trim_space\<close> and \<open>to_lower\<close> treat bytes from 128 on as letters of their own, which is what Go
  does with ASCII text; the commands are ASCII.
\<close>

section \<open>\<^verbatim>\<open>strings.Split\<close>, \<^verbatim>\<open>strings.TrimSpace\<close>, \<^verbatim>\<open>strings.ToLower\<close>\<close>

fun split_char :: "char \<Rightarrow> string \<Rightarrow> string list" where
  "split_char c [] = [[]]"
| "split_char c (x # xs) =
     (if x = c then [] # split_char c xs
      else (case split_char c xs of [] \<Rightarrow> [[x]] | (h # t) \<Rightarrow> (x # h) # t))"

definition is_space :: "char \<Rightarrow> bool" where
  "is_space c \<longleftrightarrow> of_char c \<in> {9, 10, 11, 12, 13, 32 :: nat}"

definition trim_space :: "string \<Rightarrow> string" where
  "trim_space s = rev (dropWhile is_space (rev (dropWhile is_space s)))"

definition to_lower :: "string \<Rightarrow> string" where
  "to_lower s = map (\<lambda>c. if 65 \<le> (of_char c :: nat) \<and> of_char c \<le> (90 :: nat)
                           then char_of (of_char c + 32 :: nat) else c) s"

lemma split_char_join:
  assumes "c \<notin> set s" and "c \<notin> set t"
  shows "split_char c (s @ c # t) = [s, t]"
proof -
  have one: "split_char c u = [u]" if "c \<notin> set u" for u using that by (induction u) auto
  show ?thesis using assms(1) by (induction s) (auto simp: one [OF assms(2)])
qed

section \<open>Decimal numbers\<close>

definition is_digit :: "char \<Rightarrow> bool" where
  "is_digit c \<longleftrightarrow> 48 \<le> (of_char c :: nat) \<and> of_char c \<le> (57 :: nat)"

definition digit_value :: "char \<Rightarrow> nat" where
  "digit_value c = of_char c - 48"

text \<open>The digits in front, and the rest.\<close>

definition digits_value :: "string \<Rightarrow> nat" where
  "digits_value ds = foldl (\<lambda>a c. 10 * a + digit_value c) 0 ds"

text \<open>\<^verbatim>\<open>strconv.Atoi\<close>: an optional sign, at least one digit, nothing else, and a value of type int64.\<close>

definition atoi :: "string \<Rightarrow> int option" where
  "atoi s =
     (let (neg, ds) = (case s of [] \<Rightarrow> (False, [])
          | c # cs \<Rightarrow> if c = CHR ''-'' then (True, cs) else if c = CHR ''+'' then (False, cs) else (False, s));
          n = int (digits_value ds); v = (if neg then - n else n)
      in if ds = [] \<or> \<not> list_all is_digit ds then None
         else if - (2 ^ 63) \<le> v \<and> v < 2 ^ 63 then Some v else None)"

definition show_int :: "int \<Rightarrow> string" where
  "show_int n = (if n < 0 then ''-'' @ show_nat (nat (- n)) else show_nat (nat n))"

lemma is_digit_char: "d < 10 \<Longrightarrow> is_digit (digit_char d)"
  by (simp add: is_digit_def of_digit_char)

lemma show_nat_digits: "list_all is_digit (show_nat n)" and show_nat_nonempty: "show_nat n \<noteq> []"
proof -
  show "list_all is_digit (show_nat n)"
    by (induction n rule: show_nat.induct) (subst show_nat.simps, simp add: is_digit_char)
  show "show_nat n \<noteq> []" by (subst show_nat.simps) simp
qed

lemma digits_value_show_nat [simp]: "digits_value (show_nat n) = n"
  using read_show_nat [of n] by (simp add: digits_value_def read_nat_def digit_value_def)

lemma show_nat_head: "\<exists>c cs. show_nat n = c # cs \<and> is_digit c"
  using show_nat_digits [of n] show_nat_nonempty [of n] by (cases "show_nat n") auto

text \<open>Printing with \<^verbatim>\<open>%d\<close> and reading with \<^verbatim>\<open>Atoi\<close> gives the number back.\<close>

lemma atoi_show_int:
  assumes "- (2 ^ 63) \<le> n" and "n < 2 ^ 63"
  shows "atoi (show_int n) = Some n"
proof -
  obtain c cs where head: "show_nat (nat n) = c # cs" "is_digit c" using show_nat_head by blast
  have sign: "c \<noteq> CHR ''-''" "c \<noteq> CHR ''+''" using head(2) by (auto simp: is_digit_def)
  show ?thesis
  proof (cases "n < 0")
    case True
    then show ?thesis using assms show_nat_digits show_nat_nonempty
      by (simp add: atoi_def show_int_def Let_def)
  next
    case False
    then have "show_int n = c # cs" "list_all is_digit (c # cs)" "digits_value (c # cs) = nat n"
      using head(1) show_nat_digits [of "nat n"] digits_value_show_nat [of "nat n"] by (simp_all add: show_int_def)
    then show ?thesis using assms False sign by (simp add: atoi_def Let_def)
  qed
qed

section \<open>\<^verbatim>\<open>time.ParseDuration\<close>\<close>

text \<open>A duration in nanoseconds, or the error (its text is not used). Unsigned overflow is checked by the code.\<close>

fun leading_int :: "int \<Rightarrow> string \<Rightarrow> (int \<times> string) option" where
  "leading_int x [] = Some (x, [])"
| "leading_int x (c # cs) =
     (if \<not> is_digit c then Some (x, c # cs)
      else if 2 ^ 63 div 10 < x then None
      else let x' = x * 10 + int (digit_value c)
           in if 2 ^ 63 < x' then None else leading_int x' cs)"

text \<open>The fraction: its digits as a number, the power of ten as a float, and the rest. Digits that would overflow are skipped.\<close>

fun leading_fraction :: "int \<Rightarrow> gofloat \<Rightarrow> bool \<Rightarrow> string \<Rightarrow> int \<times> gofloat \<times> string" where
  "leading_fraction x scale overflow [] = (x, scale, [])"
| "leading_fraction x scale overflow (c # cs) =
     (if \<not> is_digit c then (x, scale, c # cs)
      else if overflow then leading_fraction x scale overflow cs
      else if (2 ^ 63 - 1) div 10 < x then leading_fraction x scale True cs
      else let y = x * 10 + int (digit_value c)
           in if 2 ^ 63 < y then leading_fraction x scale True cs
              else leading_fraction y (f_mul rnd64 scale (Fin 10)) False cs)"

definition duration_units :: "(string \<times> int) list" where
  "duration_units = [(''ns'', 1), (''us'', 1000), ([CHR 0xC2, CHR 0xB5, CHR ''s''], 1000),
     ([CHR 0xCE, CHR 0xBC, CHR ''s''], 1000), (''ms'', 1000000), (''s'', 1000000000),
     (''m'', 60000000000), (''h'', 3600000000000)]"

fun truncate_float :: "gofloat \<Rightarrow> int" where
  "truncate_float (Fin x) = \<lfloor>x\<rfloor>"
| "truncate_float x = 0"

definition fraction_of_unit :: "int \<Rightarrow> gofloat \<Rightarrow> int \<Rightarrow> int" where
  "fraction_of_unit f scale unit =
     truncate_float (f_mul rnd64 (rnd64 (of_int f)) (f_div rnd64 (rnd64 (of_int unit)) scale))"

text \<open>One group \<^verbatim>\<open>digits[.digits]unit\<close>: its nanoseconds and the rest.\<close>

definition duration_group :: "string \<Rightarrow> (int \<times> string) option" where
  "duration_group s =
     (if s = [] \<or> \<not> (hd s = CHR ''.'' \<or> is_digit (hd s)) then None
      else case leading_int 0 s of None \<Rightarrow> None
      | Some (v, s1) \<Rightarrow>
          (let pre = length s1 \<noteq> length s;
               dot = s1 \<noteq> [] \<and> hd s1 = CHR ''.'';
               (f, scale, s2) = (if dot then leading_fraction 0 (Fin 1) False (tl s1) else (0, Fin 1, s1));
               post = dot \<and> length s2 \<noteq> length (tl s1);
               name = takeWhile (\<lambda>c. c \<noteq> CHR ''.'' \<and> \<not> is_digit c) s2;
               s3 = drop (length name) s2
           in if \<not> pre \<and> \<not> post \<or> name = [] then None
              else case map_of duration_units name of None \<Rightarrow> None
              | Some unit \<Rightarrow>
                  if 2 ^ 63 div unit < v then None
                  else let v = v * unit; v = (if 0 < f then v + fraction_of_unit f scale unit else v)
                       in if 2 ^ 63 < v then None else Some (v, s3)))"

lemma leading_int_rest: "leading_int x s = Some (v, s') \<Longrightarrow> length s' \<le> length s"
  by (induction x s rule: leading_int.induct) (auto simp: Let_def split: if_splits)

lemma leading_fraction_rest: "leading_fraction x sc ov s = (f, sc', s') \<Longrightarrow> length s' \<le> length s"
  by (induction x sc ov s rule: leading_fraction.induct) (auto simp: Let_def le_SucI split: if_splits)

lemma drop_name: "takeWhile P s \<noteq> [] \<Longrightarrow> length (drop (length (takeWhile P s)) s) < length s"
  by (cases s) (auto simp: length_takeWhile_le split: if_splits)

lemma duration_group_rest:
  assumes "duration_group s = Some (v, s')"
  shows "length s' < length s"
proof -
  let ?P = "\<lambda>c. c \<noteq> CHR ''.'' \<and> \<not> is_digit c"
  obtain v1 s1 where s1: "leading_int 0 s = Some (v1, s1)"
    using assms by (auto simp: duration_group_def split: if_splits option.splits)
  define dot where "dot \<longleftrightarrow> s1 \<noteq> [] \<and> hd s1 = CHR ''.''"
  obtain f sc s2 where s2: "(if dot then leading_fraction 0 (Fin 1) False (tl s1) else (0, Fin 1, s1)) = (f, sc, s2)"
    by (cases "if dot then leading_fraction 0 (Fin 1) False (tl s1) else (0, Fin 1, s1)") auto
  have "takeWhile ?P s2 \<noteq> [] \<and> s' = drop (length (takeWhile ?P s2)) s2"
    using assms unfolding duration_group_def s1 option.case prod.case Let_def dot_def [symmetric] s2
    by (auto split: if_splits option.splits)
  moreover have "length s2 \<le> length s1"
    using s2 leading_fraction_rest [of 0 "Fin 1" False "tl s1" f sc s2] by (auto split: if_splits)
  ultimately show ?thesis using drop_name [of ?P s2] leading_int_rest [OF s1] by simp
qed

function duration_sum :: "int \<Rightarrow> string \<Rightarrow> int option" where
  "duration_sum d s =
     (if s = [] then Some d
      else case duration_group s of None \<Rightarrow> None
      | Some (v, s') \<Rightarrow> if 2 ^ 63 < d + v then None else duration_sum (d + v) s')"
  by pat_completeness auto
termination
  by (relation "measure (\<lambda>(d, s). length s)") (auto dest: duration_group_rest)

declare duration_sum.simps [simp del]

definition parse_duration :: "string \<Rightarrow> int option" where
  "parse_duration s0 =
     (let (neg, s) = (case s0 of [] \<Rightarrow> (False, [])
          | c # cs \<Rightarrow> if c = CHR ''-'' then (True, cs) else if c = CHR ''+'' then (False, cs) else (False, s0))
      in if s = ''0'' then Some 0
         else if s = [] then None
         else case duration_sum 0 s of None \<Rightarrow> None
         | Some d \<Rightarrow> if neg then Some (- d) else if 2 ^ 63 - 1 < d then None else Some d)"

section \<open>Whole durations are read back\<close>

lemma digits_grow: "a \<le> foldl (\<lambda>a c. 10 * a + digit_value c) a ds"
proof (induction ds arbitrary: a)
  case (Cons c ds)
  show ?case using Cons [of "10 * a + digit_value c"] by simp
qed simp

lemma leading_int_digits:
  assumes "list_all is_digit ds" and "rest = [] \<or> \<not> is_digit (hd rest)"
    and "foldl (\<lambda>a c. 10 * a + digit_value c) x ds \<le> 2 ^ 63"
  shows "leading_int (int x) (ds @ rest) = Some (int (foldl (\<lambda>a c. 10 * a + digit_value c) x ds), rest)"
  using assms
proof (induction ds arbitrary: x)
  case Nil
  then show ?case by (cases rest) auto
next
  case (Cons c ds)
  let ?x = "10 * x + digit_value c"
  have x: "?x \<le> 2 ^ 63" using digits_grow [of ?x ds] Cons.prems(3) by simp
  have eq: "int x * 10 + int (digit_value c) = int ?x" by simp
  have c: "is_digit c" using Cons.prems(1) by simp
  have guards: "\<not> 2 ^ 63 div 10 < int x" "\<not> 2 ^ 63 < int ?x"
    using x by (simp_all flip: of_nat_le_iff [where 'a = int])
  have "leading_int (int x) ((c # ds) @ rest) = leading_int (int ?x) (ds @ rest)"
    unfolding append_Cons leading_int.simps Let_def eq if_not_P [OF guards(1)] if_not_P [OF guards(2)]
    using c by (simp only: not_True_eq_False if_False)
  also have "\<dots> = Some (int (foldl (\<lambda>a c. 10 * a + digit_value c) ?x ds), rest)"
    by (rule Cons.IH) (use Cons.prems in simp_all)
  finally show ?case by (simp only: foldl_Cons)
qed

lemma leading_int_show_nat:
  assumes "n \<le> 2 ^ 63" and "rest = [] \<or> \<not> is_digit (hd rest)"
  shows "leading_int 0 (show_nat n @ rest) = Some (int n, rest)"
  using leading_int_digits [OF show_nat_digits assms(2), of 0 n] assms(1) digits_value_show_nat [of n]
  by (simp add: digits_value_def)

lemma duration_group_ms:
  assumes "n * 1000000 \<le> 2 ^ 63"
  shows "duration_group (show_nat n @ ''ms'') = Some (int n * 1000000, [])"
proof -
  obtain c cs where head: "show_nat n = c # cs" "is_digit c" using show_nat_head by blast
  have "leading_int 0 (show_nat n @ ''ms'') = Some (int n, ''ms'')"
    using assms by (intro leading_int_show_nat) (simp_all add: is_digit_def)
  moreover have "int n * 1000000 \<le> 2 ^ 63" using assms by simp
  moreover from this have "int n \<le> 2 ^ 63 div 1000000" by simp
  ultimately show ?thesis
    using head by (simp add: duration_group_def Let_def is_digit_def duration_units_def)
qed

lemma parse_duration_ms:
  assumes "n * 1000000 < 2 ^ 63"
  shows "parse_duration (show_nat n @ ''ms'') = Some (int n * 1000000)"
proof -
  obtain c cs where head: "show_nat n = c # cs" "is_digit c" using show_nat_head by blast
  then have sign: "c \<noteq> CHR ''-''" "c \<noteq> CHR ''+''" by (auto simp: is_digit_def)
  have "duration_sum 0 (show_nat n @ ''ms'') = Some (int n * 1000000)"
    using assms by (subst duration_sum.simps) (simp add: duration_group_ms duration_sum.simps [of _ "[]"])
  moreover have "int n * 1000000 < 2 ^ 63" using assms by simp
  ultimately show ?thesis using head sign by (auto simp: parse_duration_def Let_def)
qed

end
