(* ===== verification/Logging.thy ===== *)
theory Logging
  imports GoString
begin

text \<open>
  \<^verbatim>\<open>pkg/logging/logging.go\<close>. What a line looks like does not matter to the other components, but one thing does:
  \<^verbatim>\<open>WithFields\<close> writes into the map of fields it is given, and a write to a nil map panics. Several
  callers pass \<^verbatim>\<open>nil\<close>, so their log lines end the process. Calls with a map literal only write to the log.
\<close>

section \<open>Paths\<close>

text \<open>\<^verbatim>\<open>filepath.Base\<close> and, for non-empty arguments, \<^verbatim>\<open>filepath.Join\<close>, with the separator \<^verbatim>\<open>/\<close>.\<close>

definition path_base :: "string \<Rightarrow> string" where
  "path_base path =
     (if path = [] then ''.''
      else let trimmed = rev (dropWhile (\<lambda>c. c = CHR ''/'') (rev path))
           in if trimmed = [] then ''/'' else rev (takeWhile (\<lambda>c. c \<noteq> CHR ''/'') (rev trimmed)))"

text \<open>\<^verbatim>\<open>filepath.Clean\<close> works through the parts of the path; \<open>out\<close> holds those kept, the last one first.\<close>

fun clean_parts :: "bool \<Rightarrow> string list \<Rightarrow> string list \<Rightarrow> string list" where
  "clean_parts rooted out [] = rev out"
| "clean_parts rooted out (p # ps) =
     (if p = [] \<or> p = ''.'' then clean_parts rooted out ps
      else if p \<noteq> ''..'' then clean_parts rooted (p # out) ps
      else if out \<noteq> [] \<and> hd out \<noteq> ''..'' then clean_parts rooted (tl out) ps
      else if rooted then clean_parts rooted out ps
      else clean_parts rooted (p # out) ps)"

fun join_path :: "string list \<Rightarrow> string" where
  "join_path [] = []"
| "join_path [p] = p"
| "join_path (p # q # ps) = p @ ''/'' @ join_path (q # ps)"

definition path_clean :: "string \<Rightarrow> string" where
  "path_clean path =
     (let rooted = (path \<noteq> [] \<and> hd path = CHR ''/'');
          parts = clean_parts rooted [] (split_char (CHR ''/'') path)
      in if rooted then ''/'' @ join_path parts else if parts = [] then ''.'' else join_path parts)"

definition path_join :: "string \<Rightarrow> string \<Rightarrow> string" where
  "path_join dir file = path_clean (dir @ ''/'' @ file)"

section \<open>Opening a logger\<close>

definition DebugLevel :: string where "DebugLevel = ''debug''"
definition InfoLevel :: string where "InfoLevel = ''info''"
definition WarnLevel :: string where "WarnLevel = ''warn''"
definition ErrorLevel :: string where "ErrorLevel = ''error''"
definition FatalLevel :: string where "FatalLevel = ''fatal''"
definition PanicLevel :: string where "PanicLevel = ''panic''"

record log_config =
  lcLevel :: string
  lcComponent :: string
  lcLogDir :: string
  lcLogFile :: string

text \<open>\<open>lgFile\<close>: the file the lines go to beside the standard output.\<close>

record 'l logger =
  lgLevel :: 'l
  lgComponent :: string
  lgFile :: "string option"

text \<open>The levels of \<^verbatim>\<open>logrus\<close>, and the errors of making a directory and of opening a file.\<close>

record 'l log_env =
  leParseLevel :: "string \<Rightarrow> 'l option"
  leInfoLevel :: 'l
  leMkdirAll :: "string \<Rightarrow> string option"
  leOpenFile :: "string \<Rightarrow> string option"

definition NewLogger :: "'l log_env \<Rightarrow> log_config \<Rightarrow> string + 'l logger" where
  "NewLogger L config =
     (let level = (case leParseLevel L (lcLevel config) of None \<Rightarrow> leInfoLevel L | Some l \<Rightarrow> l);
          logger = \<lparr>lgLevel = level, lgComponent = lcComponent config, lgFile = None\<rparr>
      in if lcLogDir config \<noteq> '''' \<and> lcLogFile config \<noteq> '''' then
           (case leMkdirAll L (lcLogDir config) of
              Some err \<Rightarrow> Inl (''failed to create log directory: '' @ err)
            | None \<Rightarrow>
                (let path = path_join (lcLogDir config) (lcLogFile config)
                 in case leOpenFile L path of
                      Some err \<Rightarrow> Inl (''failed to open log file: '' @ err)
                    | None \<Rightarrow> Inr (logger\<lparr>lgFile := Some path\<rparr>)))
         else Inr logger)"

section \<open>Writing a line\<close>

datatype log_value = LogString string | LogInt int | LogOther

text \<open>\<^verbatim>\<open>m[k] = v\<close> for a map that may be nil: \<open>None\<close> for the panic.\<close>

definition set_entry :: "string \<Rightarrow> 'v \<Rightarrow> 'v gomap option \<Rightarrow> 'v gomap option" where
  "set_entry k v m = map_option (mput k v) m"

text \<open>
  \<open>caller\<close> is what \<^verbatim>\<open>runtime.Caller\<close> finds. The result is the map the line is written with,
  \<open>None\<close> the panic.
\<close>

definition WithFields ::
  "(string \<times> int) option \<Rightarrow> 'l logger \<Rightarrow> log_value gomap option \<Rightarrow> log_value gomap option" where
  "WithFields caller l flds =
     (let flds = (case caller of None \<Rightarrow> flds
        | Some (file, line) \<Rightarrow>
            set_entry ''line'' (LogInt line) (set_entry ''file'' (LogString (path_base file)) flds))
      in set_entry ''component'' (LogString (lgComponent l)) flds)"

text \<open>The methods: a line, a line and the end of the process, a line and a panic.\<close>

datatype log_method = LogDebug | LogInfo | LogWarn | LogError | LogFatal | LogPanic

datatype log_outcome = Logged "log_value gomap" | Exits "log_value gomap" | Panics

definition log_line ::
  "log_method \<Rightarrow> (string \<times> int) option \<Rightarrow> 'l logger \<Rightarrow> log_value gomap option \<Rightarrow> log_outcome" where
  "log_line meth caller l flds =
     (case WithFields caller l flds of
        None \<Rightarrow> Panics
      | Some entry \<Rightarrow> (case meth of LogFatal \<Rightarrow> Exits entry | LogPanic \<Rightarrow> Panics | _ \<Rightarrow> Logged entry))"

text \<open>A nil map panics at every level, whatever the logger and the caller.\<close>

lemma WithFields_None_iff: "WithFields caller l flds = None \<longleftrightarrow> flds = None"
  by (auto simp: WithFields_def set_entry_def Let_def split: option.splits prod.splits)

lemma log_line_nil: "log_line meth caller l None = Panics"
  using WithFields_None_iff [of caller l None] by (simp add: log_line_def)

lemma log_line_fields: "meth \<noteq> LogFatal \<Longrightarrow> meth \<noteq> LogPanic \<Longrightarrow> \<exists>entry. log_line meth caller l (Some f) = Logged entry"
  using WithFields_None_iff [of caller l "Some f"]
  by (cases meth) (auto simp: log_line_def split: option.split)

text \<open>
  The statement \<^verbatim>\<open>logger.Info(msg, nil)\<close> in a handler; \<^verbatim>\<open>Warn\<close> and \<^verbatim>\<open>Fatal\<close> with \<^verbatim>\<open>nil\<close> do the same.
\<close>

definition log_nil :: "'s \<Rightarrow> ('r, 's) res" where
  "log_nil s = (case log_line LogInfo None \<lparr>lgLevel = (), lgComponent = '''', lgFile = None\<rparr> None of
     Panics \<Rightarrow> Panicked s | _ \<Rightarrow> Stuck s)"

lemma log_nil_panics [simp]: "log_nil s = Panicked s"
  by (simp add: log_nil_def log_line_nil)

lemma keeps_log_nil [keeps_intros]: "keeps P log_nil"
  by (simp add: keeps_def)

end
