(* ===== verification/SchedPersist.thy ===== *)
theory SchedPersist
  imports SchedLock PersistLoad Logging
begin

text \<open>
  \<^verbatim>\<open>pkg/scheduler/scheduler_persistence.go\<close>: the snapshot of the scheduler, rebuilding the scheduler from
  one, and switching persistence on and off. The database the manager is connected to is a value
  beside the scheduler; a handler that changes it works on both. \<open>G\<close> is the database library.
\<close>

section \<open>From the scheduler to a snapshot\<close>

definition state_of_gpu :: "GPU \<Rightarrow> GPUState" where
  "state_of_gpu g = \<lparr>gsID = gID g, gsModel = gModel g, gsMemoryMB = gMemoryMB g,
     gsAvailable = gAvailable g\<rparr>"

definition state_of_worker :: "nat list \<Rightarrow> string \<Rightarrow> Worker \<Rightarrow> WorkerState" where
  "state_of_worker cs wid worker = \<lparr>wsID = wid, wsGPUs = map state_of_gpu (wGPUs worker),
     wsAddress = wAddress worker, wsWStatus = wStatus worker,
     wsTasks = map fst (permute cs (wTasks worker))\<rparr>"

definition state_of_task :: "string \<Rightarrow> Task \<Rightarrow> TaskState" where
  "state_of_task tid task =
     (let startTime = (if tStartTime task = zero_time then 0 else unix_seconds (tStartTime task))
      in \<lparr>tkID = tid, tkName = tName task, tkRequiredGPUs = tRequiredGPUs task,
          tkMinGPUMemory = tMinGPUMemory task, tkConfiguration = tConfiguration task,
          tkStatus = tStatus task, tkWorkerID = tWorkerID task, tkAssignedGPUs = tAssignedGPUs task,
          tkStartTime = startTime, tkProgress = tProgress task\<rparr>)"

text \<open>
  The maps are ranged over in any order and filled key by key, so their order is as arbitrary before as
  after; \<open>cs k\<close> is the order for the task map of worker \<open>k\<close>.
\<close>

definition snapshot :: "(string \<Rightarrow> nat list) \<Rightarrow> sched \<Rightarrow> SchedulerState" where
  "snapshot cs s = \<lparr>
     ssWorkers = map (\<lambda>(wid, worker). (wid, state_of_worker (cs wid) wid worker)) (workers s),
     ssTasks = map (\<lambda>(tid, a). (tid, state_of_task tid (heap s a))) (tasks s),
     ssPendingTasks = map (\<lambda>a. tID (heap s a)) (pendingTasks s), ssSavedAt = 0\<rparr>"

text \<open>What one call may depend on besides its state: clock values for the rows, and iteration orders.\<close>

record save_env =
  sv_stamps :: stamps
  sv_choices :: choices
  sv_tasks :: "string \<Rightarrow> nat list"

definition no_manager :: string where
  "no_manager = ''persistence manager not initialized''"

text \<open>The critical section up to the log line.\<close>

definition save_section ::
  "'db gorm \<Rightarrow> env \<Rightarrow> save_env \<Rightarrow> 'db \<Rightarrow> sched \<Rightarrow> (string option \<times> 'db, sched) res" where
  "save_section G E V db =
     with_lock E (\<lambda>s. case persistenceManager s of
         None \<Rightarrow> Done (Some no_manager, db) s
       | Some m \<Rightarrow>
           Done (manager_SaveState G m (clock E (envTick s)) (sv_stamps V) (sv_choices V)
                   (snapshot (sv_tasks V) s) db) (tick s))"

fun with_db :: "'db \<Rightarrow> ('r \<times> 'db, sched) res \<Rightarrow> ('r, sched \<times> 'db) res" where
  "with_db db (Done r s) = Done (fst r) (s, snd r)"
| "with_db db (Stuck s) = Stuck (s, db)"
| "with_db db (Panicked s) = Panicked (s, db)"

text \<open>
  After a save without an error the log line with its nil map panics; the deferred unlock runs on the way out.
\<close>

definition SaveState ::
  "'db gorm \<Rightarrow> env \<Rightarrow> save_env \<Rightarrow> sched \<times> 'db \<Rightarrow> (string option, sched \<times> 'db) res" where
  "SaveState G E V sd =
     bind_res (with_db (snd sd) (save_section G E V (snd sd) (fst sd)))
       (\<lambda>err. case err of Some e \<Rightarrow> Done (Some e) | None \<Rightarrow> log_nil)"

section \<open>From a snapshot to the scheduler\<close>

definition gpu_of_state :: "GPUState \<Rightarrow> GPU" where
  "gpu_of_state g = \<lparr>gID = gsID g, gModel = gsModel g, gMemoryMB = gsMemoryMB g,
     gAvailable = gsAvailable g\<rparr>"

definition task_of_state :: "string \<Rightarrow> TaskState \<Rightarrow> Task" where
  "task_of_state tid t =
     (let startTime = (if 0 < tkStartTime t then unix_time (tkStartTime t) else zero_time)
      in \<lparr>tID = tid, tName = tkName t, tRequiredGPUs = tkRequiredGPUs t,
          tMinGPUMemory = tkMinGPUMemory t, tConfiguration = tkConfiguration t, tStatus = tkStatus t,
          tWorkerID = tkWorkerID t, tAssignedGPUs = tkAssignedGPUs t, tStartTime = startTime,
          tProgress = tkProgress t, tMetrics = []\<rparr>)"

definition restore_task :: "string \<times> TaskState \<Rightarrow> sched \<Rightarrow> sched" where
  "restore_task p s =
     (let (a, s') = alloc_task (task_of_state (fst p) (snd p)) s
      in s'\<lparr>tasks := mput (fst p) a (tasks s')\<rparr>)"

text \<open>The worker's task map: the listed tasks that exist.\<close>

definition relist :: "task_addr gomap \<Rightarrow> string list \<Rightarrow> task_addr gomap" where
  "relist ts ids = fold (\<lambda>tid m. case map_of ts tid of None \<Rightarrow> m | Some a \<Rightarrow> mput tid a m) ids []"

definition worker_of_state :: "task_addr gomap \<Rightarrow> string \<Rightarrow> WorkerState \<Rightarrow> Worker" where
  "worker_of_state ts wid w = \<lparr>wID = wid, wGPUs = map gpu_of_state (wsGPUs w),
     wAddress = wsAddress w, wStatus = wsWStatus w, wTasks = relist ts (wsTasks w)\<rparr>"

definition restore_worker :: "string \<times> WorkerState \<Rightarrow> sched \<Rightarrow> sched" where
  "restore_worker p s =
     s\<lparr>workers := mput (fst p) (worker_of_state (tasks s) (fst p) (snd p)) (workers s)\<rparr>"

definition restore_pending :: "string \<Rightarrow> sched \<Rightarrow> sched" where
  "restore_pending tid s = (case map_of (tasks s) tid of
      None \<Rightarrow> s
    | Some a \<Rightarrow>
        let s' = (if tStatus (heap s a) \<noteq> TaskStatus_PENDING
                  then modify_task a (\<lambda>t. t\<lparr>tStatus := TaskStatus_PENDING\<rparr>) s else s)
        in s'\<lparr>pendingTasks := pendingTasks s' @ [a]\<rparr>)"

definition restore :: "choices \<Rightarrow> SchedulerState \<Rightarrow> sched \<Rightarrow> sched" where
  "restore ch st s =
     (let s = s\<lparr>workers := [], tasks := [], pendingTasks := []\<rparr>;
          s = fold restore_task (permute (fst ch) (ssTasks st)) s;
          s = fold restore_worker (permute (snd ch) (ssWorkers st)) s
      in fold restore_pending (ssPendingTasks st) s)"

text \<open>The manager never returns a nil snapshot without an error, so that case of the code is dead.\<close>

definition LoadState :: "'db gorm \<Rightarrow> env \<Rightarrow> 'db \<Rightarrow> sched \<Rightarrow> (string option, sched) res" where
  "LoadState G E db =
     with_lock E (\<lambda>s. case persistenceManager s of
         None \<Rightarrow> Done (Some no_manager) s
       | Some m \<Rightarrow>
           (case manager_LoadState G m (clock E (envTick s)) db of
              Inl err \<Rightarrow> Done (Some err) (tick s)
            | Inr state \<Rightarrow> Done None (restore (orders E (envTick s)) state (tick s))))"

section \<open>Switching persistence on and off\<close>

text \<open>
  Both give the lock up around the call of \<^verbatim>\<open>LoadState\<close> or \<^verbatim>\<open>SaveState\<close>, so they are a sequence of
  critical sections.
\<close>

definition EnablePersistence ::
  "'db gorm \<Rightarrow> env \<Rightarrow> Config \<Rightarrow> 'db \<Rightarrow> sched \<Rightarrow> (string option \<times> 'db, sched) res" where
  "EnablePersistence G E config db s =
     bind_res
       (with_lock E (\<lambda>s. case NewManager G config of
            Inl err \<Rightarrow> Done (Inl (''failed to create persistence manager: '' @ err)) s
          | Inr (manager, opened) \<Rightarrow>
              Done (Inr opened) (s\<lparr>persistenceManager := Some (Start manager)\<rparr>)) s)
       (\<lambda>r s. case r of
            Inl err \<Rightarrow> Done (Some err, db) s
          | Inr opened \<Rightarrow>
              (let db = (case opened of None \<Rightarrow> db | Some db' \<Rightarrow> db')
               in bind_res (LoadState G E db s) (\<lambda>_. with_lock E (Done (None, db)))))"

definition stop_manager :: "'db gorm \<Rightarrow> 'db \<Rightarrow> sched \<Rightarrow> ('db, sched) res" where
  "stop_manager G db s = (case persistenceManager s of
      None \<Rightarrow> Panicked s
    | Some m \<Rightarrow> (case Stop G m db of
          Done db' _ \<Rightarrow> Done db' (s\<lparr>persistenceManager := None\<rparr>)
        | _ \<Rightarrow> Panicked s))"

definition DisablePersistence ::
  "'db gorm \<Rightarrow> env \<Rightarrow> save_env \<Rightarrow> sched \<times> 'db \<Rightarrow> (unit, sched \<times> 'db) res" where
  "DisablePersistence G E V sd =
     bind_res (with_db (snd sd) (with_lock E (\<lambda>s. Done (persistenceManager s \<noteq> None, snd sd) s) (fst sd)))
       (\<lambda>enabled sd. if \<not> enabled then Done () sd
          else bind_res (SaveState G E V sd)
            (\<lambda>_ sd. bind_res (with_db (snd sd) (with_lock E (\<lambda>s. bind_res (stop_manager G (snd sd) s) (\<lambda>db'. Done ((), db')))
                 (fst sd)))
               (\<lambda>_. log_nil)))"

section \<open>What a rebuilt scheduler looks like\<close>

lemma restore_task_frame:
  "workers (restore_task p s) = workers s" "pendingTasks (restore_task p s) = pendingTasks s"
  "mu (restore_task p s) = mu s" "persistenceManager (restore_task p s) = persistenceManager s"
  "tasks (restore_task p s) = mput (fst p) (heapNext s) (tasks s)"
  "heap (restore_task p s) = (heap s)(heapNext s := task_of_state (fst p) (snd p))"
  "heapNext (restore_task p s) = Suc (heapNext s)"
  by (simp_all add: restore_task_def alloc_task_def)

lemma restore_tasks_frame:
  "workers (fold restore_task xs s) = workers s" "pendingTasks (fold restore_task xs s) = pendingTasks s"
  "mu (fold restore_task xs s) = mu s"
  "persistenceManager (fold restore_task xs s) = persistenceManager s"
  "heapNext (fold restore_task xs s) = heapNext s + length xs"
  "a < heapNext s \<Longrightarrow> heap (fold restore_task xs s) a = heap s a"
  "map_ok (tasks s) \<Longrightarrow> map_ok (tasks (fold restore_task xs s))"
  "k \<notin> fst ` set xs \<Longrightarrow> map_of (tasks (fold restore_task xs s)) k = map_of (tasks s) k"
  by (induction xs arbitrary: s) (simp_all add: restore_task_frame Suc_le_eq)

lemma restore_tasks_found:
  assumes "distinct (map fst xs)" and "(k, ts) \<in> set xs"
  shows "\<exists>a. map_of (tasks (fold restore_task xs s)) k = Some a \<and> a < heapNext (fold restore_task xs s)
     \<and> heap (fold restore_task xs s) a = task_of_state k ts"
  using assms
proof (induction xs arbitrary: s)
  case (Cons p xs)
  show ?case
  proof (cases "p = (k, ts)")
    case True
    let ?s = "restore_task p s"
    have "k \<notin> fst ` set xs" using Cons.prems True by auto
    then have "map_of (tasks (fold restore_task xs ?s)) k = Some (heapNext s)"
      using True by (simp add: restore_tasks_frame restore_task_frame)
    moreover have "heapNext s < heapNext (fold restore_task xs ?s)"
      by (simp add: restore_tasks_frame(5) restore_task_frame)
    moreover have "heap (fold restore_task xs ?s) (heapNext s) = task_of_state k ts"
      using True by (simp add: restore_tasks_frame restore_task_frame)
    ultimately show ?thesis by simp
  next
    case False
    then show ?thesis using Cons by simp
  qed
qed simp

lemma restore_workers_eq:
  "fold restore_worker xs s = s\<lparr>workers := fold (\<lambda>p. mput (fst p)
     (worker_of_state (tasks s) (fst p) (snd p))) xs (workers s)\<rparr>"
  by (induction xs arbitrary: s) (simp_all add: restore_worker_def)

text \<open>The queue: the listed tasks that exist, each marked as pending.\<close>

lemma restore_pending_frame:
  "workers (restore_pending tid s) = workers s" "tasks (restore_pending tid s) = tasks s"
  "mu (restore_pending tid s) = mu s" "persistenceManager (restore_pending tid s) = persistenceManager s"
  "heapNext (restore_pending tid s) = heapNext s"
  "pendingTasks (restore_pending tid s) = pendingTasks s @ List.map_filter (map_of (tasks s)) [tid]"
  "heap (restore_pending tid s) a = (if map_of (tasks s) tid = Some a
     then (heap s a)\<lparr>tStatus := TaskStatus_PENDING\<rparr> else heap s a)"
  by (auto simp: restore_pending_def modify_task_def List.map_filter_def split: option.split)

lemma restore_pendings_frame:
  "workers (fold restore_pending ids s) = workers s" "tasks (fold restore_pending ids s) = tasks s"
  "mu (fold restore_pending ids s) = mu s"
  "persistenceManager (fold restore_pending ids s) = persistenceManager s"
  "heapNext (fold restore_pending ids s) = heapNext s"
  "pendingTasks (fold restore_pending ids s) = pendingTasks s @ List.map_filter (map_of (tasks s)) ids"
  "heap (fold restore_pending ids s) a = (if \<exists>tid \<in> set ids. map_of (tasks s) tid = Some a
     then (heap s a)\<lparr>tStatus := TaskStatus_PENDING\<rparr> else heap s a)"
  by (induction ids arbitrary: s) (auto simp: restore_pending_frame List.map_filter_def split: option.splits)

text \<open>The keys of a task map built by \<open>relist\<close>, and the tasks under them.\<close>

lemma map_of_relist:
  "map_of (relist ts ids) k = (if k \<in> set ids then map_of ts k else None)" and map_ok_relist [simp]: "map_ok (relist ts ids)"
proof -
  let ?step = "\<lambda>tid m. case map_of ts tid of None \<Rightarrow> m | Some a \<Rightarrow> mput tid a m"
  have "map_of (fold ?step ids m) k = (if k \<in> set ids \<and> map_of ts k \<noteq> None then map_of ts k else map_of m k)" for m
    by (induction ids arbitrary: m) (auto split: option.splits)
  then show "map_of (relist ts ids) k = (if k \<in> set ids then map_of ts k else None)"
    by (auto simp: relist_def)
  have "map_ok m \<Longrightarrow> map_ok (fold ?step ids m)" for m
    by (induction ids arbitrary: m) (auto split: option.split)
  then show "map_ok (relist ts ids)" by (simp add: relist_def)
qed

definition restored_state :: "SchedulerState \<Rightarrow> sched \<Rightarrow> bool" where
  "restored_state st t \<longleftrightarrow>
     map_ok (workers t) \<and> map_ok (tasks t)
     \<and> (\<forall>k. rel_option (\<lambda>ts a. a < heapNext t \<and> heap t a = (task_of_state k ts)
            \<lparr>tStatus := if k \<in> set (ssPendingTasks st) then TaskStatus_PENDING else tkStatus ts\<rparr>)
          (map_of (ssTasks st) k) (map_of (tasks t) k))
     \<and> (\<forall>k. map_of (workers t) k = map_option (worker_of_state (tasks t) k) (map_of (ssWorkers st) k))
     \<and> pendingTasks t = List.map_filter (map_of (tasks t)) (ssPendingTasks st)"

lemma restore_frame:
  "mu (restore ch st s) = mu s" "persistenceManager (restore ch st s) = persistenceManager s"
  by (simp_all add: restore_def Let_def restore_pendings_frame restore_workers_eq restore_tasks_frame)

lemma restore_restored:
  assumes ok: "map_ok (ssWorkers st)" "map_ok (ssTasks st)"
  shows "restored_state st (restore ch st s)"
proof -
  define s0 where "s0 = s\<lparr>workers := [], tasks := [], pendingTasks := []\<rparr>"
  define s1 where "s1 = fold restore_task (permute (fst ch) (ssTasks st)) s0"
  define s2 where "s2 = fold restore_worker (permute (snd ch) (ssWorkers st)) s1"
  define t where "t = fold restore_pending (ssPendingTasks st) s2"
  have t: "restore ch st s = t" by (simp add: restore_def Let_def s0_def s1_def s2_def t_def)
  have tasks: "tasks t = tasks s1" "heapNext t = heapNext s1"
    and heap: "heap t a = (if \<exists>tid \<in> set (ssPendingTasks st). map_of (tasks s1) tid = Some a
      then (heap s1 a)\<lparr>tStatus := TaskStatus_PENDING\<rparr> else heap s1 a)" for a
    by (simp_all add: t_def s2_def restore_pendings_frame restore_workers_eq)
  have s0: "map_ok (tasks s0)" "map_of (tasks s0) k = None" "workers s0 = []" "pendingTasks s0 = []" for k
    by (simp_all add: s0_def)
  have d: "distinct (map fst (permute (fst ch) (ssTasks st)))" "distinct (map fst (permute (snd ch) (ssWorkers st)))"
    using ok by (simp_all add: map_ok_def [symmetric])
  have found: "\<exists>a. map_of (tasks s1) k = Some a \<and> a < heapNext s1 \<and> heap s1 a = task_of_state k ts"
    if "map_of (ssTasks st) k = Some ts" for k ts
    using restore_tasks_found [OF d(1), of k ts s0] that ok(2) by (simp add: s1_def map_ok_in_iff)
  have none: "map_of (tasks s1) k = None" if "map_of (ssTasks st) k = None" for k
    using that s0 by (simp add: s1_def restore_tasks_frame map_of_eq_None_iff)
  have inj: "k = k'" if "map_of (tasks s1) k = Some a" "map_of (tasks s1) k' = Some a" for k k' a
  proof -
    have "tID (heap s1 a) = j" if j: "map_of (tasks s1) j = Some a" for j
    proof (cases "map_of (ssTasks st) j")
      case (Some ts)
      from found [OF this] j show ?thesis by (auto simp: task_of_state_def Let_def)
    qed (use none j in simp)
    with that show ?thesis by metis
  qed
  have T: "rel_option (\<lambda>ts a. a < heapNext t \<and> heap t a = (task_of_state k ts)
            \<lparr>tStatus := if k \<in> set (ssPendingTasks st) then TaskStatus_PENDING else tkStatus ts\<rparr>)
          (map_of (ssTasks st) k) (map_of (tasks t) k)" for k
  proof (cases "map_of (ssTasks st) k")
    case (Some ts)
    then obtain a where a: "map_of (tasks s1) k = Some a" "a < heapNext s1" "heap s1 a = task_of_state k ts"
      using found by blast
    have "(\<exists>tid \<in> set (ssPendingTasks st). map_of (tasks s1) tid = Some a) \<longleftrightarrow> k \<in> set (ssPendingTasks st)"
      using inj a(1) by blast
    then show ?thesis using Some a by (simp add: tasks heap) (simp add: task_of_state_def Let_def)
  qed (simp add: none tasks)
  let ?w = "\<lambda>p. worker_of_state (tasks s1) (fst p) (snd p)"
  have ws: "workers t = fold (\<lambda>p. mput (fst p) (?w p)) (permute (snd ch) (ssWorkers st)) []"
    by (simp add: t_def restore_pendings_frame s2_def restore_workers_eq s1_def restore_tasks_frame s0)
  have W: "map_of (workers t) k = map_option (worker_of_state (tasks t) k) (map_of (ssWorkers st) k)" for k
  proof (cases "map_of (ssWorkers st) k")
    case None
    then show ?thesis by (simp add: ws fold_mput(2) [OF d(2)] map_of_eq_None_iff)
  next
    case (Some w)
    then have "(k, w) \<in> set (permute (snd ch) (ssWorkers st))" using ok(1) by (simp add: map_ok_in_iff)
    from map_of_key [OF d(2) this, where f = ?w] imageI [OF this, of fst] show ?thesis using Some
      by (simp add: ws fold_mput(2) [OF d(2)] tasks)
  qed
  have "map_ok (workers t)" unfolding ws by (rule fold_mput(1) [OF d(2)]) simp
  moreover have "map_ok (tasks t)" using s0 by (simp add: tasks s1_def restore_tasks_frame)
  moreover have "pendingTasks t = List.map_filter (map_of (tasks t)) (ssPendingTasks st)"
    by (simp add: t_def restore_pendings_frame s2_def restore_workers_eq s1_def restore_tasks_frame s0)
  ultimately show ?thesis unfolding t restored_state_def using T W by blast
qed

lemma restored_state_wf:
  assumes R: "restored_state st t"
    and ws: "\<And>k w. map_of (ssWorkers st) k = Some w \<Longrightarrow> k \<noteq> '''' \<and> length (wsGPUs w) < 2 ^ 32"
  shows "sched_wf t"
proof -
  have task: "a < heapNext t \<and> tID (heap t a) = k" if "map_of (tasks t) k = Some a" for k a
    using R that unfolding restored_state_def
    by (cases "map_of (ssTasks st) k") (auto simp: task_of_state_def Let_def dest!: spec [of _ k])
  have "worker_ok t k wk" if found: "map_of (workers t) k = Some wk" for k wk
  proof -
    have "map_of (workers t) k = map_option (worker_of_state (tasks t) k) (map_of (ssWorkers st) k)"
      using R unfolding restored_state_def by blast
    with found obtain w where "map_of (ssWorkers st) k = Some w" "wk = worker_of_state (tasks t) k w" by auto
    with ws [OF this(1)] task show ?thesis
      by (auto simp: worker_ok_def worker_of_state_def map_of_relist split: if_splits)
  qed
  moreover have "a < heapNext t \<and> map_of (tasks t) (tID (heap t a)) \<noteq> None" if "a \<in> set (pendingTasks t)" for a
  proof -
    have "pendingTasks t = List.map_filter (map_of (tasks t)) (ssPendingTasks st)"
      using R unfolding restored_state_def by blast
    with that obtain k where "map_of (tasks t) k = Some a" by (auto simp: List.map_filter_def)
    with task [OF this] show ?thesis by simp
  qed
  ultimately show ?thesis using R task unfolding sched_wf_def restored_state_def by blast
qed

section \<open>The reloaded scheduler\<close>

definition pending_ids :: "sched \<Rightarrow> string list" where
  "pending_ids s = map (\<lambda>a. tID (heap s a)) (pendingTasks s)"

text \<open>
  What comes back: the workers, up to the order of their GPUs and with task maps that are computed from the
  tasks; the tasks, up to the order of their GPU ids, without their metrics, which are not stored; the queue as a
  multiset, because \<^verbatim>\<open>GetPendingTasks\<close> asks for no order. Start times come back in whole seconds, those before 1970 not at all.
\<close>

definition whole_seconds :: "int \<Rightarrow> int" where
  "whole_seconds t = (if 0 < unix_seconds t then unix_time (unix_seconds t) else zero_time)"

definition reloaded_task :: "bool \<Rightarrow> Task \<Rightarrow> Task \<Rightarrow> bool" where
  "reloaded_task queued t t' \<longleftrightarrow>
     t'\<lparr>tAssignedGPUs := []\<rparr> = t\<lparr>tAssignedGPUs := [], tMetrics := [],
        tStatus := if queued then TaskStatus_PENDING else tStatus t, tStartTime := whole_seconds (tStartTime t)\<rparr>
     \<and> mset (tAssignedGPUs t') = mset (tAssignedGPUs t)"

definition reloaded_worker :: "sched \<Rightarrow> sched \<Rightarrow> string \<Rightarrow> Worker \<Rightarrow> Worker \<Rightarrow> bool" where
  "reloaded_worker s t k w w' \<longleftrightarrow>
     wID w' = k \<and> wAddress w' = wAddress w \<and> wStatus w' = wStatus w \<and> mset (wGPUs w') = mset (wGPUs w)
     \<and> (\<forall>tid. map_of (wTasks w') tid = (case map_of (tasks s) tid of
          None \<Rightarrow> None | Some a \<Rightarrow> if tWorkerID (heap s a) = k then map_of (tasks t) tid else None))"

definition reloaded :: "sched \<Rightarrow> sched \<Rightarrow> bool" where
  "reloaded s t \<longleftrightarrow>
     (\<forall>k. rel_option (reloaded_worker s t k) (map_of (workers s) k) (map_of (workers t) k))
     \<and> (\<forall>k. rel_option (\<lambda>a b. reloaded_task (k \<in> set (pending_ids s)) (heap s a) (heap t b))
            (map_of (tasks s) k) (map_of (tasks t) k))
     \<and> mset (pending_ids t) = mset (pending_ids s)"

lemma snapshot_maps:
  "map_of (ssWorkers (snapshot cs s)) k = map_option (state_of_worker (cs k) k) (map_of (workers s) k)"
  "map_of (ssTasks (snapshot cs s)) k = map_option (\<lambda>a. state_of_task k (heap s a)) (map_of (tasks s) k)"
  "ssPendingTasks (snapshot cs s) = pending_ids s"
  by (simp_all add: snapshot_def map_of_models pending_ids_def)

lemma gpu_state_inverse [simp]: "gpu_of_state (state_of_gpu g) = g"
  by (simp add: gpu_of_state_def state_of_gpu_def)

lemma task_state_inverse:
  assumes "tID t = k"
  shows "task_of_state k (state_of_task k t) = t\<lparr>tMetrics := [], tStartTime := whole_seconds (tStartTime t)\<rparr>"
proof -
  have "\<not> 0 < unix_seconds zero_time" by (simp add: unix_seconds_def zero_time_def)
  then show ?thesis using assms
    by (cases t) (auto simp: task_of_state_def state_of_task_def Let_def whole_seconds_def)
qed

lemma reloaded_tasks:
  assumes wf: "sched_wf s" and st: "restored (snapshot cs s) st" and t: "restored_state st t"
  shows "rel_option (\<lambda>a b. reloaded_task (k \<in> set (pending_ids s)) (heap s a) (heap t b))
           (map_of (tasks s) k) (map_of (tasks t) k)"
proof -
  have pd: "set (ssPendingTasks st) = set (pending_ids s)"
    using st unfolding restored_def snapshot_maps by (metis mset_eq_setD)
  have r1: "rel_option (restored_task k) (map_of (ssTasks (snapshot cs s)) k) (map_of (ssTasks st) k)"
    using st unfolding restored_def by blast
  have r2: "rel_option (\<lambda>ts a. a < heapNext t \<and> heap t a = (task_of_state k ts)
            \<lparr>tStatus := if k \<in> set (ssPendingTasks st) then TaskStatus_PENDING else tkStatus ts\<rparr>)
          (map_of (ssTasks st) k) (map_of (tasks t) k)"
    using t unfolding restored_state_def by blast
  show ?thesis
  proof (cases "map_of (tasks s) k")
    case None
    with r1 r2 show ?thesis by (auto simp: snapshot_maps option_rel_Some1)
  next
    case (Some a)
    then have k: "tID (heap s a) = k" using wf by (simp add: sched_wf_def)
    from Some r1 obtain ts where ts: "map_of (ssTasks st) k = Some ts"
      "restored_task k (state_of_task k (heap s a)) ts"
      by (auto simp: snapshot_maps option_rel_Some1)
    from r2 ts(1) obtain b where b: "map_of (tasks t) k = Some b" "heap t b = (task_of_state k ts)
            \<lparr>tStatus := if k \<in> set (pending_ids s) then TaskStatus_PENDING else tkStatus ts\<rparr>"
      by (auto simp: option_rel_Some1 pd)
    have gs: "mset (tkAssignedGPUs ts) = mset (tAssignedGPUs (heap s a))"
      and eq: "ts\<lparr>tkAssignedGPUs := []\<rparr> = (state_of_task k (heap s a))\<lparr>tkAssignedGPUs := []\<rparr>"
      using ts(2) by (simp_all add: restored_task_def state_of_task_def Let_def)
    have task: "(task_of_state k ts)\<lparr>tAssignedGPUs := []\<rparr> = task_of_state k (ts\<lparr>tkAssignedGPUs := []\<rparr>)"
      "tAssignedGPUs (task_of_state k ts) = tkAssignedGPUs ts" for ts
      by (simp_all add: task_of_state_def Let_def)
    have status: "tkStatus ts = tStatus (heap s a)"
      using arg_cong [OF eq, of tkStatus] by (simp add: state_of_task_def Let_def)
    have "(task_of_state k ts)\<lparr>tAssignedGPUs := []\<rparr>
        = (heap s a)\<lparr>tMetrics := [], tStartTime := whole_seconds (tStartTime (heap s a)), tAssignedGPUs := []\<rparr>"
      unfolding task eq unfolding task [symmetric] task_state_inverse [OF k] ..
    moreover have "mset (tAssignedGPUs (task_of_state k ts)) = mset (tAssignedGPUs (heap s a))"
      by (simp only: task(2) gs)
    ultimately have "reloaded_task (k \<in> set (pending_ids s)) (heap s a) (heap t b)"
      by (cases "task_of_state k ts"; cases "heap s a")
         (simp add: reloaded_task_def b(2) status)
    then show ?thesis using Some b(1) by simp
  qed
qed

lemma reloaded_workers:
  assumes wf: "sched_wf s" and st: "restored (snapshot cs s) st" and t: "restored_state st t"
  shows "rel_option (reloaded_worker s t k) (map_of (workers s) k) (map_of (workers t) k)"
proof -
  let ?owned = "filter (\<lambda>(_, t). tkWorkerID t = k) (ssTasks (snapshot cs s))"
  have r1: "rel_option (restored_worker (ssTasks (snapshot cs s)) k)
      (map_of (ssWorkers (snapshot cs s)) k) (map_of (ssWorkers st) k)"
    using st unfolding restored_def by blast
  have r2: "map_of (workers t) k = map_option (worker_of_state (tasks t) k) (map_of (ssWorkers st) k)"
    using t unfolding restored_state_def by blast
  have "map_ok (tasks s)" using wf by (simp add: sched_wf_def)
  then have ok: "map_ok (ssTasks (snapshot cs s))" by (simp only: map_ok_def snapshot_def SchedulerState.simps fst_models)
  have owned: "tid \<in> fst ` set ?owned \<longleftrightarrow> (\<exists>a. map_of (tasks s) tid = Some a \<and> tWorkerID (heap s a) = k)" for tid
  proof -
    have w: "tkWorkerID (state_of_task tid a) = tWorkerID a" for a by (simp add: state_of_task_def Let_def)
    have "tid \<in> fst ` set ?owned \<longleftrightarrow> (\<exists>ts. (tid, ts) \<in> set (ssTasks (snapshot cs s)) \<and> tkWorkerID ts = k)"
      by force
    also have "\<dots> \<longleftrightarrow> (\<exists>a. map_of (tasks s) tid = Some a \<and> tWorkerID (heap s a) = k)"
      unfolding map_ok_in_iff [OF ok] snapshot_maps by (cases "map_of (tasks s) tid") (simp_all add: w)
    finally show ?thesis .
  qed
  show ?thesis
  proof (cases "map_of (workers s) k")
    case None
    with r1 r2 show ?thesis by (auto simp: snapshot_maps option_rel_Some1)
  next
    case (Some w)
    with r1 obtain w' where w': "map_of (ssWorkers st) k = Some w'"
      "restored_worker (ssTasks (snapshot cs s)) k (state_of_worker (cs k) k w) w'"
      by (auto simp: snapshot_maps option_rel_Some1)
    have "mset (wsTasks w') = mset (map fst ?owned)" using w'(2) unfolding restored_worker_def by blast
    from mset_eq_setD [OF this] have "tid \<in> set (wsTasks w') \<longleftrightarrow> tid \<in> fst ` set ?owned" for tid by auto
    then have listed: "tid \<in> set (wsTasks w') \<longleftrightarrow> (\<exists>a. map_of (tasks s) tid = Some a \<and> tWorkerID (heap s a) = k)" for tid
      unfolding owned .
    have "mset (wsGPUs w') = mset (map state_of_gpu (wGPUs w))"
      using w'(2) by (simp add: restored_worker_def state_of_worker_def)
    then have "mset (map gpu_of_state (wsGPUs w')) = mset (map gpu_of_state (map state_of_gpu (wGPUs w)))"
      unfolding mset_map by simp
    then have "mset (map gpu_of_state (wsGPUs w')) = mset (wGPUs w)" by (simp add: comp_def)
    then have "reloaded_worker s t k w (worker_of_state (tasks t) k w')"
      using w'(2) by (auto simp: reloaded_worker_def worker_of_state_def restored_worker_def state_of_worker_def
          map_of_relist listed split: option.split)
    then show ?thesis using Some r2 w'(1) by simp
  qed
qed

lemma reloaded_restored:
  assumes wf: "sched_wf s" and st: "restored (snapshot cs s) st" and t: "restored_state st t"
  shows "reloaded s t \<and> sched_wf t"
proof
  have pd: "mset (ssPendingTasks st) = mset (pending_ids s)"
    using st unfolding restored_def snapshot_maps by blast
  have id: "tID (heap t b) = k" if "map_of (tasks t) k = Some b" for k b
    using reloaded_tasks [OF assms, of k] that wf
    by (auto simp: option_rel_Some2 reloaded_task_def sched_wf_def dest!: arg_cong [of _ _ tID])
  have in_t: "map_of (tasks t) k \<noteq> None" if "k \<in> set (ssPendingTasks st)" for k
  proof -
    have "k \<in> set (pending_ids s)" using that mset_eq_setD [OF pd] by simp
    then have "map_of (tasks s) k \<noteq> None" using wf by (auto simp: pending_ids_def sched_wf_def)
    then show ?thesis using reloaded_tasks [OF assms, of k] by (auto simp: option_rel_Some1)
  qed
  have "pendingTasks t = List.map_filter (map_of (tasks t)) (ssPendingTasks st)"
    using t unfolding restored_state_def by blast
  moreover have "map (\<lambda>a. tID (heap t a)) (List.map_filter (map_of (tasks t)) ks) = ks"
    if "\<forall>k \<in> set ks. map_of (tasks t) k \<noteq> None" for ks
    using that id by (induction ks) (auto simp: List.map_filter_simps)
  ultimately have "pending_ids t = ssPendingTasks st" using in_t by (simp add: pending_ids_def)
  with pd show "reloaded s t"
    unfolding reloaded_def using reloaded_workers [OF assms] reloaded_tasks [OF assms] by simp
  show "sched_wf t"
  proof (rule restored_state_wf [OF t])
    fix k w' assume w': "map_of (ssWorkers st) k = Some w'"
    have "rel_option (restored_worker (ssTasks (snapshot cs s)) k)
      (map_of (ssWorkers (snapshot cs s)) k) (map_of (ssWorkers st) k)"
      using st unfolding restored_def by blast
    with w' obtain w where w: "map_of (workers s) k = Some w"
      "mset (wsGPUs w') = mset (map state_of_gpu (wGPUs w))"
      by (auto simp: option_rel_Some2 snapshot_maps restored_worker_def state_of_worker_def)
    have "length (wsGPUs w') = length (wGPUs w)" using mset_eq_length [OF w(2)] by simp
    then show "k \<noteq> '''' \<and> length (wsGPUs w') < 2 ^ 32"
      using wf_worker [OF wf w(1)] by (simp add: worker_ok_def)
  qed
qed

section \<open>The handlers\<close>

lemma snapshot_mu [simp]: "snapshot cs (s\<lparr>mu := m\<rparr>) = snapshot cs s"
  by (simp add: snapshot_def)

lemma restored_state_mu [simp]: "restored_state st (t\<lparr>mu := m\<rparr>) = restored_state st t"
  by (simp add: restored_state_def)

context rw_lock
begin

lemma save_section_Done:
  assumes "mutex E = ops" and "mu s = unlocked" and "persistenceManager s = Some m"
  shows "save_section G E V db s = Done (manager_SaveState G m (clock E (envTick s)) (sv_stamps V) (sv_choices V)
     (snapshot (sv_tasks V) s) db) (tick s)"
proof -
  have "(tick (s\<lparr>mu := write_locked\<rparr>))\<lparr>mu := unlocked\<rparr> = tick s"
    using assms(2) by (cases s) (simp add: tick_def)
  moreover have "mu (tick (s\<lparr>mu := write_locked\<rparr>)) = write_locked" by (simp add: sched_frame)
  ultimately show ?thesis
    unfolding save_section_def with_lock_free [OF assms(1,2)] by (simp add: assms(3) unlock_held)
qed

lemma LoadState_Done:
  assumes "mutex E = ops" and "mu s = unlocked" and "persistenceManager s = Some m"
    and "manager_LoadState G m (clock E (envTick s)) db = Inr st"
    and "map_ok (ssWorkers st)" and "map_ok (ssTasks st)"
  shows "\<exists>t. LoadState G E db s = Done None t \<and> restored_state st t \<and> mu t = unlocked
     \<and> persistenceManager t = Some m"
proof -
  let ?t = "restore (orders E (envTick s)) st (tick (s\<lparr>mu := write_locked\<rparr>))"
  have "mu ?t = write_locked" by (simp add: restore_frame sched_frame)
  then have "LoadState G E db s = Done None (?t\<lparr>mu := unlocked\<rparr>)"
    unfolding LoadState_def with_lock_free [OF assms(1,2)] by (simp add: assms(3,4) unlock_held)
  then show ?thesis using restore_restored [OF assms(5,6)] assms(3)
    by (simp add: restore_frame sched_frame)
qed

text \<open>The tables a save leaves behind, and what a load of these tables gives.\<close>

lemma save_tables:
  assumes E: "mutex E = ops" and G: "gorm_laws G view up" "up db"
    and s: "mu s = unlocked" "persistenceManager s = Some m" "saveable (snapshot (sv_tasks V) s)"
    and m: "mgHasDB m" "cfType (mgConfig m) = DatabasePersistence"
  shows "\<exists>db'. SaveState G E V (s, db) = Panicked (tick s, db') \<and> up db'
     \<and> view db' = saved_tables no_stamps (ssWorkers (snapshot (sv_tasks V) s))
         (ssTasks (snapshot (sv_tasks V) s)) (ssPendingTasks (snapshot (sv_tasks V) s))"
proof -
  let ?st' = "(snapshot (sv_tasks V) s)\<lparr>ssSavedAt := unix_seconds (clock E (envTick s))\<rparr>"
  have st': "saveable ?st'" using s(3) by (simp add: saveable_def saveable_rows_def)
  from effectsD [OF effects_saveToDatabase [OF G(1) m(1) st'] G(2)]
  obtain db' where "saveToDatabase G m (sv_stamps V) (sv_choices V) ?st' db = (None, db')" "up db'"
    "view db' = saved_tables no_stamps (ssWorkers ?st') (ssTasks ?st') (ssPendingTasks ?st')" by blast
  then show ?thesis by (simp add: SaveState_def save_section_Done [OF E s(1,2)] manager_SaveState_def m(2))
qed

lemma load_tables:
  assumes E: "mutex E = ops" and G: "gorm_laws G view up" "up db" and wf: "sched_wf s"
    and st: "saveable (snapshot cs s)" and view: "view db = saved_tables stamp (ssWorkers (snapshot cs s))
         (ssTasks (snapshot cs s)) (ssPendingTasks (snapshot cs s))"
    and r: "mu r = unlocked" "persistenceManager r = Some m"
    and m: "mgHasDB m" "cfType (mgConfig m) = DatabasePersistence"
  shows "\<exists>t. LoadState G E db r = Done None t \<and> reloaded s t \<and> sched_wf t \<and> mu t = unlocked
     \<and> persistenceManager t = Some m"
proof -
  obtain st where st: "manager_LoadState G m (clock E (envTick r)) db = Inr st" "restored (snapshot cs s) st"
    using loaded_restores [OF G m(1) st view] by (auto simp: manager_LoadState_def m(2))
  then have "map_ok (ssWorkers st)" "map_ok (ssTasks st)" by (simp_all add: restored_def)
  from LoadState_Done [OF E r st(1) this] obtain t where "LoadState G E db r = Done None t"
    "restored_state st t" "mu t = unlocked" "persistenceManager t = Some m" by blast
  with reloaded_restored [OF wf st(2)] show ?thesis by blast
qed

lemma save_reload:
  assumes E: "mutex E = ops" and G: "gorm_laws G view up" "up db"
    and s: "mu s = unlocked" "persistenceManager s = Some m" "sched_wf s" "saveable (snapshot (sv_tasks V) s)"
    and r: "mu r = unlocked" "persistenceManager r = Some m"
    and m: "mgHasDB m" "cfType (mgConfig m) = DatabasePersistence"
  shows "\<exists>db' s' t. SaveState G E V (s, db) = Panicked (s', db') \<and> LoadState G E db' r = Done None t
     \<and> reloaded s t \<and> sched_wf t \<and> mu t = unlocked"
  using save_tables [OF E G s(1,2,4) m] load_tables [OF E G(1) _ s(3,4) _ r m] by blast

end

end
