(* ===== verification/PersistProps.thy ===== *)
theory PersistProps
  imports SchedPersist
begin

text \<open>
  The properties of persistence: what survives a save and a load, what does not, and which
  configurations and states never save at all.
\<close>

section \<open>A scheduler to save\<close>

definition store_env :: "mutex_ops \<Rightarrow> env" where
  "store_env ops = \<lparr>mutex = ops, clock = (\<lambda>n. int n * 1000000000), orders = (\<lambda>_. ([], []))\<rparr>"

definition store_choices :: save_env where
  "store_choices = \<lparr>sv_stamps = (\<lambda>_. (0, 0)), sv_choices = ([1], [1]), sv_tasks = (\<lambda>_. [])\<rparr>"

definition store_manager :: Manager where
  "store_manager = \<lparr>mgConfig = DefaultConfig, mgHasDB = True, mgStopped = False, mgSaveTrigger = 0,
     mgAutoSave = True\<rparr>"

definition store_gpu :: "string \<Rightarrow> bool \<Rightarrow> GPU" where
  "store_gpu i free = \<lparr>gID = i, gModel = ''m'', gMemoryMB = 8, gAvailable = free\<rparr>"

definition store_task :: "string \<Rightarrow> TaskStatus \<Rightarrow> string \<Rightarrow> string list \<Rightarrow> Task" where
  "store_task i st w gs = no_task\<lparr>tID := i, tRequiredGPUs := 1, tStatus := st, tWorkerID := w,
     tAssignedGPUs := gs\<rparr>"

text \<open>Worker \<open>w1\<close> runs \<open>t1\<close>, has completed \<open>t2\<close>, and \<open>t3\<close> is queued.\<close>

definition store_sched :: sched where
  "store_sched = NewScheduler\<lparr>
     workers := [(''w1'', \<lparr>wID = ''w1'', wGPUs = [store_gpu ''g0'' False, store_gpu ''g1'' True],
                    wAddress = ''host'', wStatus = WorkerStatus_BUSY, wTasks = [(''t1'', 0)]\<rparr>)],
     tasks := [(''t1'', 0), (''t2'', 1), (''t3'', 2)],
     pendingTasks := [2],
     persistenceManager := Some store_manager,
     heap := (\<lambda>_. no_task)(0 := store_task ''t1'' TaskStatus_RUNNING ''w1'' [''g0''],
                            1 := store_task ''t2'' TaskStatus_COMPLETED ''w1'' [''g1''],
                            2 := store_task ''t3'' TaskStatus_PENDING '''' []),
     heapNext := 3\<rparr>"

lemma memory_empty_up: "memory_up empty_db"
  by (simp add: memory_up_def empty_db_def)

lemma store_manager_ok: "mgHasDB store_manager" "cfType (mgConfig store_manager) = DatabasePersistence"
  by (simp_all add: store_manager_def DefaultConfig_def)

lemma store_sched_ok:
  "mu store_sched = unlocked" "persistenceManager store_sched = Some store_manager"
  "saveable (snapshot (sv_tasks store_choices) store_sched)"
  by (simp add: store_sched_def NewScheduler_def, simp add: store_sched_def, code_simp)

lemma store_sched_wf: "sched_wf store_sched"
  by (auto simp: sched_wf_def worker_ok_def store_sched_def NewScheduler_def map_ok_def store_task_def
      no_task_def split: if_splits)

lemma save_reload_either:
  assumes "mutex E \<in> {go_rwmutex, reentrant_rwmutex}" and "gorm_laws G view up" and "up db"
    and "mu s = unlocked" and "persistenceManager s = Some m" and "sched_wf s"
    and "saveable (snapshot (sv_tasks V) s)" and "mu r = unlocked" and "persistenceManager r = Some m"
    and "mgHasDB m" and "cfType (mgConfig m) = DatabasePersistence"
  obtains db' s' t where "SaveState G E V (s, db) = Panicked (s', db')" "LoadState G E db' r = Done None t"
    "reloaded s t" "sched_wf t" "mu t = unlocked"
proof -
  consider "mutex E = go_rwmutex" | "mutex E = reentrant_rwmutex" using assms(1) by blast
  then show thesis
  proof cases
    case 1
    from go_mutex.save_reload [OF this assms(2-11)] that show ?thesis by blast
  next
    case 2
    from re_mutex.save_reload [OF this assms(2-11)] that show ?thesis by blast
  qed
qed

section \<open>Round trips\<close>

text \<open>C28: A snapshot that satisfies \<open>saveable\<close> (GPU ids that are unique over all workers, no task queued twice, ids that are not empty, text that
  is UTF-8, finite progress, numbers and times in the drivers' ranges) is saved without an error, into any database that
  behaves as the library documents and with any map order. Loading it afterwards gives the same workers and tasks, up
  to the order of GPUs and GPU ids, and the same queue as a multiset, with the task list of each worker recomputed from
  the tasks that name it.\<close>

theorem snapshot_roundtrip:
  assumes "gorm_laws G view up" and "up db" and "mgHasDB m"
    and "cfType (mgConfig m) = DatabasePersistence" and "saveable st"
  shows "\<exists>db' st'. manager_SaveState G m now stamp ch st db = (None, db') \<and> up db'
     \<and> manager_LoadState G m now' db' = Inr st' \<and> restored st st' \<and> ssSavedAt st' = unix_seconds now'"
proof -
  let ?st = "st\<lparr>ssSavedAt := unix_seconds now\<rparr>"
  have st: "saveable ?st" using assms(5) by (simp add: saveable_def saveable_rows_def)
  from effectsD [OF effects_saveToDatabase [OF assms(1,3) st] assms(2)]
  obtain db' where db': "saveToDatabase G m stamp ch ?st db = (None, db')" "up db'"
    "view db' = saved_tables no_stamps (ssWorkers ?st) (ssTasks ?st) (ssPendingTasks ?st)" by blast
  from loaded_restores [OF assms(1) db'(2) assms(3) st db'(3)] db' show ?thesis
    by (auto simp: manager_SaveState_def manager_LoadState_def assms(4) restored_def)
qed

theorem snapshot_roundtrip_witness:
  "\<exists>db' st'. manager_SaveState memory_gorm store_manager 7 (\<lambda>_. (0, 0)) ([1], [1])
       (snapshot (\<lambda>_. []) store_sched) empty_db = (None, db')
     \<and> manager_LoadState memory_gorm store_manager 8 db' = Inr st'
     \<and> restored (snapshot (\<lambda>_. []) store_sched) st'"
  using snapshot_roundtrip [OF memory_gorm_laws memory_empty_up store_manager_ok
      store_sched_ok(3) [unfolded store_choices_def save_env.simps], of 7 "\<lambda>_. (0, 0)" "([1], [1])" 8] by blast

text \<open>C27: \<^verbatim>\<open>SaveState\<close> of a well-formed scheduler whose snapshot is \<open>saveable\<close> (GPU ids that are unique over all workers, no task queued
  twice, values the drivers can store) writes the whole state and then panics in its log line. Loaded with
  \<^verbatim>\<open>LoadState\<close> into any scheduler that uses the same database the state comes back: the workers with the same GPUs, addresses
  and states, the tasks with start times in whole seconds and without their metrics, and the queue as a
  multiset, because \<^verbatim>\<open>GetPendingTasks\<close> asks for no order. The state is well formed, and every task that names a worker is in that
  worker's task map.\<close>

theorem scheduler_roundtrip:
  assumes "mutex E \<in> {go_rwmutex, reentrant_rwmutex}" and "gorm_laws G view up" and "up db"
    and "mu s = unlocked" and "persistenceManager s = Some m" and "sched_wf s"
    and "saveable (snapshot (sv_tasks V) s)" and "mu r = unlocked" and "persistenceManager r = Some m"
    and "mgHasDB m" and "cfType (mgConfig m) = DatabasePersistence"
  shows "\<exists>db' s' t. SaveState G E V (s, db) = Panicked (s', db') \<and> LoadState G E db' r = Done None t
     \<and> reloaded s t \<and> sched_wf t \<and> mu t = unlocked"
  using save_reload_either [OF assms] by blast

theorem scheduler_roundtrip_witness:
  "\<exists>db' s' t. SaveState memory_gorm (store_env go_rwmutex) store_choices (store_sched, empty_db) = Panicked (s', db')
     \<and> LoadState memory_gorm (store_env go_rwmutex) db'
         (NewScheduler\<lparr>persistenceManager := Some store_manager\<rparr>) = Done None t
     \<and> reloaded store_sched t \<and> sched_wf t"
proof -
  have "mutex (store_env go_rwmutex) \<in> {go_rwmutex, reentrant_rwmutex}" by (simp add: store_env_def)
  moreover have "mu (NewScheduler\<lparr>persistenceManager := Some store_manager\<rparr>) = unlocked"
    by (simp add: NewScheduler_def)
  ultimately show ?thesis
    using scheduler_roundtrip [OF _ memory_gorm_laws memory_empty_up store_sched_ok(1,2) store_sched_wf
        store_sched_ok(3) _ _ store_manager_ok, of "store_env go_rwmutex"
        "NewScheduler\<lparr>persistenceManager := Some store_manager\<rparr>"] by auto
qed

section \<open>What a reload brings back\<close>

text \<open>C30: Loading puts every task that names a worker into that worker's task map, also the tasks that were
  completed or failed and had been removed from it: the worker then holds a finished task, which no report will
  remove again in the normal course.\<close>

theorem reload_revives_finished_tasks:
  assumes "mutex E \<in> {go_rwmutex, reentrant_rwmutex}" and "gorm_laws G view up" and "up db"
    and "mu s = unlocked" and "persistenceManager s = Some m" and "sched_wf s"
    and "saveable (snapshot (sv_tasks V) s)" and "mu r = unlocked" and "persistenceManager r = Some m"
    and "mgHasDB m" and "cfType (mgConfig m) = DatabasePersistence"
    and task: "map_of (tasks s) tid = Some a" "terminal (tStatus (heap s a))" "tid \<notin> set (pending_ids s)"
    and worker: "map_of (workers s) (tWorkerID (heap s a)) = Some w"
  shows "\<exists>db' s' t w' b. SaveState G E V (s, db) = Panicked (s', db') \<and> LoadState G E db' r = Done None t
     \<and> map_of (workers t) (tWorkerID (heap s a)) = Some w' \<and> map_of (wTasks w') tid = Some b
     \<and> terminal (tStatus (heap t b))"
proof -
  let ?k = "tWorkerID (heap s a)"
  obtain db' s' t where run: "SaveState G E V (s, db) = Panicked (s', db')" "LoadState G E db' r = Done None t"
    and t: "reloaded s t"
    by (rule save_reload_either [OF assms(1-11)])
  have "rel_option (reloaded_worker s t ?k) (map_of (workers s) ?k) (map_of (workers t) ?k)"
    and "rel_option (\<lambda>a b. reloaded_task (tid \<in> set (pending_ids s)) (heap s a) (heap t b))
      (map_of (tasks s) tid) (map_of (tasks t) tid)"
    using t unfolding reloaded_def by blast+
  then obtain w' b where w': "map_of (workers t) ?k = Some w'" "reloaded_worker s t ?k w w'"
    and b: "map_of (tasks t) tid = Some b" "reloaded_task False (heap s a) (heap t b)"
    using task worker by (auto simp: option_rel_Some1)
  have "map_of (wTasks w') tid = Some b"
    using w'(2) task(1) b(1) unfolding reloaded_worker_def by simp
  moreover have "tStatus (heap t b) = tStatus (heap s a)"
    using b(2) unfolding reloaded_task_def by (metis Task.select_convs(6) Task.surjective Task.update_convs)
  ultimately show ?thesis using run w'(1) task(2) by auto
qed

theorem reload_revives_finished_tasks_witness:
  "\<exists>db' s' t w' b. SaveState memory_gorm (store_env go_rwmutex) store_choices (store_sched, empty_db) = Panicked (s', db')
     \<and> LoadState memory_gorm (store_env go_rwmutex) db' store_sched = Done None t
     \<and> map_of (wTasks w') ''t2'' = Some b \<and> map_of (workers t) ''w1'' = Some w' \<and> terminal (tStatus (heap t b))"
proof -
  have E: "mutex (store_env go_rwmutex) \<in> {go_rwmutex, reentrant_rwmutex}" by (simp add: store_env_def)
  have t2: "map_of (tasks store_sched) ''t2'' = Some 1" "terminal (tStatus (heap store_sched 1))"
    "''t2'' \<notin> set (pending_ids store_sched)" "tWorkerID (heap store_sched 1) = ''w1''"
    by (simp_all add: store_sched_def store_task_def terminal_def pending_ids_def)
  have "map_of (workers store_sched) (tWorkerID (heap store_sched 1)) = Some (snd (hd (workers store_sched)))"
    unfolding t2(4) by (simp add: store_sched_def)
  from reload_revives_finished_tasks [OF E memory_gorm_laws memory_empty_up store_sched_ok(1,2) store_sched_wf
      store_sched_ok(3,1,2) store_manager_ok t2(1-3) this, unfolded t2(4)]
  show ?thesis by blast
qed

section \<open>Saves that fail half way\<close>

lemma run_stmts_append:
  "run_stmts xs db = (None, db') \<Longrightarrow> run_stmts (xs @ ys) db = run_stmts ys db'"
  by (induction xs arbitrary: db) (auto split: prod.splits option.splits)

lemma gorm_pending_taken:
  assumes "gorm_laws G view up" and "up db" and "pdTaskID p \<in> tb_pending (view db)" and "storable_text (pdTaskID p)"
  obtains e db' where "gq_create_pending G p db = (Some e, db')" "view db' = view db"
proof -
  have "rejects view up (gq_create_pending G p) db"
    using assms(1) [unfolded gorm_laws_def, THEN spec, THEN mp, OF assms(2)] assms(3,4) by (elim conjE) simp
  then show thesis using that by (cases "gq_create_pending G p db") (auto simp: rejects_def)
qed

text \<open>C29: A task that is queued twice makes the save fail after the old state has been deleted: the database is
  left with the new workers and tasks and with the queue up to the repeated entry, so the entries behind it are lost.\<close>

theorem duplicate_pending_fails:
  assumes G: "gorm_laws G view up" and "up db" and m: "mgHasDB m"
    and "cfType (mgConfig m) = DatabasePersistence"
    and pd: "ssPendingTasks st = ys @ x # zs" "x \<in> set ys"
    and st: "saveable (st\<lparr>ssPendingTasks := ys\<rparr>)"
  shows "\<exists>e db'. manager_SaveState G m now stamp ch st db
       = (Some (''failed to save pending task '' @ x @ '': '' @ e), db')
     \<and> view db' = saved_tables no_stamps (ssWorkers st) (ssTasks st) ys"
proof -
  let ?st = "st\<lparr>ssSavedAt := unix_seconds now\<rparr>" and ?st' = "st\<lparr>ssPendingTasks := ys\<rparr>"
  from effectsD [OF effects_saveToDatabase [OF G m st] assms(2)]
  obtain db1 where "saveToDatabase G m stamp ch ?st' db = (None, db1)" "up db1"
    "view db1 = saved_tables no_stamps (ssWorkers ?st') (ssTasks ?st') (ssPendingTasks ?st')" by blast
  then have db1: "saveToDatabase G m stamp ch ?st' db = (None, db1)" "up db1"
    "view db1 = saved_tables no_stamps (ssWorkers st) (ssTasks st) ys" by simp_all
  define before where "before =
     wrap_error ''failed to clear existing state: '' (ClearAllState G)
      # map (\<lambda>(wid, worker). wrap_error (''failed to save worker '' @ wid @ '': '')
            (SaveWorker G (worker_model stamp wid worker) (map (gpu_model stamp wid) (wsGPUs worker))))
          (permute (fst ch) (ssWorkers st))
      @ map (\<lambda>(tid, task). wrap_error (''failed to save task '' @ tid @ '': '')
            (SaveTask G (task_model stamp tid task) (tkAssignedGPUs task)))
          (permute (snd ch) (ssTasks st))"
  let ?pend = "map (\<lambda>tid. wrap_error (''failed to save pending task '' @ tid @ '': '') (SavePendingTask G stamp tid))"
  have "run_stmts (before @ ?pend ys) db = (None, db1)"
    using db1(1) by (simp add: saveToDatabase_eq [OF m] before_def)
  then have rest: "saveToDatabase G m stamp ch ?st db = run_stmts (?pend (x # zs)) db1"
    using run_stmts_append [of "before @ ?pend ys" db db1 "?pend (x # zs)"]
    by (simp add: saveToDatabase_eq [OF m] before_def pd(1))
  obtain e db' where "gq_create_pending G \<lparr>pdTaskID = x, pdCreatedAt = fst (stamp x)\<rparr> db1 = (Some e, db')"
    "view db' = view db1"
    by (rule gorm_pending_taken [OF G db1(2), of "\<lparr>pdTaskID = x, pdCreatedAt = fst (stamp x)\<rparr>"])
      (use db1(3) pd(2) st in \<open>auto simp: saved_tables_def saveable_def saveable_rows_def list_all_iff\<close>)
  with rest db1(3) show ?thesis
    by (simp add: manager_SaveState_def assms(4) wrap_error_def SavePendingTask_def)
qed

theorem duplicate_pending_fails_witness:
  "\<exists>e db'. manager_SaveState memory_gorm store_manager 7 (\<lambda>_. (0, 0)) ([], [])
       \<lparr>ssWorkers = [], ssTasks = [], ssPendingTasks = [''t'', ''t'', ''u''], ssSavedAt = 0\<rparr> empty_db
     = (Some (''failed to save pending task '' @ ''t'' @ '': '' @ e), db')
     \<and> memory_view db' = saved_tables no_stamps [] [] [''t'']"
proof -
  let ?st = "\<lparr>ssWorkers = [], ssTasks = [], ssPendingTasks = [''t'', ''t'', ''u''], ssSavedAt = 0\<rparr>"
  have "saveable (?st\<lparr>ssPendingTasks := [''t'']\<rparr>)" by code_simp
  from duplicate_pending_fails [OF memory_gorm_laws memory_empty_up store_manager_ok _ _ this, of "''t''" "[''u'']"]
  show ?thesis by simp
qed

text \<open>Without unique GPU ids: the workers that have a GPU with some id, in the order in which they are saved. The row of the
  last one is the row that stays.\<close>

definition gpu_holders :: "string \<Rightarrow> WorkerState gomap \<Rightarrow> string list" where
  "gpu_holders g ws = map fst (filter (\<lambda>(k, w). g \<in> gsID ` set (wsGPUs w)) ws)"

definition gpu_rows :: "WorkerState gomap \<Rightarrow> string \<rightharpoonup> GPUModel" where
  "gpu_rows ws = map_of (rev (map (\<lambda>g. (gmID g, g)) (all_gpu_models no_stamps ws)))"

lemma gpu_rows_key: "gpu_rows ws i = Some gm \<Longrightarrow> gmID gm = i"
  by (auto simp: gpu_rows_def dest!: map_of_SomeD)

lemma gpu_holders_iff: "map_ok ws \<Longrightarrow> k \<in> set (gpu_holders g ws) \<longleftrightarrow> (\<exists>w. map_of ws k = Some w \<and> g \<in> gsID ` set (wsGPUs w))"
  by (force simp: gpu_holders_def map_ok_in_iff [symmetric])

lemma gpu_rows_snoc:
  "gpu_rows (ws @ [(k, w)]) g = (case map_of (rev (map (\<lambda>x. (gmID x, x)) (map (gpu_model no_stamps k) (wsGPUs w)))) g of
     Some gm \<Rightarrow> Some gm | None \<Rightarrow> gpu_rows ws g)"
  by (simp add: gpu_rows_def all_gpu_models_def map_add_def split: option.split del: map_map)

lemma gpu_rows_last: "gpu_holders g ws \<noteq> [] \<Longrightarrow> \<exists>gm. gpu_rows ws g = Some gm \<and> gmWorkerID gm = last (gpu_holders g ws)"
proof (induction ws rule: rev_induct)
  case (snoc p ws)
  obtain k w where p: "p = (k, w)" by (cases p)
  let ?rows = "map (\<lambda>x. (gmID x, x)) (map (gpu_model no_stamps k) (wsGPUs w))"
  have fst: "map_of (rev ?rows) g = None \<longleftrightarrow> g \<notin> gsID ` set (wsGPUs w)"
    by (auto simp: map_of_eq_None_iff gpu_model_def image_image)
  show ?case
  proof (cases "map_of (rev ?rows) g")
    case None
    with snoc fst show ?thesis by (simp add: p gpu_rows_snoc gpu_holders_def del: map_map)
  next
    case (Some gm)
    then have "gmWorkerID gm = k" by (auto simp: gpu_model_def dest!: map_of_SomeD)
    with Some fst show ?thesis by (simp add: p gpu_rows_snoc gpu_holders_def del: map_map)
  qed
qed (simp add: gpu_holders_def)

text \<open>C31: The table of GPUs has the GPU's id alone as its key. When two workers both have a GPU \<open>g\<close>, as with the ids 0, 1, ... that
  every worker uses for its own, any database that behaves as documented saves them without an error and loads
  all workers, but only one worker has \<open>g\<close> afterwards: the one that the iteration over the map saved last. Of any two workers
  that had it, one has lost it.\<close>

theorem equal_gpu_ids_overwrite:
  assumes G: "gorm_laws G view up" and "up db" and m: "mgHasDB m" and type: "cfType (mgConfig m) = DatabasePersistence"
    and st: "saveable_rows st"
    and a: "map_of (ssWorkers st) a = Some wa" "g \<in> gsID ` set (wsGPUs wa)"
    and b: "map_of (ssWorkers st) b = Some wb" "g \<in> gsID ` set (wsGPUs wb)" and "a \<noteq> b"
  shows "\<exists>db' st'. manager_SaveState G m now stamp ch st db = (None, db') \<and> manager_LoadState G m now' db' = Inr st'
     \<and> dom (map_of (ssWorkers st')) = dom (map_of (ssWorkers st))
     \<and> (\<forall>k. (\<exists>w. map_of (ssWorkers st') k = Some w \<and> g \<in> gsID ` set (wsGPUs w))
          \<longleftrightarrow> k = last (gpu_holders g (permute (fst ch) (ssWorkers st))))
     \<and> (\<exists>k \<in> {a, b}. \<exists>w. map_of (ssWorkers st') k = Some w \<and> g \<notin> gsID ` set (wsGPUs w))"
proof -
  let ?st = "st\<lparr>ssSavedAt := unix_seconds now\<rparr>" and ?ws = "permute (fst ch) (ssWorkers st)"
  have st': "saveable_rows ?st" using st by (simp add: saveable_rows_def)
  then have ok: "map_ok (ssWorkers st)" by (simp add: saveable_rows_def)
  have holders: "set (gpu_holders g ?ws) = set (gpu_holders g (ssWorkers st))" by (auto simp: gpu_holders_def)
  have "a \<in> set (gpu_holders g ?ws)" using a by (simp add: holders gpu_holders_iff [OF ok])
  then have ne: "gpu_holders g ?ws \<noteq> []" by (cases "gpu_holders g ?ws") simp_all
  obtain gm where gm: "gpu_rows ?ws g = Some gm" "gmWorkerID gm = last (gpu_holders g ?ws)"
    using gpu_rows_last [OF ne] by blast
  obtain db' where save: "saveToDatabase G m stamp ch ?st db = (None, db')" "up db'"
    and T: "view db' = (saved_tables no_stamps (ssWorkers ?st) (ssTasks ?st) (ssPendingTasks ?st))\<lparr>tb_gpus := gpu_rows ?ws\<rparr>"
    by (rule effectsD [OF effects_save_rows [OF G m st'] assms(2)]) (simp_all add: gpu_rows_def)
  have key: "\<forall>i gm. gpu_rows ?ws i = Some gm \<longrightarrow> gmID gm = i" by (simp add: gpu_rows_key)
  have same: "ssWorkers ?st = ssWorkers st" by simp
  from loaded_gpus [OF G save(2) m st' T key, of now', unfolded same] obtain st'' where load: "loadFromDatabase G m now' db' = Inr st''"
    and rel: "\<And>k. rel_option (\<lambda>w w'. wsAddress w' = wsAddress w
        \<and> gsID ` set (wsGPUs w') = {i. \<exists>g. gpu_rows ?ws i = Some g \<and> gmWorkerID g = k})
      (map_of (ssWorkers st) k) (map_of (ssWorkers st'') k)" by blast
  have kept: "map_of (ssWorkers st'') k = None \<longleftrightarrow> map_of (ssWorkers st) k = None" for k
    using rel [of k] by (cases "map_of (ssWorkers st) k"; cases "map_of (ssWorkers st'') k") simp_all
  have own: "g \<in> gsID ` set (wsGPUs w') \<longleftrightarrow> k = last (gpu_holders g ?ws)" if "map_of (ssWorkers st'') k = Some w'" for k w'
    using rel [of k] gm by (cases "map_of (ssWorkers st) k") (auto simp: that)
  have "last (gpu_holders g ?ws) \<in> set (gpu_holders g (ssWorkers st))" using last_in_set [OF ne] holders by simp
  then obtain w where "map_of (ssWorkers st) (last (gpu_holders g ?ws)) = Some w" by (auto simp: gpu_holders_iff [OF ok])
  then obtain w' where keeper: "map_of (ssWorkers st'') (last (gpu_holders g ?ws)) = Some w'" using kept by fastforce
  obtain k w'' where "k \<in> {a, b}" "k \<noteq> last (gpu_holders g ?ws)" "map_of (ssWorkers st'') k = Some w''"
    using \<open>a \<noteq> b\<close> a(1) b(1) kept [of a] kept [of b] by auto
  then have "\<exists>k \<in> {a, b}. \<exists>w. map_of (ssWorkers st'') k = Some w \<and> g \<notin> gsID ` set (wsGPUs w)" using own by blast
  moreover have "dom (map_of (ssWorkers st'')) = dom (map_of (ssWorkers st))" using kept by (auto simp: dom_def)
  moreover have "(\<exists>w. map_of (ssWorkers st'') k = Some w \<and> g \<in> gsID ` set (wsGPUs w)) \<longleftrightarrow> k = last (gpu_holders g ?ws)" for k
    using own keeper by blast
  ultimately show ?thesis using save(1) load
    by (simp add: manager_SaveState_def manager_LoadState_def type)
qed

text \<open>Two workers whose GPUs are both numbered from 0.\<close>

definition two_workers :: SchedulerState where
  "two_workers =
     (let g = \<lparr>gsID = ''0'', gsModel = ''m'', gsMemoryMB = 8, gsAvailable = True\<rparr>;
          w = \<lambda>k. (k, \<lparr>wsID = k, wsGPUs = [g], wsAddress = ''host'', wsWStatus = WorkerStatus_IDLE,
                        wsTasks = []\<rparr>)
      in \<lparr>ssWorkers = [w ''a'', w ''b''], ssTasks = [], ssPendingTasks = [], ssSavedAt = 0\<rparr>)"

theorem equal_gpu_ids_overwrite_witness:
  "\<exists>db st w. manager_SaveState memory_gorm store_manager 7 (\<lambda>_. (0, 0)) ([], []) two_workers empty_db = (None, db)
     \<and> manager_LoadState memory_gorm store_manager 8 db = Inr st
     \<and> map_of (ssWorkers st) ''b'' = Some w \<and> ''0'' \<in> gsID ` set (wsGPUs w)
     \<and> (\<exists>k \<in> {''a'', ''b''}. \<exists>w. map_of (ssWorkers st) k = Some w \<and> ''0'' \<notin> gsID ` set (wsGPUs w))"
proof -
  have ok: "saveable_rows two_workers" by code_simp
  have last: "last (gpu_holders ''0'' (permute (fst ([], [])) (ssWorkers two_workers))) = ''b''" by code_simp
  have a: "map_of (ssWorkers two_workers) ''a'' = Some (snd (ssWorkers two_workers ! 0))"
    "''0'' \<in> gsID ` set (wsGPUs (snd (ssWorkers two_workers ! 0)))" by code_simp+
  have b: "map_of (ssWorkers two_workers) ''b'' = Some (snd (ssWorkers two_workers ! 1))"
    "''0'' \<in> gsID ` set (wsGPUs (snd (ssWorkers two_workers ! 1)))" by code_simp+
  have "''a'' \<noteq> ''b''" by simp
  from equal_gpu_ids_overwrite [OF memory_gorm_laws memory_empty_up store_manager_ok ok a b this, of 7 "\<lambda>_. (0, 0)" "([], [])" 8,
      unfolded last]
  show ?thesis by metis
qed

section \<open>Configurations and states that never save\<close>

lemma with_lock_body:
  assumes "mutex E \<in> {go_rwmutex, reentrant_rwmutex}" and "mu s = unlocked"
    and "body (s\<lparr>mu := write_locked\<rparr>) = Done r (t\<lparr>mu := write_locked\<rparr>)" and "mu t = unlocked"
  shows "with_lock E body s = Done r t"
proof -
  have "t\<lparr>mu := unlocked\<rparr> = t" using assms(4) by (rule mu_idem)
  then show ?thesis using assms(1)
    by (auto simp: go_mutex.with_lock_free re_mutex.with_lock_free assms(2,3)
        go_mutex.unlock_held re_mutex.unlock_held)
qed

lemma mu_commute:
  "(s\<lparr>mu := m\<rparr>)\<lparr>persistenceManager := x\<rparr> = (s\<lparr>persistenceManager := x\<rparr>)\<lparr>mu := m\<rparr>"
  "tick (s\<lparr>mu := m\<rparr>) = (tick s)\<lparr>mu := m\<rparr>"
  by (cases s; simp add: tick_def)+

text \<open>With a persistence type other than the database (file persistence is a constant of the package, but nothing
  implements it) \<^verbatim>\<open>EnablePersistence\<close> reports success, and every save after it fails and changes nothing.\<close>

theorem other_types_never_save:
  assumes E: "mutex E \<in> {go_rwmutex, reentrant_rwmutex}" and "mu s = unlocked"
    and "cfType config \<noteq> DatabasePersistence"
  shows "\<exists>t. EnablePersistence G E config db s = Done (None, db) t \<and> workers t = workers s \<and> tasks t = tasks s
     \<and> SaveState G E V (t, db) = Done (Some (''unsupported persistence type: '' @ cfType config)) (tick t, db)"
proof -
  define m where "m = Start \<lparr>mgConfig = config, mgHasDB = False, mgStopped = False, mgSaveTrigger = 0,
    mgAutoSave = False\<rparr>"
  have m: "cfType (mgConfig m) = cfType config" by (simp add: m_def Start_def)
  let ?s = "s\<lparr>persistenceManager := Some m\<rparr>"
  have enable: "with_lock E (\<lambda>s. case NewManager G config of
            Inl err \<Rightarrow> Done (Inl (''failed to create persistence manager: '' @ err)) s
          | Inr (manager, opened) \<Rightarrow>
              Done (Inr opened) (s\<lparr>persistenceManager := Some (Start manager)\<rparr>)) s = Done (Inr None) ?s"
    by (rule with_lock_body [OF E assms(2)]) (use assms(2,3) in \<open>simp_all add: NewManager_def m_def mu_commute\<close>)
  have load: "LoadState G E db ?s = Done (Some (''unsupported persistence type: '' @ cfType config)) (tick ?s)"
    unfolding LoadState_def by (rule with_lock_body [OF E])
      (use assms(2,3) in \<open>simp_all add: m manager_LoadState_def unsupported_type_def mu_commute sched_frame\<close>)
  have last: "with_lock E (Done (None, db)) (tick ?s) = Done (None, db) (tick ?s)"
    by (rule with_lock_body [OF E]) (use assms(2) in \<open>simp_all add: mu_commute sched_frame\<close>)
  have "save_section G E V db (tick ?s)
      = Done (Some (''unsupported persistence type: '' @ cfType config), db) (tick (tick ?s))"
    unfolding save_section_def by (rule with_lock_body [OF E])
      (use assms(2,3) in \<open>simp_all add: m manager_SaveState_def unsupported_type_def Let_def mu_commute sched_frame\<close>)
  then have "SaveState G E V (tick ?s, db)
      = Done (Some (''unsupported persistence type: '' @ cfType config)) (tick (tick ?s), db)"
    by (simp add: SaveState_def)
  then show ?thesis
    unfolding EnablePersistence_def by (intro exI [of _ "tick ?s"]) (simp add: enable load last sched_frame)
qed

theorem other_types_never_save_witness:
  "\<exists>t. EnablePersistence memory_gorm (store_env go_rwmutex) (DefaultConfig\<lparr>cfType := ''file''\<rparr>) empty_db NewScheduler
       = Done (None, empty_db) t
     \<and> SaveState memory_gorm (store_env go_rwmutex) store_choices (t, empty_db)
       = Done (Some (''unsupported persistence type: '' @ ''file'')) (tick t, empty_db)"
  using other_types_never_save [of "store_env go_rwmutex" NewScheduler "DefaultConfig\<lparr>cfType := ''file''\<rparr>"
      memory_gorm empty_db store_choices]
  by (auto simp: store_env_def NewScheduler_def)

text \<open>When the manager cannot load (the database returns an error), \<^verbatim>\<open>LoadState\<close> returns that error and the
  scheduler keeps the workers, tasks and queue it had.\<close>

theorem failed_load_keeps_state:
  assumes "mutex E \<in> {go_rwmutex, reentrant_rwmutex}" and "mu s = unlocked"
    and "persistenceManager s = Some m" and "manager_LoadState G m (clock E (envTick s)) db = Inl err"
  shows "LoadState G E db s = Done (Some err) (tick s)"
  unfolding LoadState_def
  by (rule with_lock_body [OF assms(1,2)]) (simp_all add: assms mu_commute sched_frame)

theorem failed_load_keeps_state_witness:
  "LoadState memory_gorm (store_env go_rwmutex) empty_db
     (store_sched\<lparr>persistenceManager := Some (store_manager\<lparr>mgHasDB := False\<rparr>)\<rparr>)
   = Done (Some ''database manager not initialized'')
       (tick (store_sched\<lparr>persistenceManager := Some (store_manager\<lparr>mgHasDB := False\<rparr>)\<rparr>))"
  by (rule failed_load_keeps_state [where m = "store_manager\<lparr>mgHasDB := False\<rparr>"])
    (simp_all add: store_env_def store_sched_def NewScheduler_def manager_LoadState_def loadFromDatabase_def
      store_manager_def DefaultConfig_def)

text \<open>Once a handler has blocked on Go's mutex, nothing can be saved or loaded any more: all four
  persistence operations wait for ever, so the state since the last save is lost with the process.\<close>

theorem wedged_scheduler_never_saves:
  assumes "mutex E = go_rwmutex" and "mu s = write_locked"
  shows "SaveState G E V (s, db) = Stuck (s, db) \<and> LoadState G E db s = Stuck s
     \<and> EnablePersistence G E config db s = Stuck s \<and> DisablePersistence G E V (s, db) = Stuck (s, db)"
  by (simp_all add: SaveState_def save_section_def LoadState_def EnablePersistence_def DisablePersistence_def
      go_mutex.with_lock_held [OF assms])

theorem wedged_scheduler_never_saves_witness:
  "DisablePersistence memory_gorm (store_env go_rwmutex) store_choices (store_sched\<lparr>mu := write_locked\<rparr>, empty_db)
     = Stuck (store_sched\<lparr>mu := write_locked\<rparr>, empty_db)"
proof -
  have "mutex (store_env go_rwmutex) = go_rwmutex" by (simp add: store_env_def)
  from wedged_scheduler_never_saves [OF this, where s = "store_sched\<lparr>mu := write_locked\<rparr>" and G = memory_gorm]
  show ?thesis by simp
qed

text \<open>With a persistence manager, \<^verbatim>\<open>DisablePersistence\<close> never returns: both ways through it end in a log line that
  panics. If the save succeeds it panics there, with the state written and the manager still open; if the save
  fails the manager is stopped and dropped first. Workers, tasks and queue are untouched in memory.\<close>

theorem disabling_panics:
  assumes E: "mutex E \<in> {go_rwmutex, reentrant_rwmutex}" and s: "mu s = unlocked" "persistenceManager s = Some m"
    and "\<not> mgStopped m"
  shows "\<exists>t db'. DisablePersistence G E V (s, db) = Panicked (t, db') \<and> mu t = unlocked
     \<and> workers t = workers s \<and> tasks t = tasks s \<and> pendingTasks t = pendingTasks s
     \<and> (case manager_SaveState G m (clock E (envTick s)) (sv_stamps V) (sv_choices V) (snapshot (sv_tasks V) s) db of
          (None, saved) \<Rightarrow> persistenceManager t = Some m \<and> db' = saved
        | (Some err, saved) \<Rightarrow> persistenceManager t = None \<and> db' = (if mgHasDB m then snd (Close G saved) else saved))"
proof -
  let ?save = "manager_SaveState G m (clock E (envTick s)) (sv_stamps V) (sv_choices V) (snapshot (sv_tasks V) s) db"
  have check: "with_lock E (\<lambda>s. Done (persistenceManager s \<noteq> None, db) s) s = Done (True, db) s"
    by (rule with_lock_body [OF E s(1)]) (simp_all add: s)
  have save: "save_section G E V db s = Done ?save (tick s)"
    unfolding save_section_def by (rule with_lock_body [OF E s(1)]) (simp_all add: s mu_commute sched_frame)
  let ?t = "(tick s)\<lparr>persistenceManager := None\<rparr>"
  have t: "mu (tick s) = unlocked" "persistenceManager (tick s) = Some m" using s by (simp_all add: sched_frame)
  have stop: "with_lock E (\<lambda>s. bind_res (stop_manager G db1 s) (\<lambda>db'. Done ((), db'))) (tick s)
      = Done ((), if mgHasDB m then snd (Close G db1) else db1) ?t" for db1
    by (rule with_lock_body [OF E t(1)])
      (simp_all add: stop_manager_def t Stop_def assms(4) mu_commute)
  obtain r saved where r: "?save = (r, saved)" by (cases ?save)
  show ?thesis
  proof (cases r)
    case None
    then have "DisablePersistence G E V (s, db) = Panicked (tick s, saved)"
      by (simp add: DisablePersistence_def check [simplified] SaveState_def save r)
    then show ?thesis using None r t by (simp add: sched_frame)
  next
    case (Some e)
    then have "DisablePersistence G E V (s, db) = Panicked (?t, if mgHasDB m then snd (Close G saved) else saved)"
      by (simp add: DisablePersistence_def check [simplified] SaveState_def save r stop)
    then show ?thesis using Some r t by (simp add: sched_frame)
  qed
qed

theorem disabling_panics_witness:
  "\<exists>t db. DisablePersistence memory_gorm (store_env go_rwmutex) store_choices (store_sched, empty_db) = Panicked (t, db)
     \<and> workers t = workers store_sched"
  using disabling_panics [OF _ store_sched_ok(1,2), of "store_env go_rwmutex" memory_gorm store_choices empty_db]
  by (auto simp: store_env_def store_manager_def)

section \<open>The save trigger\<close>

lemma autoSaveLoop_keeps_token: "mgSaveTrigger m = 1 \<Longrightarrow> mgSaveTrigger (autoSaveLoop es m) = 1"
  by (induction es m rule: autoSaveLoop.induct) (simp_all add: send_trigger_def)

text \<open>The channel of save requests holds at most one token and nothing ever takes it out: after the first request, no
  tick of the auto-save loop and no further \<^verbatim>\<open>TriggerSave\<close> changes anything, so periodic saving never
  happens.\<close>

theorem save_requests_pile_up:
  assumes "mgSaveTrigger m \<le> 1"
  shows "mgSaveTrigger (autoSaveLoop es (TriggerSave m)) = 1
     \<and> TriggerSave (autoSaveLoop es (TriggerSave m)) = autoSaveLoop es (TriggerSave m)"
proof -
  have "mgSaveTrigger (TriggerSave m) = 1" using assms by (simp add: TriggerSave_def send_trigger_def)
  from autoSaveLoop_keeps_token [OF this] show ?thesis by (simp add: TriggerSave_def send_trigger_def)
qed

theorem save_requests_pile_up_witness:
  "mgSaveTrigger (autoSaveLoop [TickerFired, TickerFired, StopClosed] (TriggerSave store_manager)) = 1"
proof -
  have "mgSaveTrigger store_manager \<le> 1" by (simp add: store_manager_def)
  from save_requests_pile_up [OF this, of "[TickerFired, TickerFired, StopClosed]"] show ?thesis by (rule conjunct1)
qed

section \<open>The save interval\<close>

lemma save_period_bits: "save_period config = signed_take_bit 63 (cfSaveInterval config * 1000000000)"
proof -
  have "sint (word_of_int x :: 64 word) = signed_take_bit 63 x" for x by (simp add: signed_of_int)
  then show ?thesis by (simp only: save_period_def wi_hom_mult)
qed

lemma save_period_exact:
  assumes "\<bar>cfSaveInterval config\<bar> \<le> 9223372036" shows "save_period config = cfSaveInterval config * 1000000000"
proof -
  have "signed_take_bit 63 (cfSaveInterval config * 1000000000) = cfSaveInterval config * 1000000000"
    using assms by (intro signed_take_bit_int_eq_self) auto
  then show ?thesis by (simp add: save_period_bits)
qed

lemma save_period_mod:
  assumes "0 \<le> (cfSaveInterval config * 1000000000) mod 2 ^ 64 - k * 2 ^ 64 + 2 ^ 63"
    and "(cfSaveInterval config * 1000000000) mod 2 ^ 64 - k * 2 ^ 64 < 2 ^ 63"
  shows "save_period config = (cfSaveInterval config * 1000000000) mod 2 ^ 64 - k * 2 ^ 64"
proof -
  let ?x = "cfSaveInterval config * 1000000000"
  have "(?x mod 2 ^ 64 + - k * 2 ^ 64) mod 2 ^ 64 = ?x mod 2 ^ 64" by (simp only: mod_mult_self1 mod_mod_trivial)
  then have "signed_take_bit 63 ?x = signed_take_bit 63 (?x mod 2 ^ 64 - k * 2 ^ 64)"
    by (simp add: signed_take_bit_eq_iff_take_bit_eq take_bit_eq_mod)
  also have "\<dots> = ?x mod 2 ^ 64 - k * 2 ^ 64" using assms by (intro signed_take_bit_int_eq_self) auto
  finally show ?thesis by (simp add: save_period_bits)
qed

text \<open>The product with a second modulo $2^{64}$, read as a signed number, is positive iff it lies strictly between 0 and $2^{63}$.\<close>

lemma save_period_positive:
  "0 < save_period config \<longleftrightarrow> 0 < (cfSaveInterval config * 1000000000) mod 2 ^ 64
     \<and> (cfSaveInterval config * 1000000000) mod 2 ^ 64 < 2 ^ 63"
proof (cases "(cfSaveInterval config * 1000000000) mod 2 ^ 64 < 2 ^ 63")
  case True
  then show ?thesis using save_period_mod [of config 0] by simp
next
  case False
  have "(cfSaveInterval config * 1000000000) mod 2 ^ 64 < 2 ^ 64" by simp
  then show ?thesis using save_period_mod [of config 1] False by simp
qed

text \<open>C19: Which save intervals the auto-save loop survives. The interval is multiplied with a second in 64 bits: the loop runs exactly
  if this product modulo $2^{64}$ is positive and below $2^{63}$, and otherwise its ticker panics. So every interval from 1 to
  9223372036 seconds runs with that period, 0 and every negative interval down to -9223372036 panics, the intervals from 9223372037 to
  18446744073 seconds wrap around to a negative period and panic, and 18446744074 seconds wraps around to a period of 0.29
  seconds. The flag \<^verbatim>\<open>-save-interval\<close> is not checked anywhere.\<close>

theorem save_interval_limits:
  shows "auto_save es m = (if 0 < (cfSaveInterval (mgConfig m) * 1000000000) mod 2 ^ 64
         \<and> (cfSaveInterval (mgConfig m) * 1000000000) mod 2 ^ 64 < 2 ^ 63
       then Done () (autoSaveLoop es m) else Panicked m)
     \<and> (cfSaveInterval (mgConfig m) \<in> {1..9223372036} \<longrightarrow> auto_save es m = Done () (autoSaveLoop es m)
          \<and> save_period (mgConfig m) = cfSaveInterval (mgConfig m) * 1000000000)
     \<and> (cfSaveInterval (mgConfig m) \<in> {- 9223372036..0} \<union> {9223372037..18446744073} \<longrightarrow> auto_save es m = Panicked m)
     \<and> (cfSaveInterval (mgConfig m) = 18446744074 \<longrightarrow> auto_save es m = Done () (autoSaveLoop es m)
          \<and> save_period (mgConfig m) = 290448384)"
proof -
  let ?n = "cfSaveInterval (mgConfig m)"
  note pos = save_period_positive [of "mgConfig m"]
  have run: "auto_save es m = (if 0 < save_period (mgConfig m) then Done () (autoSaveLoop es m) else Panicked m)"
    by (simp add: auto_save_def)
  have exact: "save_period (mgConfig m) = ?n * 1000000000" if "?n \<in> {- 9223372036..9223372036}"
    by (rule save_period_exact) (use that in auto)
  have "?n * 1000000000 mod 2 ^ 64 = ?n * 1000000000" if "?n \<in> {9223372037..18446744073}"
    by (rule mod_pos_pos_trivial) (use that in auto)
  then have "\<not> 0 < save_period (mgConfig m)" if "?n \<in> {9223372037..18446744073}"
    using that unfolding pos by simp
  moreover have "save_period (mgConfig m) = 290448384" if "?n = 18446744074"
    using save_period_mod [of "mgConfig m" 0] that by simp
  ultimately show ?thesis using exact unfolding run pos [symmetric] by auto
qed

theorem save_interval_limits_witness:
  "auto_save [TickerFired] (store_manager\<lparr>mgConfig := DefaultConfig\<lparr>cfSaveInterval := 9223372037\<rparr>\<rparr>)
       = Panicked (store_manager\<lparr>mgConfig := DefaultConfig\<lparr>cfSaveInterval := 9223372037\<rparr>\<rparr>)
     \<and> auto_save [] (store_manager\<lparr>mgConfig := DefaultConfig\<lparr>cfSaveInterval := 18446744074\<rparr>\<rparr>)
       = Done () (store_manager\<lparr>mgConfig := DefaultConfig\<lparr>cfSaveInterval := 18446744074\<rparr>\<rparr>)"
  using save_interval_limits [of "[TickerFired]" "store_manager\<lparr>mgConfig := DefaultConfig\<lparr>cfSaveInterval := 9223372037\<rparr>\<rparr>"]
    save_interval_limits [of "[]" "store_manager\<lparr>mgConfig := DefaultConfig\<lparr>cfSaveInterval := 18446744074\<rparr>\<rparr>"]
  by simp

end
