(* ===== verification/WorkerNode.thy ===== *)
theory WorkerNode
  imports Proto Mutex
begin

text \<open>
  The structs of \<^verbatim>\<open>pkg/worker/worker.go\<close> and the allocation of GPUs to a task. The structs carry another
  name (\<open>NodeWorker\<close>, \<open>NodeTask\<close>) than in the code, because the scheduler has structs of the same
  names. A task is shared between the worker's map and the goroutine that runs it, so it lives in a heap; the GPUs are
  reached through the worker only, and a pointer to one of them is its index.
\<close>

record NodeTask =
  ntID :: string
  ntName :: string
  ntConfiguration :: bytes
  ntStatus :: TaskStatus
  ntProgress :: gofloat
  ntGPUIDs :: "string list"
  ntMetrics :: "pbMetric list"
  ntDone :: bool

text \<open>\<open>ntDone\<close>: the channel \<^verbatim>\<open>DoneCh\<close> is closed.\<close>

section \<open>\<^verbatim>\<open>allocateGPUs\<close>\<close>

definition available_gpus :: "pbGPU list \<Rightarrow> nat list" where
  "available_gpus gpus = filter (\<lambda>i. pgAvailable (gpus ! i)) [0..<length gpus]"

text \<open>\<^verbatim>\<open>for i := 0; i < int(task.RequiredGpus) && i < len(availableGPUs); i++\<close>\<close>

definition first_gpus :: "u32 \<Rightarrow> nat list \<Rightarrow> nat list" where
  "first_gpus required avail = take (unat required) avail"

text \<open>
  One of the two loops of the strategy \<open>spread\<close>: every other GPU, while \<^verbatim>\<open>uint32(len(assignedGPUIDs))\<close> is less
  than what is required.
\<close>

fun every_other :: "nat \<Rightarrow> u32 \<Rightarrow> nat \<Rightarrow> nat list \<Rightarrow> nat list \<Rightarrow> nat list" where
  "every_other parity required i [] assigned = assigned"
| "every_other parity required i (g # gs) assigned =
     every_other parity required (Suc i) gs
       (if i mod 2 = parity \<and> word_of_nat (length assigned) < required then assigned @ [g] else assigned)"

definition more_memory :: "pbGPU list \<Rightarrow> nat \<Rightarrow> nat \<Rightarrow> bool" where
  "more_memory gpus i j \<longleftrightarrow> pgMemoryMb (gpus ! i) > pgMemoryMb (gpus ! j)"

definition more_performance :: "pbGPU list \<Rightarrow> nat \<Rightarrow> nat \<Rightarrow> bool" where
  "more_performance gpus i j \<longleftrightarrow>
     (if pgCudaCores (gpus ! i) > 0 \<and> pgCudaCores (gpus ! j) > 0
      then pgCudaCores (gpus ! i) > pgCudaCores (gpus ! j)
      else pgMemoryBandwidth (gpus ! i) > pgMemoryBandwidth (gpus ! j))"

text \<open>
  \<^verbatim>\<open>sort.Slice\<close> with one of these comparisons. Go promises a sorted slice for a strict weak order only; for
  another comparison (\<open>performance_is_no_order\<close> below) it may leave the GPUs in any order.
\<close>

definition sort_gpus :: "(nat \<Rightarrow> nat \<Rightarrow> bool) \<Rightarrow> nat list \<Rightarrow> nat list \<Rightarrow> nat list" where
  "sort_gpus lt cs gs = (if weak_order_on (set gs) lt then sort_slice lt cs gs else permute cs gs)"

definition chosen_gpus :: "string \<Rightarrow> nat list \<Rightarrow> u32 \<Rightarrow> pbGPU list \<Rightarrow> nat list" where
  "chosen_gpus strategy cs required gpus =
     (let avail = available_gpus gpus
      in if word_of_nat (length avail) < required then []
         else if strategy = ''packed'' then first_gpus required avail
         else if strategy = ''spread''
         then every_other 1 required 0 avail (every_other 0 required 0 avail [])
         else if strategy = ''memory'' then first_gpus required (sort_gpus (more_memory gpus) cs avail)
         else if strategy = ''performance''
         then first_gpus required (sort_gpus (more_performance gpus) cs avail)
         else first_gpus required avail)"

definition mark_taken :: "nat list \<Rightarrow> pbGPU list \<Rightarrow> pbGPU list" where
  "mark_taken is gpus = foldl (\<lambda>gs i. gs[i := (gs ! i)\<lparr>pgAvailable := False\<rparr>]) gpus is"

definition allocateGPUs ::
  "string \<Rightarrow> nat list \<Rightarrow> pbTask \<Rightarrow> pbGPU list \<Rightarrow> string list \<times> pbGPU list" where
  "allocateGPUs strategy cs task gpus =
     (let is = chosen_gpus strategy cs (ptRequiredGpus task) gpus
      in (map (\<lambda>i. pgId (gpus ! i)) is, mark_taken is gpus))"

section \<open>What the strategies choose\<close>

lemma distinct_available [simp]: "distinct (available_gpus gpus)"
  by (simp add: available_gpus_def)

lemma available_iff: "i \<in> set (available_gpus gpus) \<longleftrightarrow> i < length gpus \<and> pgAvailable (gpus ! i)"
  by (auto simp: available_gpus_def)

lemma length_available: "length (available_gpus gpus) \<le> length gpus"
  using length_filter_le [of _ "[0..<length gpus]"] by (simp add: available_gpus_def)

definition at_parity :: "nat \<Rightarrow> nat \<Rightarrow> 'a list \<Rightarrow> 'a list" where
  "at_parity parity i gs = map snd (filter (\<lambda>(j, g). j mod 2 = parity) (enumerate i gs))"

lemma at_parity_simps [simp]:
  "at_parity b i [] = []"
  "at_parity b i (g # gs) = (if i mod 2 = b then g # at_parity b (Suc i) gs else at_parity b (Suc i) gs)"
  by (simp_all add: at_parity_def)

lemma mset_at_parity: "mset (at_parity 0 i gs) + mset (at_parity 1 i gs) = mset gs"
  by (induction gs arbitrary: i) (auto simp: mod_2_eq_odd)

lemma every_other_eq:
  assumes "length acc \<le> unat required"
  shows "every_other b required i gs acc = acc @ take (unat required - length acc) (at_parity b i gs)"
  using assms
proof (induction gs arbitrary: i acc)
  case (Cons g gs)
  have less: "word_of_nat (length acc) < required \<longleftrightarrow> length acc < unat required"
  proof -
    have "unat required < 2 ^ LENGTH(32)" by (rule unsigned_less)
    then have "length acc < 2 ^ 32" using Cons.prems by simp
    then have "unat (word_of_nat (length acc) :: u32) = length acc"
      by (simp add: unsigned_of_nat take_bit_nat_eq_self)
    then show ?thesis by (simp add: word_less_nat_alt)
  qed
  show ?case
  proof (cases "i mod 2 = b \<and> length acc < unat required")
    case True
    then have "unat required - length acc = Suc (unat required - length (acc @ [g]))"
      by (simp add: Suc_diff_Suc)
    with True Cons.IH [of "acc @ [g]" "Suc i"] show ?thesis by (simp add: less)
  next
    case False
    with Cons.IH [OF Cons.prems, of "Suc i"] Cons.prems show ?thesis by (auto simp: less)
  qed
qed simp

lemma spread_eq:
  assumes "unat required \<le> length gs"
  defines "r \<equiv> every_other 1 required 0 gs (every_other 0 required 0 gs [])"
  shows "length r = unat required" and "mset r \<subseteq># mset gs"
proof -
  let ?e = "at_parity 0 0 gs" and ?o = "at_parity 1 0 gs"
  have n: "length ?e + length ?o = length gs"
    using arg_cong [OF mset_at_parity [of 0 gs], of size] by simp
  have r: "r = take (unat required) ?e @ take (unat required - length (take (unat required) ?e)) ?o"
    by (simp add: r_def every_other_eq)
  show "length r = unat required" using assms(1) n by (simp add: r)
  have "mset r \<subseteq># mset ?e + mset ?o" unfolding r mset_append
    by (intro subset_mset.add_mono) (metis append_take_drop_id mset_append mset_subset_eq_add_left)+
  then show "mset r \<subseteq># mset gs" by (simp only: mset_at_parity)
qed

lemma distinct_submset:
  assumes "mset xs \<subseteq># mset ys" and "distinct ys"
  shows "distinct xs" and "set xs \<subseteq> set ys"
proof -
  show "set xs \<subseteq> set ys" using set_mset_mono [OF assms(1)] by simp
  have "count (mset xs) x \<le> 1" for x
    using mset_subset_eq_count [OF assms(1), of x] assms(2)
    by (metis count_mset_0_iff distinct_count_atmost_1 le_0_eq nat_le_linear order_refl)
  then show "distinct xs" by (simp add: distinct_count_atmost_1 le_eq_less_or_eq count_mset_0_iff)
qed

lemma mset_sort_gpus [simp]: "mset (sort_gpus lt cs gs) = mset gs"
  by (simp add: sort_gpus_def slice.mset_srt)

lemma set_sort_gpus [simp]: "set (sort_gpus lt cs gs) = set gs"
  by (metis mset_sort_gpus set_mset_mset)

lemma length_sort_gpus [simp]: "length (sort_gpus lt cs gs) = length gs"
  by (metis mset_sort_gpus size_mset)

lemma sorted_sort_gpus:
  "weak_order_on (set gs) lt \<Longrightarrow> sorted_wrt (\<lambda>x y. \<not> lt y x) (sort_gpus lt cs gs)"
  by (simp add: sort_gpus_def slice.sorted_srt)

lemma mset_take_subset: "mset (take n xs) \<subseteq># mset xs"
  by (metis append_take_drop_id mset_append mset_subset_eq_add_left)

text \<open>Enough GPUs: every strategy chooses as many as are required, all different and all available.\<close>

lemma enough_iff:
  assumes "length gpus < 2 ^ 32"
  shows "word_of_nat (length (available_gpus gpus)) < (required :: u32)
     \<longleftrightarrow> length (available_gpus gpus) < unat required"
proof -
  have "length (available_gpus gpus) < 2 ^ 32" using length_available [of gpus] assms by simp
  then have "unat (word_of_nat (length (available_gpus gpus)) :: u32) = length (available_gpus gpus)"
    by (simp add: unsigned_of_nat take_bit_nat_eq_self)
  then show ?thesis by (simp add: word_less_nat_alt)
qed

lemma chosen_gpus_enough:
  assumes "length gpus < 2 ^ 32" and "unat required \<le> length (available_gpus gpus)"
  shows "length (chosen_gpus strategy cs required gpus) = unat required"
    and "mset (chosen_gpus strategy cs required gpus) \<subseteq># mset (available_gpus gpus)"
proof -
  let ?av = "available_gpus gpus"
  have "\<not> word_of_nat (length ?av) < required" using assms by (simp add: enough_iff)
  moreover have "length (first_gpus required (sort_gpus lt cs ?av)) = unat required"
    "mset (first_gpus required (sort_gpus lt cs ?av)) \<subseteq># mset ?av" for lt
    using assms(2) mset_take_subset [of "unat required" "sort_gpus lt cs ?av"]
    by (simp_all add: first_gpus_def)
  ultimately show "length (chosen_gpus strategy cs required gpus) = unat required"
    and "mset (chosen_gpus strategy cs required gpus) \<subseteq># mset ?av"
    using assms(2) spread_eq [OF assms(2)] mset_take_subset [of "unat required" ?av]
    by (simp_all add: chosen_gpus_def Let_def first_gpus_def)
qed

lemma length_mark_taken [simp]: "length (mark_taken is gpus) = length gpus"
  unfolding mark_taken_def by (induction "is" arbitrary: gpus) simp_all

lemma nth_mark_taken:
  "i < length gpus \<Longrightarrow> mark_taken is gpus ! i
     = (if i \<in> set is then (gpus ! i)\<lparr>pgAvailable := False\<rparr> else gpus ! i)"
  unfolding mark_taken_def
proof (induction "is" arbitrary: gpus)
  case (Cons k "is")
  then show ?case by (cases "k = i") (simp_all add: Cons.IH)
qed simp

text \<open>A strategy that sorts by a weak order takes GPUs that come first in it.\<close>

lemma sorted_choice:
  assumes "length gpus < 2 ^ 32" and "unat required \<le> length (available_gpus gpus)"
    and "chosen_gpus strategy cs required gpus = first_gpus required (sort_gpus lt cs (available_gpus gpus))"
    and "weak_order_on (set (available_gpus gpus)) lt"
    and "i < length gpus" and "j < length gpus" and "pgAvailable (gpus ! i)"
    and "\<not> pgAvailable (mark_taken (chosen_gpus strategy cs required gpus) gpus ! i)"
    and "pgAvailable (mark_taken (chosen_gpus strategy cs required gpus) gpus ! j)"
  shows "\<not> lt j i"
proof -
  let ?n = "unat required" and ?s = "sort_gpus lt cs (available_gpus gpus)"
  have i: "i \<in> set (take ?n ?s)" and j: "j \<notin> set (take ?n ?s)" "pgAvailable (gpus ! j)"
    using assms(5-9) by (auto simp: assms(3) first_gpus_def nth_mark_taken split: if_splits)
  have "j \<in> set ?s" using j(2) assms(6) by (simp add: available_iff)
  then have "j \<in> set (drop ?n ?s)" using j(1) by (metis Un_iff append_take_drop_id set_append)
  moreover have "sorted_wrt (\<lambda>x y. \<not> lt y x) (take ?n ?s @ drop ?n ?s)"
    unfolding append_take_drop_id by (rule sorted_sort_gpus) (fact assms(4))
  ultimately show ?thesis using i unfolding sorted_wrt_append by blast
qed

lemma chosen_sorted:
  assumes "length gpus < 2 ^ 32" and "unat required \<le> length (available_gpus gpus)"
  shows "chosen_gpus ''memory'' cs required gpus = first_gpus required (sort_gpus (more_memory gpus) cs (available_gpus gpus))"
    and "chosen_gpus ''performance'' cs required gpus
      = first_gpus required (sort_gpus (more_performance gpus) cs (available_gpus gpus))"
proof -
  have "\<not> word_of_nat (length (available_gpus gpus)) < required" using assms by (simp add: enough_iff)
  then show "chosen_gpus ''memory'' cs required gpus = first_gpus required (sort_gpus (more_memory gpus) cs (available_gpus gpus))"
    and "chosen_gpus ''performance'' cs required gpus
      = first_gpus required (sort_gpus (more_performance gpus) cs (available_gpus gpus))"
    by (simp_all add: chosen_gpus_def Let_def)
qed

text \<open>
  The comparison of the strategy \<open>performance\<close> is no order: among three GPUs, one of which does not report its CUDA
  cores, each can be better than the next.
\<close>

definition perf_gpu :: "string \<Rightarrow> u32 \<Rightarrow> u64 \<Rightarrow> pbGPU" where
  "perf_gpu i cores bandwidth = \<lparr>pgId = i, pgModel = ''m'', pgMemoryMb = 8, pgAvailable = True, pgCudaCores = cores,
     pgMemoryBandwidth = bandwidth\<rparr>"

definition perf_gpus :: "pbGPU list" where
  "perf_gpus = [perf_gpu ''0'' 10 1, perf_gpu ''1'' 5 5, perf_gpu ''2'' 0 3]"

lemma performance_is_no_order:
  "more_performance perf_gpus 0 1" "more_performance perf_gpus 1 2" "more_performance perf_gpus 2 0"
  "\<not> weak_order_on {0, 1, 2} (more_performance perf_gpus)"
  by (simp_all add: perf_gpus_def perf_gpu_def more_performance_def weak_order_on_def)

section \<open>Properties\<close>

text \<open>C32: When enough GPUs are available, every allocation strategy (known or not, and whatever order the sort leaves
  equal GPUs in) takes exactly the required number of different available GPUs, marks these as taken and leaves every
  other GPU alone.\<close>

theorem allocation_exact:
  assumes "length gpus < 2 ^ 32" and "unat (ptRequiredGpus task) \<le> length (available_gpus gpus)"
    and "allocateGPUs strategy cs task gpus = (ids, gpus')"
  shows "\<exists>is. distinct is \<and> set is \<subseteq> set (available_gpus gpus) \<and> length is = unat (ptRequiredGpus task)
     \<and> ids = map (\<lambda>i. pgId (gpus ! i)) is \<and> length gpus' = length gpus
     \<and> (\<forall>i < length gpus. gpus' ! i = (if i \<in> set is then (gpus ! i)\<lparr>pgAvailable := False\<rparr> else gpus ! i))"
proof -
  let ?is = "chosen_gpus strategy cs (ptRequiredGpus task) gpus"
  note chosen = chosen_gpus_enough [OF assms(1,2), of strategy cs]
  have "ids = map (\<lambda>i. pgId (gpus ! i)) ?is" "gpus' = mark_taken ?is gpus"
    using assms(3) by (simp_all add: allocateGPUs_def Let_def)
  with chosen(1) distinct_submset [OF chosen(2)] show ?thesis
    by (intro exI [of _ ?is]) (simp add: nth_mark_taken)
qed

text \<open>When too few GPUs are available nothing is taken and the list of GPUs is empty; \<^verbatim>\<open>executeTask\<close> then
  runs the task without any GPU.\<close>

theorem allocation_short:
  assumes "length gpus < 2 ^ 32" and "length (available_gpus gpus) < unat (ptRequiredGpus task)"
  shows "allocateGPUs strategy cs task gpus = ([], gpus)"
  using assms by (simp add: allocateGPUs_def chosen_gpus_def enough_iff mark_taken_def)

text \<open>The strategy \<open>memory\<close> takes the largest GPUs: none that stays available has more memory than one that is
  taken.\<close>

theorem memory_takes_largest:
  assumes "length gpus < 2 ^ 32" and "unat (ptRequiredGpus task) \<le> length (available_gpus gpus)"
    and "allocateGPUs ''memory'' cs task gpus = (ids, gpus')"
    and "i < length gpus" and "j < length gpus"
    and "pgAvailable (gpus ! i)" and "\<not> pgAvailable (gpus' ! i)" and "pgAvailable (gpus' ! j)"
  shows "pgMemoryMb (gpus ! j) \<le> pgMemoryMb (gpus ! i)"
proof -
  have "gpus' = mark_taken (chosen_gpus ''memory'' cs (ptRequiredGpus task) gpus) gpus"
    using assms(3) by (simp add: allocateGPUs_def Let_def)
  moreover have "weak_order_on (set (available_gpus gpus)) (more_memory gpus)"
    by (auto simp: weak_order_on_def more_memory_def)
  ultimately have "\<not> more_memory gpus j i"
    using sorted_choice [OF assms(1,2) chosen_sorted(1) [OF assms(1,2)] _ assms(4-6)] assms(7,8) by blast
  then show ?thesis by (simp add: more_memory_def not_less)
qed

text \<open>The strategy \<open>performance\<close> takes the GPUs with the most CUDA cores when every available GPU reports how
  many it has, and otherwise may take any: its comparison is then no order.\<close>

theorem performance_takes_most_cores:
  assumes "length gpus < 2 ^ 32" and "unat (ptRequiredGpus task) \<le> length (available_gpus gpus)"
    and "allocateGPUs ''performance'' cs task gpus = (ids, gpus')"
    and "i < length gpus" and "j < length gpus"
    and "pgAvailable (gpus ! i)" and "\<not> pgAvailable (gpus' ! i)" and "pgAvailable (gpus' ! j)"
    and "\<forall>k \<in> set (available_gpus gpus). pgCudaCores (gpus ! k) > 0"
  shows "pgCudaCores (gpus ! j) \<le> pgCudaCores (gpus ! i)"
proof -
  have marked: "gpus' = mark_taken (chosen_gpus ''performance'' cs (ptRequiredGpus task) gpus) gpus"
    using assms(3) by (simp add: allocateGPUs_def Let_def)
  have "weak_order_on (set (available_gpus gpus)) (more_performance gpus)"
    using assms(9) by (auto simp: weak_order_on_def more_performance_def)
  then have "\<not> more_performance gpus j i"
    using sorted_choice [OF assms(1,2) chosen_sorted(2) [OF assms(1,2)] _ assms(4-6)] assms(7,8) marked by blast
  moreover have "pgAvailable (gpus ! j)"
    using assms(5,8) marked by (auto simp: nth_mark_taken split: if_splits)
  ultimately show ?thesis using assms(4-6,9) by (auto simp: more_performance_def available_iff)
qed

section \<open>Examples\<close>

definition node_gpu :: "string \<Rightarrow> u64 \<Rightarrow> bool \<Rightarrow> pbGPU" where
  "node_gpu i mem free = \<lparr>pgId = i, pgModel = ''m'', pgMemoryMb = mem, pgAvailable = free, pgCudaCores = 0,
     pgMemoryBandwidth = 0\<rparr>"

definition node_request :: pbTask where
  "node_request = \<lparr>ptId = ''t1'', ptName = ''n'', ptRequiredGpus = 2, ptMinGpuMemory = 0,
     ptConfiguration = [], ptStatus = TaskStatus_PENDING\<rparr>"

definition node_gpus :: "pbGPU list" where
  "node_gpus = [node_gpu ''0'' 8 True, node_gpu ''1'' 16 True, node_gpu ''2'' 24 False, node_gpu ''3'' 32 True]"

lemma node_alloc:
  "allocateGPUs ''memory'' [] node_request node_gpus
     = ([''3'', ''1''], [node_gpu ''0'' 8 True, node_gpu ''1'' 16 False, node_gpu ''2'' 24 False, node_gpu ''3'' 32 False])"
  by code_simp

lemma node_enough: "length node_gpus < 2 ^ 32" "unat (ptRequiredGpus node_request) \<le> length (available_gpus node_gpus)"
  by (simp add: node_gpus_def, code_simp)

theorem allocation_exact_witness:
  "\<exists>is. distinct is \<and> length is = 2 \<and> [''3'', ''1''] = map (\<lambda>i. pgId (node_gpus ! i)) is"
proof -
  have "unat (ptRequiredGpus node_request) = 2" by code_simp
  with allocation_exact [OF node_enough node_alloc] show ?thesis by auto
qed

theorem allocation_short_witness:
  "allocateGPUs ''spread'' [] node_request [node_gpu ''0'' 8 True] = ([], [node_gpu ''0'' 8 True])"
  by (rule allocation_short) (simp, code_simp)

definition core_gpus :: "pbGPU list" where
  "core_gpus = [perf_gpu ''0'' 10 1, perf_gpu ''1'' 20 5, perf_gpu ''2'' 30 3]"

lemma core_alloc:
  "allocateGPUs ''performance'' [] node_request core_gpus
     = ([''2'', ''1''], [perf_gpu ''0'' 10 1, (perf_gpu ''1'' 20 5)\<lparr>pgAvailable := False\<rparr>,
          (perf_gpu ''2'' 30 3)\<lparr>pgAvailable := False\<rparr>])"
  by code_simp

theorem performance_takes_most_cores_witness:
  "pgCudaCores (core_gpus ! 0) \<le> pgCudaCores (core_gpus ! 2)"
proof (rule performance_takes_most_cores [OF _ _ core_alloc])
  show "unat (ptRequiredGpus node_request) \<le> length (available_gpus core_gpus)" by code_simp
  show "\<forall>k \<in> set (available_gpus core_gpus). pgCudaCores (core_gpus ! k) > 0" by code_simp
qed (simp_all add: core_gpus_def perf_gpu_def)

theorem memory_takes_largest_witness:
  "pgMemoryMb (node_gpus ! 0) \<le> pgMemoryMb (node_gpus ! 1)"
  by (rule memory_takes_largest [OF node_enough node_alloc]) (simp_all add: node_gpus_def node_gpu_def)

end
