(* ===== verification/WorkerRun.thy ===== *)
theory WorkerRun
  imports WorkerNode Logging
begin

text \<open>
  The worker of \<^verbatim>\<open>pkg/worker/worker.go\<close> and its hooks in \<^verbatim>\<open>pkg/worker/metrics.go\<close>: registration,
  polling, running a task, and bringing the worker in line with the scheduler's view. What the scheduler answers is
  an argument of the operations; what is sent to it, and the calls to the metrics object, are recorded
  in the state. Of the log lines only those with a nil map are modelled: they panic.
\<close>

section \<open>State\<close>

text \<open>The calls to \<^verbatim>\<open>metrics.WorkerMetrics\<close> and to the gauge \<^verbatim>\<open>taskStartTime\<close>, in the order they are made.\<close>

datatype node_metric =
    SetWorkerStatus WorkerStatus
  | SetGPUUtilization string gofloat
  | SetGPUMemoryUsage string gofloat
  | SetTaskProgress string string gofloat
  | UpdateMetricsFromTaskStatus TaskStatusUpdate
  | SetTaskStartTime string string string gofloat
  | DeleteTaskStartTime string string string

text \<open>
  The goroutines that take a task out of the worker when the scheduler does not know it any more or has
  ended it: its key in the map and its address.
\<close>

datatype cleanup = Cancelled string nat | Ended string nat

text \<open>
  \<open>nwRunning\<close>: the goroutines that run a task, each with its task and the value of its loop
  variable; \<open>nwCleanups\<close>: the cleanup goroutines that have been started and not run yet.
\<close>

record NodeWorker =
  nwMu :: rwmutex
  nwID :: string
  nwAddress :: string
  nwGPUs :: "pbGPU list"
  nwStatus :: WorkerStatus
  nwActiveTasks :: "nat gomap"
  nwPaused :: bool
  nwMetricFrequency :: int
  nwTaskPriority :: "int gomap"
  nwGPUAllocation :: string
  nwHasMetrics :: bool
  nwHeap :: "nat \<Rightarrow> NodeTask"
  nwHeapNext :: nat
  nwReports :: "TaskStatusUpdate list"
  nwMetricCalls :: "node_metric list"
  nwRunning :: "(nat \<times> gofloat) list"
  nwCleanups :: "cleanup list"
  nwTick :: nat

text \<open>
  \<open>node_orders n k\<close>: the order of the \<open>k\<close>-th map iteration or sort at tick \<open>n\<close>.
\<close>

record node_env =
  node_mutex :: mutex_ops
  node_clock :: "nat \<Rightarrow> int"
  node_orders :: "nat \<Rightarrow> nat \<Rightarrow> nat list"

definition blank_task :: NodeTask where
  "blank_task = \<lparr>ntID = '''', ntName = '''', ntConfiguration = [], ntStatus = TaskStatus_PENDING,
     ntProgress = Fin 0, ntGPUIDs = [], ntMetrics = [], ntDone = False\<rparr>"

text \<open>
  \<^verbatim>\<open>NewWorker\<close>: \<open>dial\<close> and \<open>logger\<close> are the errors of connecting and of opening the log, if any.
\<close>

definition NewWorker :: "string option \<Rightarrow> string option \<Rightarrow> string \<Rightarrow> pbGPU list \<Rightarrow> string + NodeWorker" where
  "NewWorker dial logger schedulerAddr gpus =
     (case dial of Some err \<Rightarrow> Inl (''failed to connect to scheduler: '' @ err)
      | None \<Rightarrow> (case logger of Some err \<Rightarrow> Inl (''failed to create logger: '' @ err)
        | None \<Rightarrow> Inr \<lparr>nwMu = unlocked, nwID = '''', nwAddress = schedulerAddr, nwGPUs = gpus,
            nwStatus = WorkerStatus_IDLE, nwActiveTasks = [], nwPaused = False,
            nwMetricFrequency = 2000000000, nwTaskPriority = [], nwGPUAllocation = ''packed'',
            nwHasMetrics = False, nwHeap = (\<lambda>_. blank_task), nwHeapNext = 0, nwReports = [],
            nwMetricCalls = [], nwRunning = [], nwCleanups = [], nwTick = 0\<rparr>))"

definition register_request :: "NodeWorker \<Rightarrow> RegisterWorkerRequest" where
  "register_request w = \<lparr>rwWorkerId = nwID w, rwGpus = nwGPUs w, rwAddress = nwAddress w\<rparr>"

definition Register ::
  "(RegisterWorkerRequest \<Rightarrow> string + RegisterWorkerResponse) \<Rightarrow> NodeWorker \<Rightarrow> string option \<times> NodeWorker" where
  "Register client w =
     (case client (register_request w) of
        Inl err \<Rightarrow> (Some (''failed to register worker: '' @ err), w)
      | Inr resp \<Rightarrow>
          if \<not> rrSuccess resp then (Some (''registration failed: '' @ rrMessage resp), w)
          else (None, w\<lparr>nwID := rrAssignedId resp\<rparr>))"

section \<open>Small steps\<close>

definition node_tick :: "NodeWorker \<Rightarrow> NodeWorker" where
  "node_tick w = w\<lparr>nwTick := Suc (nwTick w)\<rparr>"

definition set_task :: "nat \<Rightarrow> (NodeTask \<Rightarrow> NodeTask) \<Rightarrow> NodeWorker \<Rightarrow> NodeWorker" where
  "set_task a f w = w\<lparr>nwHeap := (nwHeap w)(a := f (nwHeap w a))\<rparr>"

definition metric :: "node_metric \<Rightarrow> NodeWorker \<Rightarrow> NodeWorker" where
  "metric c w = w\<lparr>nwMetricCalls := nwMetricCalls w @ [c]\<rparr>"

text \<open>
  \<^verbatim>\<open>for _, gpu := range w.GPUs { for _, id := range task.GPUIDs { if gpu.Id == id { gpu.Available = true } } }\<close>
\<close>

definition free_gpus :: "string list \<Rightarrow> pbGPU list \<Rightarrow> pbGPU list" where
  "free_gpus ids gpus =
     map (\<lambda>gpu. foldl (\<lambda>g i. if pgId g = i then g\<lparr>pgAvailable := True\<rparr> else g) gpu ids) gpus"

text \<open>A critical section of \<^verbatim>\<open>w.mu\<close>, write-locked or read-locked.\<close>

definition node_locked ::
  "(rwmutex \<Rightarrow> rwmutex option) \<Rightarrow> (rwmutex \<Rightarrow> rwmutex option) \<Rightarrow>
   (NodeWorker \<Rightarrow> ('r, NodeWorker) res) \<Rightarrow> NodeWorker \<Rightarrow> ('r, NodeWorker) res" where
  "node_locked acquire release body w =
     (case acquire (nwMu w) of
        None \<Rightarrow> Stuck w
      | Some m \<Rightarrow>
          bind_res (body (w\<lparr>nwMu := m\<rparr>))
            (\<lambda>r u. case release (nwMu u) of
                      None \<Rightarrow> Panicked u
                    | Some m' \<Rightarrow> Done r (u\<lparr>nwMu := m'\<rparr>)))"

definition node_lock :: "node_env \<Rightarrow> (NodeWorker \<Rightarrow> ('r, NodeWorker) res) \<Rightarrow> NodeWorker \<Rightarrow> ('r, NodeWorker) res" where
  "node_lock E = node_locked (m_lock (node_mutex E)) (m_unlock (node_mutex E))"

definition node_rlock :: "node_env \<Rightarrow> (NodeWorker \<Rightarrow> ('r, NodeWorker) res) \<Rightarrow> NodeWorker \<Rightarrow> ('r, NodeWorker) res" where
  "node_rlock E = node_locked (m_rlock (node_mutex E)) (m_runlock (node_mutex E))"

section \<open>\<^verbatim>\<open>pkg/worker/metrics.go\<close>\<close>

definition node_SetMetrics :: "node_env \<Rightarrow> NodeWorker \<Rightarrow> (unit, NodeWorker) res" where
  "node_SetMetrics E = node_lock E (act (\<lambda>w. w\<lparr>nwHasMetrics := True\<rparr>))"

text \<open>
  The value of a metric for one GPU: the last one found in the active tasks that use the GPU, in
  the order \<open>ts\<close> they are visited; 0 when there is none.
\<close>

definition gpu_reading :: "string \<Rightarrow> string \<Rightarrow> NodeTask list \<Rightarrow> gofloat" where
  "gpu_reading name gpuID ts =
     foldl (\<lambda>v t. foldl (\<lambda>v i. if i = gpuID
                 then foldl (\<lambda>v m. if pmName m = name then pmValue m else v) v (ntMetrics t) else v)
               v (ntGPUIDs t)) (Fin 0) ts"

definition visit_tasks :: "node_env \<Rightarrow> nat \<Rightarrow> NodeWorker \<Rightarrow> (string \<times> nat) list" where
  "visit_tasks E k w = permute (node_orders E (nwTick w) k) (nwActiveTasks w)"

definition gauge_gpu :: "node_env \<Rightarrow> nat \<Rightarrow> NodeWorker \<Rightarrow> NodeWorker" where
  "gauge_gpu E k w =
     (let gpu = nwGPUs w ! k; ts = map (\<lambda>(_, a). nwHeap w a) (visit_tasks E k w);
          read = (\<lambda>name. if pgAvailable gpu then Fin 0 else gpu_reading name (pgId gpu) ts)
      in metric (SetGPUMemoryUsage (pgId gpu) (read ''gpu_memory_usage''))
           (metric (SetGPUUtilization (pgId gpu) (read ''gpu_utilization'')) w))"

definition gauge_task :: "string \<times> nat \<Rightarrow> NodeWorker \<Rightarrow> NodeWorker" where
  "gauge_task p w = metric (SetTaskProgress (fst p) (ntName (nwHeap w (snd p))) (ntProgress (nwHeap w (snd p)))) w"

definition node_updateMetrics :: "node_env \<Rightarrow> NodeWorker \<Rightarrow> (unit, NodeWorker) res" where
  "node_updateMetrics E w =
     (if \<not> nwHasMetrics w then Done () w
      else node_rlock E (block
        [act (\<lambda>w. metric (SetWorkerStatus (nwStatus w)) w),
         act (\<lambda>w. fold (gauge_gpu E) [0..<length (nwGPUs w)] w),
         act (\<lambda>w. node_tick (fold gauge_task (visit_tasks E (length (nwGPUs w)) w) w))]) w)"

definition recordTaskStart :: "node_env \<Rightarrow> nat \<Rightarrow> NodeWorker \<Rightarrow> (unit, NodeWorker) res" where
  "recordTaskStart E a w =
     (if \<not> nwHasMetrics w then Done () w
      else let task = nwHeap w a in block
        [act (\<lambda>w. node_tick (metric (SetTaskStartTime (nwID w) (ntID task) (ntName task)
                (rnd64 (of_int (node_clock E (nwTick w) div 1000000000)))) w)),
         act (metric (SetTaskProgress (ntID task) (ntName task) (Fin 0))),
         node_updateMetrics E] w)"

definition recordTaskProgress :: "node_env \<Rightarrow> nat \<Rightarrow> NodeWorker \<Rightarrow> (unit, NodeWorker) res" where
  "recordTaskProgress E a w =
     (if \<not> nwHasMetrics w then Done () w
      else let task = nwHeap w a in block
        [act (metric (SetTaskProgress (ntID task) (ntName task) (ntProgress task))),
         act (\<lambda>w. if ntMetrics task = [] then w
              else metric (UpdateMetricsFromTaskStatus \<lparr>tuTaskId = ntID task, tuWorkerId = nwID w,
                     tuStatus = ntStatus task, tuProgress = ntProgress task, tuMessage = '''',
                     tuMetrics = ntMetrics task\<rparr>) w),
         node_updateMetrics E] w)"

definition node_recordTaskCompletion :: "node_env \<Rightarrow> nat \<Rightarrow> NodeWorker \<Rightarrow> (unit, NodeWorker) res" where
  "node_recordTaskCompletion E a w =
     (if \<not> nwHasMetrics w then Done () w
      else let task = nwHeap w a in block
        [act (\<lambda>w. metric (DeleteTaskStartTime (nwID w) (ntID task) (ntName task)) w),
         act (metric (SetTaskProgress (ntID task) (ntName task) (ntProgress task))),
         node_updateMetrics E] w)"

definition recordStatusChange :: "node_env \<Rightarrow> NodeWorker \<Rightarrow> (unit, NodeWorker) res" where
  "recordStatusChange E w =
     (if \<not> nwHasMetrics w then Done () w
      else block [act (\<lambda>w. metric (SetWorkerStatus (nwStatus w)) w), node_updateMetrics E] w)"

section \<open>Reports\<close>

text \<open>\<^verbatim>\<open>fmt.Sprintf("%.2f")\<close>: the exact value, rounded half to even.\<close>

definition pad_zeros :: "nat \<Rightarrow> string \<Rightarrow> string" where
  "pad_zeros n s = replicate (n - length s) (CHR ''0'') @ s"

fun fmt_fixed :: "nat \<Rightarrow> gofloat \<Rightarrow> string" where
  "fmt_fixed d FNaN = ''NaN''"
| "fmt_fixed d (FInf s) = (if s then ''-Inf'' else ''+Inf'')"
| "fmt_fixed d (Fin x) =
     (let n = nat (round_even (\<bar>x\<bar> * 10 ^ d))
      in (if x < 0 then ''-'' else '''') @ show_nat (n div 10 ^ d) @ ''.'' @ pad_zeros d (show_nat (n mod 10 ^ d)))"

definition progress_message :: "NodeTask \<Rightarrow> string" where
  "progress_message task = ''Task '' @ ntID task @ '' progress: ''
     @ fmt_fixed 2 (f_mul rnd32 (ntProgress task) (Fin 100)) @ ''%''"

definition status_report :: "NodeTask \<Rightarrow> NodeWorker \<Rightarrow> TaskStatusUpdate" where
  "status_report task w = \<lparr>tuTaskId = ntID task, tuWorkerId = nwID w, tuStatus = ntStatus task,
     tuProgress = ntProgress task, tuMessage = progress_message task, tuMetrics = ntMetrics task\<rparr>"

text \<open>An error of the call is only logged, so the answer of the scheduler does not matter.\<close>

definition reportTaskStatus :: "node_env \<Rightarrow> nat \<Rightarrow> NodeWorker \<Rightarrow> (unit, NodeWorker) res" where
  "reportTaskStatus E a w =
     bind_res (node_rlock E (\<lambda>w. Done (status_report (nwHeap w a) w) w) w)
       (\<lambda>update w. Done () (w\<lparr>nwReports := nwReports w @ [update]\<rparr>))"

text \<open>
  \<^verbatim>\<open>sendStatusUpdate\<close> sends nothing: it writes two lines to the log. They are its result here; the second one,
  with the active tasks, is written only when there are any.
\<close>

record status_log =
  slWorkerID :: string
  slStatus :: WorkerStatus
  slAvailableGPUs :: nat
  slTotalGPUs :: nat
  slActiveTasks :: "string list"

definition task_line :: "string \<times> NodeTask \<Rightarrow> string" where
  "task_line p = fst p @ ''('' @ fmt_fixed 1 (f_mul rnd32 (ntProgress (snd p)) (Fin 100)) @ ''%)''"

definition sendStatusUpdate :: "node_env \<Rightarrow> NodeWorker \<Rightarrow> (status_log, NodeWorker) res" where
  "sendStatusUpdate E = node_rlock E (\<lambda>w. Done
     \<lparr>slWorkerID = nwID w, slStatus = nwStatus w,
      slAvailableGPUs = length (filter pgAvailable (nwGPUs w)), slTotalGPUs = length (nwGPUs w),
      slActiveTasks = map (\<lambda>(k, a). task_line (k, nwHeap w a)) (visit_tasks E 0 w)\<rparr> (node_tick w))"

section \<open>Running a task\<close>

definition begin_task :: "node_env \<Rightarrow> pbTask \<Rightarrow> NodeWorker \<Rightarrow> (nat, NodeWorker) res" where
  "begin_task E pt w =
     (let (ids, gpus) = allocateGPUs (nwGPUAllocation w) (node_orders E (nwTick w) 0) pt (nwGPUs w);
          a = nwHeapNext w;
          task = \<lparr>ntID = ptId pt, ntName = ptName pt, ntConfiguration = ptConfiguration pt,
                  ntStatus = TaskStatus_RUNNING, ntProgress = Fin 0, ntGPUIDs = ids, ntMetrics = [],
                  ntDone = False\<rparr>
      in Done a (node_tick (w\<lparr>nwGPUs := gpus, nwHeap := (nwHeap w)(a := task), nwHeapNext := Suc a,
           nwStatus := WorkerStatus_BUSY, nwActiveTasks := mput (ntID task) a (nwActiveTasks w)\<rparr>)))"

text \<open>\<open>0.05\<close> as a constant of type \<^verbatim>\<open>float64\<close>, and the loop's \<^verbatim>\<open>progress += 0.05\<close>.\<close>

definition progress_step :: gofloat where
  "progress_step = rnd64 (1 / 20)"

definition next_progress :: "gofloat \<Rightarrow> gofloat" where
  "next_progress p = f_add rnd64 p progress_step"

text \<open>The loop condition \<^verbatim>\<open>progress <= 1.0\<close>.\<close>

definition in_loop :: "gofloat \<Rightarrow> bool" where
  "in_loop p \<longleftrightarrow> p \<noteq> FNaN \<and> \<not> f_lt (Fin 1) p"

fun to_float32 :: "gofloat \<Rightarrow> gofloat" where
  "to_float32 (Fin x) = rnd32 x"
| "to_float32 x = x"

definition executeTask :: "node_env \<Rightarrow> pbTask \<Rightarrow> NodeWorker \<Rightarrow> (unit, NodeWorker) res" where
  "executeTask E pt w =
     bind_res (node_lock E (begin_task E pt) w)
       (\<lambda>a. block [recordTaskStart E a, reportTaskStatus E a,
                   act (\<lambda>w. w\<lparr>nwRunning := nwRunning w @ [(a, Fin 0)]\<rparr>)])"

text \<open>
  One iteration of the goroutine's loop: the next value of \<^verbatim>\<open>progress\<close>, or \<open>None\<close> when the
  goroutine returns because the context is cancelled. The \<^verbatim>\<open>continue\<close> of a paused worker runs the loop's
  post statement like any other iteration.
\<close>

definition loss_metric :: "node_env \<Rightarrow> gofloat \<Rightarrow> NodeWorker \<Rightarrow> pbMetric" where
  "loss_metric E p w = \<lparr>pmName = ''loss'', pmValue = to_float32 (f_sub rnd64 (Fin 1) p),
     pmTimestamp = word_of_int (node_clock E (nwTick w) div 1000000000)\<rparr>"

definition work_on :: "node_env \<Rightarrow> nat \<Rightarrow> gofloat \<Rightarrow> NodeWorker \<Rightarrow> (unit, NodeWorker) res" where
  "work_on E a p = block
     [node_lock E (act (\<lambda>w. node_tick (set_task a (\<lambda>t. t\<lparr>ntProgress := to_float32 p,
          ntMetrics := ntMetrics t @ [loss_metric E p w]\<rparr>) w))),
      recordTaskProgress E a, reportTaskStatus E a, node_rlock E (act (\<lambda>w. w))]"

definition task_turn ::
  "node_env \<Rightarrow> bool \<Rightarrow> nat \<Rightarrow> gofloat \<Rightarrow> NodeWorker \<Rightarrow> (gofloat option, NodeWorker) res" where
  "task_turn E cancelled a p w =
     (if cancelled
      then returning (\<lambda>_. None) (block
        [node_lock E (act (set_task a (\<lambda>t. t\<lparr>ntStatus := TaskStatus_FAILED, ntProgress := to_float32 p\<rparr>))),
         reportTaskStatus E a] w)
      else bind_res (node_rlock E (\<lambda>w. Done (nwPaused w) w) w)
        (\<lambda>paused w. if paused then Done (Some (next_progress p)) w
                     else returning (\<lambda>_. Some (next_progress p)) (work_on E a p w)))"

definition remove_task :: "string \<Rightarrow> nat \<Rightarrow> NodeWorker \<Rightarrow> NodeWorker" where
  "remove_task taskID a w = w\<lparr>nwActiveTasks := mdel taskID (nwActiveTasks w),
     nwGPUs := free_gpus (ntGPUIDs (nwHeap w a)) (nwGPUs w)\<rparr>"

definition idle_if_none :: "NodeWorker \<Rightarrow> NodeWorker" where
  "idle_if_none w = (if nwActiveTasks w = [] then w\<lparr>nwStatus := WorkerStatus_IDLE\<rparr> else w)"

text \<open>\<^verbatim>\<open>close(task.DoneCh)\<close>; closing twice panics.\<close>

definition close_done :: "nat \<Rightarrow> NodeWorker \<Rightarrow> (unit, NodeWorker) res" where
  "close_done a w = (if ntDone (nwHeap w a) then Panicked w
     else Done () (set_task a (\<lambda>t. t\<lparr>ntDone := True\<rparr>) w))"

definition complete_task :: "node_env \<Rightarrow> nat \<Rightarrow> NodeWorker \<Rightarrow> (unit, NodeWorker) res" where
  "complete_task E a = block
     [node_lock E (act (set_task a (\<lambda>t. t\<lparr>ntStatus := TaskStatus_COMPLETED, ntProgress := Fin 1\<rparr>))),
      node_recordTaskCompletion E a, reportTaskStatus E a,
      node_lock E (act (\<lambda>w. idle_if_none (remove_task (ntID (nwHeap w a)) a w))),
      close_done a]"

text \<open>A turn of the \<open>k\<close>-th goroutine: an iteration, or the statements after the loop.\<close>

definition run_turn :: "node_env \<Rightarrow> bool \<Rightarrow> nat \<Rightarrow> NodeWorker \<Rightarrow> (unit, NodeWorker) res" where
  "run_turn E cancelled k w =
     (let (a, p) = nwRunning w ! k;
          rest = (\<lambda>w. w\<lparr>nwRunning := take k (nwRunning w) @ drop (Suc k) (nwRunning w)\<rparr>)
      in if in_loop p
         then bind_res (task_turn E cancelled a p w)
           (\<lambda>r w. Done () (case r of None \<Rightarrow> rest w
              | Some p' \<Rightarrow> w\<lparr>nwRunning := (nwRunning w)[k := (a, p')]\<rparr>))
         else block [complete_task E a, act rest] w)"

section \<open>Asking for tasks\<close>

definition poll_request :: "NodeWorker \<Rightarrow> TaskRequest option" where
  "poll_request w =
     (let availableGPUIDs = map pgId (filter pgAvailable (nwGPUs w))
      in if nwPaused w \<or> availableGPUIDs = [] then None
         else Some \<lparr>trWorkerId = nwID w, trAvailableGpuIds = availableGPUIDs, trTask = None,
                    trPriorityInfo = map (\<lambda>(k, p). (k, show_int p)) (nwTaskPriority w)\<rparr>)"

text \<open>
  One turn of \<^verbatim>\<open>pollForTasks\<close>; \<open>client\<close> is the \<^verbatim>\<open>RequestTask\<close> call. A paused worker writes a
  line without fields.
\<close>

definition poll_turn ::
  "node_env \<Rightarrow> (TaskRequest \<Rightarrow> grpc_error + pbTask) \<Rightarrow> NodeWorker \<Rightarrow> (unit, NodeWorker) res" where
  "poll_turn E client w =
     bind_res (node_rlock E (\<lambda>w. Done (nwPaused w, poll_request w) w) w)
       (\<lambda>(paused, request) w. if paused then log_nil w
          else (case request of None \<Rightarrow> Done () w
            | Some req \<Rightarrow> (case client req of Inl err \<Rightarrow> Done () w | Inr task \<Rightarrow> executeTask E task w)))"

section \<open>Following the scheduler\<close>

definition node_abs :: "gofloat \<Rightarrow> gofloat" where
  "node_abs x = (if f_lt x (Fin 0) then f_neg x else x)"

definition node_terminal :: "TaskStatus \<Rightarrow> bool" where
  "node_terminal st \<longleftrightarrow> st = TaskStatus_COMPLETED \<or> st = TaskStatus_FAILED \<or> st = TaskStatus_CANCELED"

definition spawn :: "cleanup \<Rightarrow> NodeWorker \<Rightarrow> NodeWorker" where
  "spawn c w = w\<lparr>nwCleanups := nwCleanups w @ [c]\<rparr>"

definition adopt_status :: "string \<Rightarrow> nat \<Rightarrow> TaskSummary \<Rightarrow> NodeWorker \<Rightarrow> NodeWorker" where
  "adopt_status taskID a sm w =
     (if ntStatus (nwHeap w a) \<noteq> smStatus sm
      then (let w = set_task a (\<lambda>t. t\<lparr>ntStatus := smStatus sm\<rparr>) w
            in if node_terminal (smStatus sm) then spawn (Ended taskID a) w else w)
      else w)"

definition adopt_progress :: "nat \<Rightarrow> TaskSummary \<Rightarrow> NodeWorker \<Rightarrow> NodeWorker" where
  "adopt_progress a sm w =
     (if f_lt progress_step (node_abs (f_sub rnd32 (ntProgress (nwHeap w a)) (smProgress sm)))
      then set_task a (\<lambda>t. t\<lparr>ntProgress := smProgress sm\<rparr>) w else w)"

definition updateTaskPriority :: "string \<Rightarrow> TaskSummary \<Rightarrow> NodeWorker \<Rightarrow> NodeWorker" where
  "updateTaskPriority taskID sm w = (case map_of (nwActiveTasks w) taskID of
      None \<Rightarrow> w
    | Some a \<Rightarrow> adopt_progress a sm (adopt_status taskID a sm w))"

definition gpu_in_use :: "string \<Rightarrow> NodeWorker \<Rightarrow> bool" where
  "gpu_in_use gpuID w = list_ex (\<lambda>(_, a). gpuID \<in> set (ntGPUIDs (nwHeap w a))) (nwActiveTasks w)"

text \<open>A map filled from a list: of entries with the same key the last one stays.\<close>

definition index_by :: "('a \<Rightarrow> string) \<Rightarrow> 'a list \<Rightarrow> 'a gomap" where
  "index_by key xs = fold (\<lambda>x. mput (key x) x) xs []"

definition sync_gpus :: "pbGPU list \<Rightarrow> NodeWorker \<Rightarrow> NodeWorker" where
  "sync_gpus view w =
     (if view = [] then w
      else w\<lparr>nwGPUs := map (\<lambda>gpu. case map_of (index_by pgId view) (pgId gpu) of
               None \<Rightarrow> gpu
             | Some s \<Rightarrow> if gpu_in_use (pgId gpu) w then gpu else gpu\<lparr>pgAvailable := pgAvailable s\<rparr>)
             (nwGPUs w)\<rparr>)"

definition sync_status :: "node_env \<Rightarrow> WorkerStatus \<Rightarrow> NodeWorker \<Rightarrow> (unit, NodeWorker) res" where
  "sync_status E st w =
     (if st \<noteq> nwStatus w then block [act (\<lambda>w. w\<lparr>nwStatus := st\<rparr>), recordStatusChange E] w else Done () w)"

definition cancel_unknown :: "TaskSummary gomap \<Rightarrow> string \<times> nat \<Rightarrow> NodeWorker \<Rightarrow> NodeWorker" where
  "cancel_unknown known p w = (if map_of known (fst p) \<noteq> None then w
     else spawn (Cancelled (fst p) (snd p)) (set_task (snd p) (\<lambda>t. t\<lparr>ntStatus := TaskStatus_CANCELED\<rparr>) w))"

definition sync_tasks :: "node_env \<Rightarrow> TaskSummary list \<Rightarrow> NodeWorker \<Rightarrow> NodeWorker" where
  "sync_tasks E sms w =
     (if sms = [] then w
      else let known = index_by smId sms;
               w = fold (\<lambda>(k, sm). updateTaskPriority k sm) (permute (node_orders E (nwTick w) 0) known) w
           in node_tick (fold (cancel_unknown known) (visit_tasks E 1 w) w))"

text \<open>A message that names a GPU runs into a log line without fields before anything else.\<close>

definition processStatusUpdate ::
  "node_env \<Rightarrow> WorkerStatusResponse \<Rightarrow> NodeWorker \<Rightarrow> (unit, NodeWorker) res" where
  "processStatusUpdate E resp =
     node_lock E (block [(if wsGpus resp = [] then Done () else log_nil),
                         act (sync_gpus (wsGpus resp)), sync_status E (wsStatus resp),
                         act (sync_tasks E (wsActiveTasks resp))])"

definition stopTask :: "node_env \<Rightarrow> string \<Rightarrow> NodeWorker \<Rightarrow> (unit, NodeWorker) res" where
  "stopTask E taskID w =
     bind_res (node_lock E (\<lambda>w. case map_of (nwActiveTasks w) taskID of
          None \<Rightarrow> Done None w
        | Some a \<Rightarrow> Done (Some a) (set_task a (\<lambda>t. t\<lparr>ntStatus := TaskStatus_CANCELED\<rparr>) w)) w)
       (\<lambda>found w. case found of None \<Rightarrow> Done () w | Some a \<Rightarrow> reportTaskStatus E a w)"

fun run_cleanup :: "node_env \<Rightarrow> cleanup \<Rightarrow> NodeWorker \<Rightarrow> (unit, NodeWorker) res" where
  "run_cleanup E (Cancelled taskID a) = block [node_lock E (act (remove_task taskID a)), reportTaskStatus E a]"
| "run_cleanup E (Ended taskID a) = node_lock E (act (remove_task taskID a))"

text \<open>
  \<^verbatim>\<open>Stop\<close> waits, with the read lock held, on the \<^verbatim>\<open>DoneCh\<close> of every active task. The goroutine of a
  task closes that channel only after it has taken the write lock, to remove the task from the map: while \<^verbatim>\<open>Stop\<close> holds the read
  lock no task can get there, so a wait for a task that has not ended is a wait for ever, which is what the state
  \<open>Stuck\<close> (with the read lock held) stands for. When no task is active, the last log line panics.
\<close>

definition node_Stop :: "node_env \<Rightarrow> NodeWorker \<Rightarrow> (unit, NodeWorker) res" where
  "node_Stop E = block
     [node_rlock E (\<lambda>w.
        if list_all (\<lambda>(_, a). ntDone (nwHeap w a)) (nwActiveTasks w) then Done () w else Stuck w),
      log_nil]"

end
