(* ===== verification/WorkerCommand.thy ===== *)
theory WorkerCommand
  imports WorkerRun
begin

text \<open>
  The commands a worker receives with the status stream (\<^verbatim>\<open>handleCommand\<close> in
  \<^verbatim>\<open>pkg/worker/worker.go\<close>) and the settings they change.
\<close>

section \<open>Settings\<close>

text \<open>Between \<^verbatim>\<open>100*time.Millisecond\<close> and \<^verbatim>\<open>time.Minute\<close>.\<close>

definition updateMetricFrequency :: "node_env \<Rightarrow> string \<Rightarrow> NodeWorker \<Rightarrow> (unit, NodeWorker) res" where
  "updateMetricFrequency E freqStr = node_lock E (act (\<lambda>w.
     case parse_duration freqStr of None \<Rightarrow> w
     | Some freq \<Rightarrow> if freq < 100000000 \<or> 60000000000 < freq then w else w\<lparr>nwMetricFrequency := freq\<rparr>))"

text \<open>The pairs \<open>type=priority\<close> between commas; a malformed pair is skipped and a later one wins.\<close>

definition add_priority :: "string \<Rightarrow> int gomap \<Rightarrow> int gomap" where
  "add_priority pair priorities =
     (let parts = split_char (CHR ''='') pair
      in if length parts \<noteq> 2 then priorities
         else case atoi (trim_space (parts ! 1)) of None \<Rightarrow> priorities
         | Some priority \<Rightarrow> mput (trim_space (parts ! 0)) priority priorities)"

definition parse_priorities :: "string \<Rightarrow> int gomap" where
  "parse_priorities s = fold add_priority (split_char (CHR '','') s) []"

definition updateTaskPrioritySettings :: "node_env \<Rightarrow> string \<Rightarrow> NodeWorker \<Rightarrow> (unit, NodeWorker) res" where
  "updateTaskPrioritySettings E priorityStr = node_lock E (act (\<lambda>w.
     let priorities = parse_priorities priorityStr
     in if priorities = [] then w else w\<lparr>nwTaskPriority := priorities\<rparr>))"

definition validStrategies :: "string list" where
  "validStrategies = [''packed'', ''spread'', ''memory'', ''performance'']"

definition updateGPUAllocationStrategy :: "node_env \<Rightarrow> string \<Rightarrow> NodeWorker \<Rightarrow> (unit, NodeWorker) res" where
  "updateGPUAllocationStrategy E strategy = node_lock E (act (\<lambda>w.
     let strategy = to_lower (trim_space strategy)
     in if \<not> List.member validStrategies strategy then w else w\<lparr>nwGPUAllocation := strategy\<rparr>))"

section \<open>Commands\<close>

text \<open>\<^verbatim>\<open>if v, exists := command.Params[key]; exists { f(v) }\<close>\<close>

definition with_param ::
  "string gomap \<Rightarrow> string \<Rightarrow> (string \<Rightarrow> NodeWorker \<Rightarrow> (unit, NodeWorker) res) \<Rightarrow> NodeWorker \<Rightarrow> (unit, NodeWorker) res" where
  "with_param params key f w = (case map_of params key of None \<Rightarrow> Done () w | Some v \<Rightarrow> f v w)"

definition param :: "string gomap \<Rightarrow> string \<Rightarrow> string" where
  "param params key = (case map_of params key of None \<Rightarrow> '''' | Some v \<Rightarrow> v)"

text \<open>\<^verbatim>\<open>SYNC_STATE\<close> gets no further than its log line.\<close>

definition handleCommand :: "node_env \<Rightarrow> WorkerCommand \<Rightarrow> NodeWorker \<Rightarrow> (unit, NodeWorker) res" where
  "handleCommand E command =
     (if wcType command = ''PAUSE''
      then block [node_lock E (act (\<lambda>w. w\<lparr>nwPaused := True\<rparr>)), recordStatusChange E]
      else if wcType command = ''RESUME''
      then block [node_lock E (act (\<lambda>w. w\<lparr>nwPaused := False\<rparr>)), recordStatusChange E]
      else if wcType command = ''STOP_TASK''
      then (if param (wcParams command) ''task_id'' \<noteq> ''''
            then stopTask E (param (wcParams command) ''task_id'') else Done ())
      else if wcType command = ''UPDATE_CONFIG''
      then (if param (wcParams command) ''config'' \<noteq> ''''
            then block [with_param (wcParams command) ''metric_frequency'' (updateMetricFrequency E),
                        with_param (wcParams command) ''task_priority'' (updateTaskPrioritySettings E),
                        with_param (wcParams command) ''gpu_allocation'' (updateGPUAllocationStrategy E)]
            else Done ())
      else if wcType command = ''SYNC_STATE'' then log_nil
      else Done ())"

text \<open>A turn of the ticker in \<^verbatim>\<open>reportStatus\<close>.\<close>

definition log_status :: "node_env \<Rightarrow> NodeWorker \<Rightarrow> (unit, NodeWorker) res" where
  "log_status E w = bind_res (sendStatusUpdate E w) (\<lambda>_. Done ())"

text \<open>One message of the status stream: the synchronisation, the command, and the log lines.\<close>

definition receive_status :: "node_env \<Rightarrow> WorkerStatusResponse \<Rightarrow> NodeWorker \<Rightarrow> (unit, NodeWorker) res" where
  "receive_status E resp = block
     [processStatusUpdate E resp,
      (case wsCommand resp of None \<Rightarrow> Done () | Some command \<Rightarrow> handleCommand E command),
      log_status E]"

section \<open>The worker's steps\<close>

datatype node_event =
    Poll "TaskRequest \<Rightarrow> grpc_error + pbTask"
  | Turn bool nat
  | Cleanup nat
  | Receive WorkerStatusResponse
  | Ticker

definition take_cleanup :: "node_env \<Rightarrow> nat \<Rightarrow> NodeWorker \<Rightarrow> (unit, NodeWorker) res" where
  "take_cleanup E k w = run_cleanup E (nwCleanups w ! k)
     (w\<lparr>nwCleanups := take k (nwCleanups w) @ drop (Suc k) (nwCleanups w)\<rparr>)"

fun node_step :: "node_env \<Rightarrow> node_event \<Rightarrow> NodeWorker \<Rightarrow> (unit, NodeWorker) res" where
  "node_step E (Poll client) w = poll_turn E client w"
| "node_step E (Turn cancelled k) w = (if k < length (nwRunning w) then run_turn E cancelled k w else Done () w)"
| "node_step E (Cleanup k) w = (if k < length (nwCleanups w) then take_cleanup E k w else Done () w)"
| "node_step E (Receive resp) w = receive_status E resp w"
| "node_step E Ticker w = log_status E w"

fun node_run :: "node_env \<Rightarrow> node_event list \<Rightarrow> NodeWorker \<Rightarrow> (unit, NodeWorker) res" where
  "node_run E [] w = Done () w"
| "node_run E (ev # evs) w = bind_res (node_step E ev w) (\<lambda>_. node_run E evs)"

lemma node_run_append: "node_run E (evs @ evs') w = bind_res (node_run E evs w) (\<lambda>_. node_run E evs')"
proof (induction evs arbitrary: w)
  case (Cons ev evs)
  then show ?case by (cases "node_step E ev w") simp_all
qed simp

text \<open>The states a worker gets into: goroutines take turns in any order.\<close>

inductive node_reached :: "node_env \<Rightarrow> NodeWorker \<Rightarrow> bool" for E where
  start: "NewWorker None None addr gpus = Inr w \<Longrightarrow> node_reached E (w\<lparr>nwID := i, nwHasMetrics := b\<rparr>)"
| step: "node_reached E w \<Longrightarrow> node_reached E (final_state (node_step E ev w))"

end
