(* ===== verification/Programs.thy ===== *)
theory Programs
  imports PersistProps SchedProtocol WorkerCommand
begin

text \<open>
  The programs of \<^verbatim>\<open>cmd/server\<close>, \<^verbatim>\<open>cmd/worker\<close> and \<^verbatim>\<open>cmd/submit\<close>, from their parsed flags on: the checks and
  conversions of the flags, what they call in which order, and how they end. Files, sockets, JSON and the
  connection to the server are arguments; signals, the contents of log lines and the metrics servers (see \<open>MetricsServing\<close>) are left out.
\<close>

text \<open>
  A program part: it goes on with a value, ends with a message (\<^verbatim>\<open>log.Fatalf\<close>), panics, or waits for ever.
\<close>

datatype 'a program = Runs 'a | Ends string | Crashes | Waits

definition logger_error :: "'l log_env \<Rightarrow> log_config \<Rightarrow> string option" where
  "logger_error L config = (case NewLogger L config of Inl err \<Rightarrow> Some err | Inr _ \<Rightarrow> None)"

section \<open>The server\<close>

record server_flags =
  sfPolicy :: string
  sfLogLevel :: string
  sfLogDir :: string
  sfPersistence :: bool
  sfPersistenceType :: string
  sfDbType :: string
  sfDbConnection :: string
  sfAutoSave :: bool
  sfSaveInterval :: int

definition default_server_flags :: server_flags where
  "default_server_flags = \<lparr>sfPolicy = ''balanced'', sfLogLevel = ''info'',
     sfLogDir = ''/var/log/scheduler'', sfPersistence = True,
     sfPersistenceType = ''database'', sfDbType = ''sqlite'', sfDbConnection = ''scheduler.db'',
     sfAutoSave = True, sfSaveInterval = 60\<rparr>"

text \<open>Any type but \<open>database\<close> falls back to the default configuration, whatever the other flags say.\<close>

definition persistence_config :: "server_flags \<Rightarrow> Config" where
  "persistence_config f =
     (if sfPersistenceType f = ''database''
      then \<lparr>cfType = DatabasePersistence,
            cfDatabase = \<lparr>dcType = sfDbType f, dcConnectionString = sfDbConnection f, dcAutoMigrate = True,
                          dcLogMode = (sfLogLevel f = ''debug'')\<rparr>,
            cfSaveInterval = sfSaveInterval f, cfAutoSave = sfAutoSave f\<rparr>
      else DefaultConfig)"

definition server_log_config :: "server_flags \<Rightarrow> log_config" where
  "server_log_config f = \<lparr>lcLevel = sfLogLevel f, lcComponent = ''scheduler'', lcLogDir = sfLogDir f,
     lcLogFile = ''scheduler.log''\<rparr>"

text \<open>\<open>listen\<close>: the error of opening the port, if any.\<close>

definition server_boot ::
  "string option \<Rightarrow> 'l log_env \<Rightarrow> env \<Rightarrow> server_flags \<Rightarrow> (WorkloadPolicy \<times> (unit, sched) res) program" where
  "server_boot listen L E f =
     (case listen of Some err \<Rightarrow> Ends (''Failed to listen: '' @ err)
      | None \<Rightarrow> (case select_policy (sfPolicy f) of None \<Rightarrow> Ends (''Unknown policy type: '' @ sfPolicy f)
        | Some p \<Rightarrow> (case logger_error L (server_log_config f) of
              Some err \<Rightarrow> Ends (''Failed to initialize logger: '' @ err)
            | None \<Rightarrow> Runs (p, block
                [SetMetrics E, act (record_call (SetActiveTasks 0)), act (record_call (SetPendingTasks 0)),
                 act (record_call (SetActiveWorkers 0))] NewScheduler))))"

text \<open>
  The server accepts requests from here on; the saved state is loaded only now. An error is logged. The warning
  about a type that is not implemented is one of the log lines that panic.
\<close>

definition server_load ::
  "'db gorm \<Rightarrow> env \<Rightarrow> server_flags \<Rightarrow> 'db \<Rightarrow> sched \<Rightarrow> (string option \<times> 'db, sched) res" where
  "server_load G E f db s =
     (if sfPersistence f
      then bind_res (if sfPersistenceType f = ''database'' then Done () s else log_nil s)
             (\<lambda>_. EnablePersistence G E (persistence_config f) db)
      else Done (None, db) s)"

text \<open>On a signal: a log line with a nil map, and only then the state is saved.\<close>

definition server_shutdown ::
  "'db gorm \<Rightarrow> env \<Rightarrow> save_env \<Rightarrow> server_flags \<Rightarrow> sched \<times> 'db \<Rightarrow> (unit, sched \<times> 'db) res" where
  "server_shutdown G E V f = block
     [log_nil, (if sfPersistence f then DisablePersistence G E V else Done ()), log_nil]"

text \<open>
  The server from its first statement to its end, when its handlers serve the requests \<open>early\<close> before the saved state is
  loaded and \<open>cs\<close> after that, one after the other. A handler that waits for ever does not keep the main goroutine from its
  end. A panic of the auto-save loop, which \<^verbatim>\<open>EnablePersistence\<close> has started, ends the process. \<open>db\<close> is the
  database before one is opened.
\<close>

definition serve_all :: "env \<Rightarrow> WorkloadPolicy \<Rightarrow> request list \<Rightarrow> sched \<Rightarrow> sched" where
  "serve_all E p cs s = fold (\<lambda>c s. final_state (serve E p c s)) cs s"

definition auto_save_crashes :: "'db gorm \<Rightarrow> server_flags \<Rightarrow> bool" where
  "auto_save_crashes G f \<longleftrightarrow> sfPersistence f \<and>
     (case NewManager G (persistence_config f) of Inl _ \<Rightarrow> False | Inr (m, _) \<Rightarrow> ticker_panics (Start m))"

definition server_main ::
  "string option \<Rightarrow> 'l log_env \<Rightarrow> 'db gorm \<Rightarrow> env \<Rightarrow> save_env \<Rightarrow> server_flags \<Rightarrow> request list \<Rightarrow> request list \<Rightarrow> 'db \<Rightarrow>
   (unit, sched \<times> 'db) res program" where
  "server_main listen L G E V f early cs db =
     (case server_boot listen L E f of Ends e \<Rightarrow> Ends e | Crashes \<Rightarrow> Crashes | Waits \<Rightarrow> Waits
      | Runs (p, booted) \<Rightarrow>
          (let loaded = with_db db (bind_res booted (\<lambda>_ s. server_load G E f db (serve_all E p early s)))
           in if is_done loaded \<and> auto_save_crashes G f then Crashes
              else Runs (bind_res loaded (\<lambda>_ (s, db). server_shutdown G E V f (serve_all E p cs s, db)))))"

section \<open>The worker\<close>

record worker_flags =
  wfScheduler :: string
  wfGpus :: string
  wfModels :: string
  wfMemories :: string
  wfAddr :: string
  wfLogLevel :: string
  wfLogDir :: string

text \<open>\<^verbatim>\<open>strconv.ParseUint(s, 10, 64)\<close>: at least one digit, nothing else, a value of 64 bits.\<close>

definition parse_uint :: "string \<Rightarrow> u64 option" where
  "parse_uint s = (if s = [] \<or> \<not> list_all is_digit s \<or> 2 ^ 64 \<le> int (digits_value s) then None
     else Some (word_of_nat (digits_value s)))"

fun build_gpus :: "string list \<Rightarrow> string list \<Rightarrow> string list \<Rightarrow> pbGPU list option" where
  "build_gpus (i # ids) (model # models) (memory # memories) =
     (case parse_uint memory of
        None \<Rightarrow> None
      | Some m \<Rightarrow> map_option (\<lambda>gpus. \<lparr>pgId = i, pgModel = model, pgMemoryMb = m, pgAvailable = True,
           pgCudaCores = 0, pgMemoryBandwidth = 0\<rparr> # gpus) (build_gpus ids models memories))"
| "build_gpus ids models memories = Some []"

text \<open>The first three checks report with \<^verbatim>\<open>logger.Fatal(msg, nil)\<close>, which panics; the fourth has fields.\<close>

definition worker_gpus :: "worker_flags \<Rightarrow> pbGPU list program" where
  "worker_gpus f =
     (let ids = split_char (CHR '','') (wfGpus f); models = split_char (CHR '','') (wfModels f);
          memories = split_char (CHR '','') (wfMemories f)
      in if ids = [] \<or> hd ids = '''' then Crashes
         else if length models \<noteq> length ids then Crashes
         else if length memories \<noteq> length ids then Crashes
         else (case build_gpus ids models memories of
             None \<Rightarrow> Ends ''Invalid GPU memory size'' | Some gpus \<Rightarrow> Runs gpus))"

definition worker_log_config :: "worker_flags \<Rightarrow> log_config" where
  "worker_log_config f = \<lparr>lcLevel = wfLogLevel f, lcComponent = ''worker'', lcLogDir = wfLogDir f,
     lcLogFile = ''worker.log''\<rparr>"

text \<open>The logger of the package, without a file.\<close>

definition node_log_config :: log_config where
  "node_log_config = \<lparr>lcLevel = InfoLevel, lcComponent = ''worker'', lcLogDir = '''', lcLogFile = ''''\<rparr>"

text \<open>
  The worker that is started, with the id its metrics object is created with; it waits for ever when \<^verbatim>\<open>SetMetrics\<close> does.
\<close>

definition start_worker ::
  "node_env \<Rightarrow> 'l log_env \<Rightarrow> string option \<Rightarrow> (RegisterWorkerRequest \<Rightarrow> string + RegisterWorkerResponse) \<Rightarrow>
   worker_flags \<Rightarrow> (string \<times> NodeWorker) program" where
  "start_worker E L dial client f =
     (case logger_error L (worker_log_config f) of Some err \<Rightarrow> Ends (''Failed to initialize logger: '' @ err)
      | None \<Rightarrow> (case worker_gpus f of Ends e \<Rightarrow> Ends e | Crashes \<Rightarrow> Crashes | Waits \<Rightarrow> Waits
        | Runs gpus \<Rightarrow> (case NewWorker dial (logger_error L node_log_config) (wfScheduler f) gpus of
            Inl e \<Rightarrow> Ends ''Failed to create worker''
          | Inr w \<Rightarrow> (case node_SetMetrics E w of
              Done _ w' \<Rightarrow> (case Register client (w'\<lparr>nwAddress := wfAddr f\<rparr>) of
                  (Some err, _) \<Rightarrow> Ends ''Failed to start worker''
                | (None, w'') \<Rightarrow> Runs (nwID w, w''))
            | Stuck _ \<Rightarrow> Waits
            | Panicked _ \<Rightarrow> Crashes))))"

text \<open>On a signal the worker's first statement is a log line without fields; \<^verbatim>\<open>Stop\<close> comes after it.\<close>

definition worker_shutdown :: "node_env \<Rightarrow> NodeWorker \<Rightarrow> (unit, NodeWorker) res" where
  "worker_shutdown E = block [log_nil, node_Stop E, log_nil]"

section \<open>The client that submits a task\<close>

record TaskConfig =
  tcName :: string
  tcRequiredGPUs :: u32
  tcMinGPUMemory :: u64
  tcParams :: "string gomap option"

record submit_flags =
  bfName :: string
  bfGpus :: u64
  bfMemory :: u64
  bfConfig :: string

text \<open>\<open>read_file\<close> and \<open>unmarshal\<close>: the file system and \<^verbatim>\<open>encoding/json\<close>. A Go \<^verbatim>\<open>uint\<close> has 64 bits.\<close>

definition task_config ::
  "(string \<Rightarrow> string + string) \<Rightarrow> (string \<Rightarrow> string + TaskConfig) \<Rightarrow> submit_flags \<Rightarrow> TaskConfig program" where
  "task_config read_file unmarshal f =
     (if bfConfig f \<noteq> '''' then
        (case read_file (bfConfig f) of Inl err \<Rightarrow> Ends (''Failed to read config file: '' @ err)
         | Inr text \<Rightarrow> (case unmarshal text of Inl err \<Rightarrow> Ends (''Failed to parse config file: '' @ err)
           | Inr config \<Rightarrow> Runs config))
      else if bfName f = '''' then Ends ''Task name must be specified''
      else Runs \<lparr>tcName = bfName f, tcRequiredGPUs = ucast (bfGpus f), tcMinGPUMemory = bfMemory f,
                tcParams = Some []\<rparr>)"

definition submitted_task :: "(string gomap option \<Rightarrow> bytes) \<Rightarrow> int \<Rightarrow> TaskConfig \<Rightarrow> pbTask" where
  "submitted_task marshal now config = \<lparr>ptId = ''task-'' @ show_int now, ptName = tcName config,
     ptRequiredGpus = tcRequiredGPUs config, ptMinGpuMemory = tcMinGPUMemory config,
     ptConfiguration = marshal (tcParams config), ptStatus = TaskStatus_PENDING\<rparr>"

definition submit_request :: "pbTask \<Rightarrow> TaskRequest" where
  "submit_request task = \<lparr>trWorkerId = '''', trAvailableGpuIds = [], trTask = Some task, trPriorityInfo = []\<rparr>"

text \<open>\<^verbatim>\<open>err.Error()\<close> of an error from the server.\<close>

fun code_name :: "grpc_code \<Rightarrow> string" where
  "code_name NotFound = ''NotFound''"
| "code_name ResourceExhausted = ''ResourceExhausted''"
| "code_name DeadlineExceeded = ''DeadlineExceeded''"

definition rpc_error :: "grpc_error \<Rightarrow> string" where
  "rpc_error e = ''rpc error: code = '' @ code_name (fst e) @ '' desc = '' @ snd e"

text \<open>The program's outcome; it runs to its end when it prints the id of the task.\<close>

definition submit_main ::
  "(string \<Rightarrow> string + string) \<Rightarrow> (string \<Rightarrow> string + TaskConfig) \<Rightarrow> (string gomap option \<Rightarrow> bytes) \<Rightarrow> int \<Rightarrow>
   string option \<Rightarrow> (TaskRequest \<Rightarrow> grpc_error + pbTask) \<Rightarrow> submit_flags \<Rightarrow> string program" where
  "submit_main read_file unmarshal marshal now dial client f =
     (case task_config read_file unmarshal f of Ends e \<Rightarrow> Ends e | Crashes \<Rightarrow> Crashes | Waits \<Rightarrow> Waits
      | Runs config \<Rightarrow> (case dial of Some err \<Rightarrow> Ends (''Failed to connect to scheduler: '' @ err) | None \<Rightarrow>
          (let task = submitted_task marshal now config
           in case client (submit_request task) of
                Inl err \<Rightarrow> Ends (''Failed to submit task: '' @ rpc_error err)
              | Inr _ \<Rightarrow> Runs (ptId task))))"

end
