(* ===== verification/WorkerInv.thy ===== *)
theory WorkerInv
  imports WorkerCommand
begin

text \<open>
  Invariants of the worker of \<^verbatim>\<open>pkg/worker\<close>. An invariant is checked against the small assignments the operations are
  made of (the assumptions of the locale \<open>node_invariant\<close>); that every operation, every command and every turn of a
  goroutine keeps it follows once, here. The locale \<open>node_passive\<close> has the assignments of everything but the beginning, the
  progress and the end of a task; \<open>node_invariant\<close> adds those.
\<close>

section \<open>What critical sections keep\<close>

lemma keeps_node_locked:
  assumes mu: "\<And>w m. P (w\<lparr>nwMu := m\<rparr>) = P w" and body: "keeps P body"
  shows "keeps P (node_locked acquire release body)"
proof (rule keepsI)
  fix w assume w: "P w"
  show "P (final_state (node_locked acquire release body w))"
  proof (cases "acquire (nwMu w)")
    case None
    then show ?thesis using w by (simp add: node_locked_def)
  next
    case (Some m)
    have "P (w\<lparr>nwMu := m\<rparr>)" using mu w by iprover
    from keepsD [OF body this] have "P (final_state (body (w\<lparr>nwMu := m\<rparr>)))" .
    then show ?thesis using Some
      by (cases "body (w\<lparr>nwMu := m\<rparr>)") (simp_all add: node_locked_def mu split: option.split)
  qed
qed

lemma keeps_node_lock: "(\<And>w m. P (w\<lparr>nwMu := m\<rparr>) = P w) \<Longrightarrow> keeps P body \<Longrightarrow> keeps P (node_lock E body)"
  unfolding node_lock_def by (rule keeps_node_locked)

lemma keeps_node_rlock: "(\<And>w m. P (w\<lparr>nwMu := m\<rparr>) = P w) \<Longrightarrow> keeps P body \<Longrightarrow> keeps P (node_rlock E body)"
  unfolding node_rlock_def by (rule keeps_node_locked)

lemma keeps_reads: "keeps P (\<lambda>w. Done (f w) w)" "keeps P (Done r)"
  by (simp_all add: keeps_def)

lemma keeps_if_fun: "keeps P f \<Longrightarrow> keeps P g \<Longrightarrow> keeps P (if c then f else g)"
  by simp

section \<open>The assignments\<close>

locale node_passive =
  fixes P :: "NodeWorker \<Rightarrow> bool" and E :: node_env
  assumes mu: "P (w\<lparr>nwMu := m\<rparr>) = P w"
    and tick: "P (node_tick w) = P w"
    and cleanups: "P (w\<lparr>nwCleanups := cs\<rparr>) = P w"
    and status: "P (w\<lparr>nwStatus := st\<rparr>) = P w"
    and paused: "P (w\<lparr>nwPaused := b\<rparr>) = P w"
    and priorities: "P (w\<lparr>nwTaskPriority := ps\<rparr>) = P w"
    and removed: "P w \<Longrightarrow> P (remove_task i a w)"
    and synced: "P w \<Longrightarrow> P (sync_gpus gs w)"
    and frequency: "P w \<Longrightarrow> 100000000 \<le> f \<Longrightarrow> f \<le> 60000000000 \<Longrightarrow> P (w\<lparr>nwMetricFrequency := f\<rparr>)"
    and strategy: "P w \<Longrightarrow> List.member validStrategies s \<Longrightarrow> P (w\<lparr>nwGPUAllocation := s\<rparr>)"
    and task: "P w \<Longrightarrow> (\<And>t. ntMetrics (upd t) = ntMetrics t) \<Longrightarrow> (\<And>t. ntDone (upd t) = ntDone t) \<Longrightarrow> P (set_task a upd w)"
    and loss: "P w \<Longrightarrow>
      P (set_task a (\<lambda>t. t\<lparr>ntProgress := x, ntMetrics := ntMetrics t @ [loss_metric E p v]\<rparr>) w)"
    and gauge: "P w \<Longrightarrow> P (gauge_gpu E k w)"
    and plain: "P w \<Longrightarrow> P (metric (SetWorkerStatus st) w)" "P w \<Longrightarrow> P (metric (SetTaskProgress i n x) w)"
      "P w \<Longrightarrow> P (metric (SetTaskStartTime (nwID w) i n x) w)" "P w \<Longrightarrow> P (metric (DeleteTaskStartTime (nwID w) i n) w)"
    and sent: "P w \<Longrightarrow> tuMetrics u = ntMetrics (nwHeap w a) \<Longrightarrow> P (metric (UpdateMetricsFromTaskStatus u) w)"
    and reported: "P w \<Longrightarrow> tuMetrics u = ntMetrics (nwHeap w a) \<Longrightarrow> P (w\<lparr>nwReports := nwReports w @ [u]\<rparr>)"
begin

lemmas locks = keeps_node_lock [of P, OF mu] keeps_node_rlock [of P, OF mu]

lemma keeps_upd: "(\<And>w. P w \<Longrightarrow> P (f w)) \<Longrightarrow> keeps P (act f)"
  by (rule keeps_act)

lemma folded: "(\<And>x w. P w \<Longrightarrow> P (f x w)) \<Longrightarrow> P w \<Longrightarrow> P (fold f xs w)"
  by (induction xs arbitrary: w) simp_all

lemma keeps_gauges: "keeps P (node_updateMetrics E)"
proof -
  have "P w \<Longrightarrow> P (metric (SetWorkerStatus (nwStatus w)) w)" for w by (rule plain)
  moreover have "P w \<Longrightarrow> P (fold (gauge_gpu E) ks w)" for ks w by (rule folded) (rule gauge)
  moreover have "P w \<Longrightarrow> P (gauge_task q w)" for q w unfolding gauge_task_def by (rule plain)
  then have "P w \<Longrightarrow> P (node_tick (fold gauge_task qs w))" for qs w unfolding tick by (rule folded)
  ultimately show ?thesis unfolding node_updateMetrics_def
    by (intro keeps_intros locks keeps_upd)
qed

lemma keeps_hook:
  assumes "\<And>w. P w \<Longrightarrow> P (f w)" and "\<And>w. P w \<Longrightarrow> P (g w)"
  shows "keeps P (block [act f, act g, node_updateMetrics E])"
  by (intro keeps_intros keeps_upd keeps_gauges assms)

lemma keeps_recordStatusChange: "keeps P (recordStatusChange E)"
  unfolding recordStatusChange_def by (intro keeps_intros keeps_upd keeps_gauges plain)

lemma keeps_recordTaskStart: "keeps P (recordTaskStart E a)"
proof (rule keepsI)
  fix w assume "P w"
  moreover have "keeps P (block [act (\<lambda>w. node_tick (metric (SetTaskStartTime (nwID w) i n (x w)) w)),
      act (metric (SetTaskProgress i n (Fin 0))), node_updateMetrics E])" for i n x
    by (rule keeps_hook) (auto simp: tick intro: plain)
  ultimately show "P (final_state (recordTaskStart E a w))"
    by (simp add: recordTaskStart_def Let_def keepsD del: block.simps)
qed

lemma keeps_task_end: "keeps P (node_recordTaskCompletion E a)"
proof (rule keepsI)
  fix w assume "P w"
  moreover have "keeps P (block [act (\<lambda>w. metric (DeleteTaskStartTime (nwID w) i n) w),
      act (metric (SetTaskProgress i n x)), node_updateMetrics E])" for i n x
    by (rule keeps_hook) (auto intro: plain)
  ultimately show "P (final_state (node_recordTaskCompletion E a w))"
    by (simp add: node_recordTaskCompletion_def Let_def keepsD del: block.simps)
qed

lemma keeps_recordTaskProgress: "keeps P (recordTaskProgress E a)"
proof (rule keepsI)
  fix w assume w: "P w"
  have last: "keeps P (block [node_updateMetrics E])" by (intro keeps_intros keeps_gauges)
  let ?v = "metric (SetTaskProgress (ntID (nwHeap w a)) (ntName (nwHeap w a)) (ntProgress (nwHeap w a))) w"
  have v: "P ?v" "nwHeap ?v = nwHeap w" using plain [OF w] by (simp_all add: metric_def)
  then have "P (metric (UpdateMetricsFromTaskStatus u) ?v)" if "tuMetrics u = ntMetrics (nwHeap w a)" for u
    using sent [of ?v u a] that by simp
  with v w show "P (final_state (recordTaskProgress E a w))"
    by (auto simp: recordTaskProgress_def Let_def block_act simp del: block.simps intro!: keepsD [OF last])
qed

lemma keeps_report: "keeps P (reportTaskStatus E a)"
proof (rule keepsI)
  fix w assume w: "P w"
  let ?read = "node_rlock E (\<lambda>w. Done (status_report (nwHeap w a) w) w)"
  have "keeps P ?read" by (intro locks keeps_reads)
  from keepsD [OF this w] have "P (final_state (?read w))" .
  moreover have "tuMetrics u = ntMetrics (nwHeap w' a)" if "?read w = Done u w'" for u w'
    using that by (auto simp: node_rlock_def node_locked_def status_report_def split: option.splits)
  ultimately show "P (final_state (reportTaskStatus E a w))"
    by (cases "?read w") (simp_all add: reportTaskStatus_def reported)
qed

lemmas hooks = keeps_gauges keeps_recordStatusChange keeps_recordTaskStart keeps_recordTaskProgress
  keeps_task_end keeps_report

section \<open>The operations\<close>

lemma keeps_turn: "keeps P (task_turn E cancelled a p)"
proof -
  have "keeps P (work_on E a p)" unfolding work_on_def
    by (intro keeps_intros locks hooks keeps_upd) (simp_all add: tick loss)
  moreover have "keeps P (block [node_lock E (act (set_task a (\<lambda>t. t\<lparr>ntStatus := st, ntProgress := x\<rparr>))),
      reportTaskStatus E a])" for st x
    by (intro keeps_intros locks hooks keeps_upd task) simp_all
  ultimately show ?thesis unfolding task_turn_def
    by (intro keeps_if keeps_bind keeps_returning keeps_Done locks keeps_reads)
qed

lemma keeps_stop_task: "keeps P (stopTask E i)"
  unfolding stopTask_def
proof (intro keeps_bind locks)
  show "keeps P (\<lambda>w. case map_of (nwActiveTasks w) i of None \<Rightarrow> Done None w
        | Some a \<Rightarrow> Done (Some a) (set_task a (\<lambda>t. t\<lparr>ntStatus := TaskStatus_CANCELED\<rparr>) w))"
    by (auto simp: keeps_def task split: option.split)
  show "keeps P (\<lambda>w. case r of None \<Rightarrow> Done () w | Some a \<Rightarrow> reportTaskStatus E a w)" for r
    by (auto simp: keeps_def split: option.split intro: keepsD [OF keeps_report])
qed

lemma spawned: "P w \<Longrightarrow> P (spawn c w)"
  by (simp add: spawn_def cleanups)

lemma followed: "P w \<Longrightarrow> P (updateTaskPriority i sm w)"
proof -
  have "P w \<Longrightarrow> P (adopt_status i a sm w)" for a w
    by (simp add: adopt_status_def Let_def spawned task)
  moreover have "P w \<Longrightarrow> P (adopt_progress a sm w)" for a w by (simp add: adopt_progress_def task)
  ultimately show "P w \<Longrightarrow> P (updateTaskPriority i sm w)" by (simp add: updateTaskPriority_def split: option.split)
qed

lemma synced_tasks: "P w \<Longrightarrow> P (sync_tasks E sms w)"
proof -
  assume w: "P w"
  have "P v \<Longrightarrow> P (fold (\<lambda>(k, sm). updateTaskPriority k sm) xs v)" for xs v
    by (rule folded) (auto simp: followed)
  moreover have "P v \<Longrightarrow> P (fold (cancel_unknown known) ys v)" for known ys v
    by (rule folded) (simp_all add: cancel_unknown_def spawned task)
  ultimately show ?thesis using w by (simp add: sync_tasks_def Let_def tick)
qed

lemma keeps_sync: "keeps P (processStatusUpdate E resp)"
proof -
  have "keeps P (sync_status E st)" for st unfolding sync_status_def
    by (intro keeps_intros keeps_upd keeps_recordStatusChange) (simp add: status)
  then show ?thesis unfolding processStatusUpdate_def
    by (intro keeps_intros keeps_if_fun keeps_reads keeps_log_nil locks keeps_upd synced synced_tasks)
qed

lemma keeps_settings_updates:
  "keeps P (updateMetricFrequency E v)" "keeps P (updateTaskPrioritySettings E v)"
  "keeps P (updateGPUAllocationStrategy E v)"
  unfolding updateMetricFrequency_def updateTaskPrioritySettings_def updateGPUAllocationStrategy_def
  by (intro locks keeps_act; auto simp: Let_def priorities frequency strategy split: option.split)+

lemma keeps_command: "keeps P (handleCommand E command)"
proof -
  have params: "keeps P (with_param params key f)" if "\<And>v. keeps P (f v)" for params key f
    using that by (auto simp: keeps_def with_param_def split: option.split)
  show ?thesis unfolding handleCommand_def
    by (intro keeps_if_fun keeps_block_Cons keeps_block_Nil keeps_reads locks keeps_upd hooks keeps_stop_task
        params keeps_settings_updates keeps_log_nil) (simp_all add: paused)
qed

lemma keeps_log: "keeps P (log_status E)"
  unfolding log_status_def sendStatusUpdate_def
  by (intro keeps_bind locks keeps_reads) (simp add: keeps_def tick)

lemma keeps_cleanup: "keeps P (take_cleanup E k)"
proof -
  have "keeps P (run_cleanup E c)" for c
    by (cases c) (auto intro!: keeps_block_Cons keeps_block_Nil locks keeps_upd removed keeps_report)
  then show ?thesis by (auto simp: keeps_def take_cleanup_def cleanups)
qed

lemma keeps_receive: "keeps P (receive_status E resp)"
proof -
  have "keeps P (case wsCommand resp of None \<Rightarrow> Done () | Some command \<Rightarrow> handleCommand E command)"
    by (auto split: option.split intro: keeps_reads keeps_command)
  then show ?thesis unfolding receive_status_def
    by (intro keeps_block_Cons keeps_block_Nil keeps_sync keeps_log)
qed

end

section \<open>Beginning and ending tasks\<close>

locale node_invariant = node_passive +
  assumes running: "P (w\<lparr>nwRunning := rs\<rparr>) = P w"
    and begun: "P w \<Longrightarrow> P (final_state (begin_task E pt w))"
    and closed: "P w \<Longrightarrow> P (set_task a (\<lambda>t. t\<lparr>ntDone := True\<rparr>) w)"
begin

lemma keeps_execute: "keeps P (executeTask E pt)"
proof -
  have "keeps P (begin_task E pt)" by (rule keepsI) (rule begun)
  then show ?thesis unfolding executeTask_def
    by (intro keeps_bind keeps_intros locks hooks keeps_upd) (simp_all add: running)
qed

lemma keeps_complete: "keeps P (complete_task E a)"
proof -
  have "P w \<Longrightarrow> P (idle_if_none (remove_task i a w))" for i w
    using removed by (simp add: idle_if_none_def status)
  moreover have "keeps P (close_done a)" by (rule keepsI) (simp add: close_done_def closed)
  ultimately show ?thesis unfolding complete_task_def
    by (intro keeps_intros locks hooks keeps_upd task) simp_all
qed

lemma keeps_run: "keeps P (run_turn E cancelled k)"
proof (rule keepsI)
  fix w assume w: "P w"
  obtain a p where ap: "nwRunning w ! k = (a, p)" by (cases "nwRunning w ! k")
  let ?rest = "\<lambda>w. w\<lparr>nwRunning := take k (nwRunning w) @ drop (Suc k) (nwRunning w)\<rparr>"
  have "keeps P (block [complete_task E a, act ?rest])"
    by (intro keeps_intros keeps_complete keeps_upd) (simp add: running)
  moreover have "keeps P (\<lambda>w. bind_res (task_turn E cancelled a p w)
           (\<lambda>r w. Done () (case r of None \<Rightarrow> ?rest w | Some p' \<Rightarrow> w\<lparr>nwRunning := (nwRunning w)[k := (a, p')]\<rparr>)))"
    by (intro keeps_bind keeps_turn) (simp add: keeps_def running split: option.split)
  ultimately show "P (final_state (run_turn E cancelled k w))"
    using w by (simp add: run_turn_def ap keeps_def)
qed

lemma keeps_poll: "keeps P (poll_turn E client)"
  unfolding poll_turn_def
  by (intro keeps_bind locks keeps_reads)
     (auto simp: keeps_def split: option.split sum.split prod.split intro: keepsD [OF keeps_execute])

lemma keeps_step: "keeps P (node_step E ev)"
  by (cases ev) (use keeps_poll keeps_run keeps_cleanup keeps_receive keeps_log in \<open>simp_all add: keeps_def\<close>)

lemma reached:
  assumes "node_reached E w"
    and "\<And>addr gpus v i b. NewWorker None None addr gpus = Inr v \<Longrightarrow> P (v\<lparr>nwID := i, nwHasMetrics := b\<rparr>)"
  shows "P w"
  using assms(1) by induction (use assms(2) keepsD [OF keeps_step] in auto)

end

end
