(* ===== verification/WorkerProgress.thy ===== *)
theory WorkerProgress
  imports WorkerRun
begin

text \<open>
  The loop \<^verbatim>\<open>for progress := 0.0; progress <= 1.0; progress += 0.05\<close>, computed exactly: all its
  values are multiples of \<open>2 ^ -56\<close>, so each addition is an integer addition and a rounding to a multiple of a power of two.
\<close>

section \<open>Rounding multiples of \<open>2 ^ -56\<close>\<close>

definition scale :: int where "scale = 72057594037927936"

definition scaled :: "int \<Rightarrow> gofloat" where
  "scaled a = Fin (of_int a / of_int scale)"

definition round_to :: "nat \<Rightarrow> int \<Rightarrow> int" where
  "round_to j s = (let f = s div 2 ^ j; r = s mod 2 ^ j
     in (if 2 * r < 2 ^ j \<or> (2 * r = 2 ^ j \<and> even f) then f else f + 1) * 2 ^ j)"

lemma round_to_eq: "round_even (of_int s / 2 ^ j) * 2 ^ j = round_to j s"
proof -
  have fl: "\<lfloor>of_int s / (2 ^ j :: rat)\<rfloor> = s div 2 ^ j"
    using floor_divide_of_int_eq [of s "2 ^ j"] by simp
  have fr: "of_int s / (2 ^ j :: rat) - of_int (s div 2 ^ j) = of_int (s mod 2 ^ j) / 2 ^ j"
  proof -
    have "(of_int s :: rat) = of_int (s div 2 ^ j) * 2 ^ j + of_int (s mod 2 ^ j)"
      by (simp only: of_int_add [symmetric] of_int_mult [symmetric] of_int_power [symmetric]
          of_int_numeral [symmetric, where 'a = rat] div_mult_mod_eq)
    then show ?thesis by (simp add: field_simps)
  qed
  have lt: "(of_int r / 2 ^ j < (1 / 2 :: rat)) = (2 * r < 2 ^ j)" for r :: int
  proof -
    have "(of_int r / 2 ^ j < (1 / 2 :: rat)) = (of_int (2 * r) < (of_int (2 ^ j) :: rat))"
      by (simp add: field_simps)
    then show ?thesis by (simp only: of_int_less_iff)
  qed
  have eq: "(of_int r / 2 ^ j = (1 / 2 :: rat)) = (2 * r = 2 ^ j)" for r :: int
  proof -
    have "(of_int r / 2 ^ j = (1 / 2 :: rat)) = (of_int (2 * r) = (of_int (2 ^ j) :: rat))"
      by (auto simp: field_simps)
    then show ?thesis by (simp only: of_int_eq_iff)
  qed
  show ?thesis by (simp only: round_even_def round_to_def Let_def fl fr lt eq)
qed

lemma rnd64_scaled:
  assumes "2 ^ (52 + j) \<le> s" and "s < 2 ^ (53 + j)" and "j \<le> 4"
  shows "rnd64 (of_int s / of_int scale) = scaled (round_to j s)"
proof -
  let ?x = "of_int s / of_int scale :: rat"
  have pow: "(2::rat) ^ (52 + j) \<le> of_int s" "of_int s < (2::rat) ^ (53 + j)"
    using assms(1,2) by (metis of_int_le_iff of_int_numeral of_int_power, metis of_int_less_iff of_int_numeral of_int_power)
  have sc: "(of_int scale :: rat) = 2 ^ 56" by (simp add: scale_def)
  have "(2::rat) powi (int j - 4) = 2 ^ (52 + j) / 2 ^ 56" "(2::rat) powi (int j - 4 + 1) = 2 ^ (53 + j) / 2 ^ 56"
    by (simp_all add: power_int_diff power_int_add power_add)
  then have "flog2 ?x = int j - 4" using pow by (intro flog2_eqI) (simp_all add: sc divide_right_mono divide_strict_right_mono)
  moreover have "0 < s" using less_le_trans [OF zero_less_power assms(1)] by simp
  then have x: "0 < ?x" by (simp add: sc)
  ultimately have q: "quantum 53 (-1074) ?x = int j - 56"
    unfolding quantum_def abs_of_pos [OF x] using assms(3) by simp
  have p: "(2::rat) powi (int j - 56) = 2 ^ j / 2 ^ 56" by (simp add: power_int_diff)
  have e: "?x / (2 ^ j / 2 ^ 56) = of_int s / 2 ^ j" by (simp add: sc)
  have nz: "?x \<noteq> 0" using x by linarith
  have "round_grid 53 (-1074) ?x = of_int (round_even (of_int s / 2 ^ j)) * (2 ^ j / 2 ^ 56)"
    unfolding round_grid_def if_not_P [OF nz] q p e ..
  also have "\<dots> = of_int (round_even (of_int s / 2 ^ j) * 2 ^ j) / of_int scale" by (simp add: sc)
  finally have "round_grid 53 (-1074) ?x = of_int (round_to j s) / of_int scale" unfolding round_to_eq .
  moreover have "\<bar>?x\<bar> \<le> 2 ^ 64"
  proof -
    have "(2::rat) ^ (53 + j) \<le> 2 ^ 57" using assms(3) by (intro power_increasing) simp_all
    then have "of_int s < (2::rat) ^ 57" using pow(2) by linarith
    then show ?thesis using x by (simp add: sc field_simps)
  qed
  ultimately show ?thesis by (simp add: rnd64_small scaled_def)
qed

lemma rnd64_scaled_exact:
  assumes "0 \<le> s" and "s < 2 ^ 53"
  shows "rnd64 (of_int s / of_int scale) = scaled s"
proof (cases "s = 0")
  case False
  let ?x = "of_int s / of_int scale :: rat"
  have sc: "(of_int scale :: rat) = 2 ^ 56" by (simp add: scale_def)
  have s: "0 < s" "(of_int s :: rat) < 2 ^ 53" using assms False abs_of_int_less_pow2 [of s 53] by simp_all
  then have x: "0 < ?x" "?x < 2 powi (- 3)" by (simp_all add: sc power_int_def power3_eq_cube)
  then have "flog2 ?x < - 3" by (intro flog2_less)
  then have "quantum 53 (-1074) ?x \<le> - 56" unfolding quantum_def abs_of_pos [OF x(1)] by simp
  then obtain k where "2 powi (- 56) = of_int k * (2::rat) powi quantum 53 (-1074) ?x"
    using powi2_multiple by blast
  moreover have "?x = of_int s * 2 powi (- 56)" by (simp add: sc power_int_def power_one_over)
  ultimately have "?x = of_int (s * k) * 2 powi quantum 53 (-1074) ?x" by (metis mult.assoc of_int_mult)
  then have "round_grid 53 (-1074) ?x = ?x" by (rule round_grid_eq)
  moreover have "\<bar>?x\<bar> \<le> 2 ^ 64" using s by (simp add: sc)
  ultimately show ?thesis by (simp add: rnd64_small scaled_def)
qed (simp add: scaled_def)

section \<open>The values of the loop variable\<close>

definition scaled_step :: int where "scaled_step = 3602879701896397"

lemma progress_step_eq: "progress_step = scaled scaled_step"
  unfolding scaled_step_def scaled_def scale_def by code_simp

definition scaled_next :: "int \<Rightarrow> int" where
  "scaled_next a = (let s = a + scaled_step in
     if s < 9007199254740992 then s else if s < 18014398509481984 then round_to 1 s
     else if s < 36028797018963968 then round_to 2 s else if s < 72057594037927936 then round_to 3 s
     else round_to 4 s)"

lemma next_progress_scaled:
  assumes "0 \<le> a" and "a + scaled_step < 144115188075855872"
  shows "next_progress (scaled a) = scaled (scaled_next a)"
proof -
  let ?s = "a + scaled_step"
  have "0 \<le> ?s" using assms(1) by (simp add: scaled_step_def)
  have "next_progress (scaled a) = rnd64 (of_int ?s / of_int scale)"
    by (simp add: next_progress_def progress_step_eq scaled_def add_divide_distrib)
  also have "\<dots> = scaled (scaled_next a)"
    using assms \<open>0 \<le> ?s\<close> rnd64_scaled_exact [of ?s] rnd64_scaled [of 1 ?s] rnd64_scaled [of 2 ?s]
      rnd64_scaled [of 3 ?s] rnd64_scaled [of 4 ?s]
    by (simp add: scaled_next_def Let_def)
  finally show ?thesis .
qed

definition progress_at :: "nat \<Rightarrow> gofloat" where
  "progress_at n = (next_progress ^^ n) (Fin 0)"

definition scaled_at :: "nat \<Rightarrow> int" where
  "scaled_at n = (scaled_next ^^ n) 0"

definition scaled_values :: "int list" where
  "scaled_values =
    [0, 3602879701896397, 7205759403792794, 10808639105689192, 14411518807585588, 18014398509481984,
     21617278211378380, 25220157913274776, 28823037615171172, 32425917317067568, 36028797018963964,
     39631676720860360, 43234556422756760, 46837436124653160, 50440315826549560, 54043195528445960,
     57646075230342360, 61248954932238760, 64851834634135160, 68454714336031560, 72057594037927952]"

lemma scaled_steps: "map scaled_next (butlast scaled_values) = tl scaled_values"
  by (simp add: scaled_values_def scaled_next_def scaled_step_def round_to_def)

lemma scaled_at_values: "n \<le> 20 \<Longrightarrow> scaled_at n = scaled_values ! n"
proof (induction n)
  case 0
  show ?case by (simp add: scaled_at_def scaled_values_def)
next
  case (Suc n)
  have len: "length scaled_values = 21" by (simp add: scaled_values_def)
  have "scaled_next (scaled_values ! n) = map scaled_next (butlast scaled_values) ! n"
    using Suc.prems len by (simp add: nth_butlast)
  also have "\<dots> = scaled_values ! Suc n" unfolding scaled_steps using Suc.prems len by (simp add: nth_tl)
  finally show ?case using Suc by (simp add: scaled_at_def)
qed

lemma scaled_values_small: "\<forall>a \<in> set (butlast scaled_values). 0 \<le> a \<and> a \<le> scale"
  by (simp add: scaled_values_def scale_def)

lemma scaled_at_small: "n < 20 \<Longrightarrow> 0 \<le> scaled_at n \<and> scaled_at n \<le> scale"
proof -
  assume "n < 20"
  then have n: "n < length (butlast scaled_values)" by (simp add: scaled_values_def)
  with \<open>n < 20\<close> have "scaled_at n = butlast scaled_values ! n" by (simp add: scaled_at_values nth_butlast)
  with n show ?thesis using scaled_values_small nth_mem by metis
qed

lemma scaled_at_last: "scale < scaled_at 20"
  by (simp add: scaled_at_values scaled_values_def scale_def)

lemma progress_at_scaled: "n \<le> 20 \<Longrightarrow> progress_at n = scaled (scaled_at n)"
proof (induction n)
  case 0
  show ?case by (simp add: progress_at_def scaled_at_def scaled_def)
next
  case (Suc n)
  then have "0 \<le> scaled_at n \<and> scaled_at n \<le> scale" by (intro scaled_at_small) simp
  then have "next_progress (scaled (scaled_at n)) = scaled (scaled_next (scaled_at n))"
    by (intro next_progress_scaled) (simp_all add: scale_def scaled_step_def)
  with Suc show ?case by (simp add: progress_at_def scaled_at_def)
qed

lemma in_loop_scaled: "in_loop (scaled a) \<longleftrightarrow> a \<le> scale"
proof -
  have "(1 < (of_int a / of_int scale :: rat)) = ((of_int scale :: rat) < of_int a)"
    by (simp add: scale_def less_divide_eq)
  then have "(1 < (of_int a / of_int scale :: rat)) = (scale < a)" by (simp only: of_int_less_iff)
  then show ?thesis by (auto simp: in_loop_def scaled_def)
qed

lemma in_loop_iff: "n \<le> 20 \<Longrightarrow> in_loop (progress_at n) \<longleftrightarrow> n < 20"
  using scaled_at_small scaled_at_last
  by (cases "n = 20") (auto simp: progress_at_scaled in_loop_scaled)

end
