(* ===== verification/WorkerProps.thy ===== *)
theory WorkerProps
  imports WorkerInv WorkerProgress
begin

text \<open>
  Properties of the worker: the settings stay within their bounds, a running task takes twenty turns whether or not the
  worker is paused, and where the worker's mutex blocks it for ever.
\<close>

section \<open>The fields the small steps leave alone\<close>

named_theorems node_frame \<open>fields of the worker after the small steps\<close>

lemma metric_frame [node_frame]:
  "nwMu (metric c w) = nwMu w" "nwID (metric c w) = nwID w" "nwGPUs (metric c w) = nwGPUs w"
  "nwStatus (metric c w) = nwStatus w" "nwActiveTasks (metric c w) = nwActiveTasks w"
  "nwPaused (metric c w) = nwPaused w" "nwMetricFrequency (metric c w) = nwMetricFrequency w"
  "nwGPUAllocation (metric c w) = nwGPUAllocation w" "nwHasMetrics (metric c w) = nwHasMetrics w"
  "nwHeap (metric c w) = nwHeap w" "nwTick (metric c w) = nwTick w"
  by (simp_all add: metric_def)

text \<open>The hooks of \<^verbatim>\<open>metrics.go\<close> change the calls made and the clock only.\<close>

definition measured :: "NodeWorker \<Rightarrow> NodeWorker \<Rightarrow> bool" where
  "measured w w' \<longleftrightarrow> (\<exists>c t. w' = w\<lparr>nwMetricCalls := c, nwTick := t\<rparr>)"

lemma measured_refl [simp]: "measured w w"
proof -
  have "w = w\<lparr>nwMetricCalls := nwMetricCalls w, nwTick := nwTick w\<rparr>" by simp
  then show ?thesis unfolding measured_def by blast
qed

lemma measured_trans [trans]: "measured u v \<Longrightarrow> measured v w \<Longrightarrow> measured u w"
  unfolding measured_def by force

lemma measured_metric [simp]: "measured w (metric c w)"
proof -
  have "metric c w = w\<lparr>nwMetricCalls := nwMetricCalls w @ [c], nwTick := nwTick w\<rparr>" by (simp add: metric_def)
  then show ?thesis unfolding measured_def by blast
qed

lemma measured_tick [simp]: "measured w (node_tick w)"
proof -
  have "node_tick w = w\<lparr>nwMetricCalls := nwMetricCalls w, nwTick := Suc (nwTick w)\<rparr>" by (simp add: node_tick_def)
  then show ?thesis unfolding measured_def by blast
qed

lemma measured_fold: "(\<And>x w. measured w (f x w)) \<Longrightarrow> measured w (fold f xs w)"
proof (induction xs arbitrary: w)
  case (Cons x xs)
  then have "measured w (f x w)" "measured (f x w) (fold f xs (f x w))" by blast+
  then show ?case by (simp add: measured_trans)
qed simp

lemma measured_gauge_gpu: "measured w (gauge_gpu E k w)"
  unfolding gauge_gpu_def Let_def using measured_trans [OF measured_metric measured_metric] .

lemma measured_gauge_task: "measured w (gauge_task p w)"
  by (simp add: gauge_task_def)

lemma measured_mu: "measured (w\<lparr>nwMu := m\<rparr>) w' \<Longrightarrow> nwMu w' = m \<and> measured w (w'\<lparr>nwMu := nwMu w\<rparr>)"
  unfolding measured_def by (cases w) force

lemma measuredD:
  assumes "measured w w'"
  shows "nwMu w' = nwMu w" "nwID w' = nwID w" "nwAddress w' = nwAddress w" "nwGPUs w' = nwGPUs w"
    "nwStatus w' = nwStatus w" "nwActiveTasks w' = nwActiveTasks w" "nwPaused w' = nwPaused w"
    "nwMetricFrequency w' = nwMetricFrequency w" "nwTaskPriority w' = nwTaskPriority w"
    "nwGPUAllocation w' = nwGPUAllocation w" "nwHasMetrics w' = nwHasMetrics w" "nwHeap w' = nwHeap w"
    "nwHeapNext w' = nwHeapNext w" "nwReports w' = nwReports w" "nwRunning w' = nwRunning w"
    "nwCleanups w' = nwCleanups w"
  using assms by (auto simp: measured_def)

section \<open>Critical sections with a free mutex\<close>

text \<open>A section ends with the mutex free again; a read section that changes nothing gives the state back.\<close>

context rw_lock
begin

lemma node_lock_free:
  assumes "node_mutex E = ops" and "nwMu w = unlocked"
    and "body (w\<lparr>nwMu := write_locked\<rparr>) = Done r (w'\<lparr>nwMu := write_locked\<rparr>)" and "nwMu w' = unlocked"
  shows "node_lock E body w = Done r w'"
  using assms(4) by (cases w') (simp add: node_lock_def node_locked_def assms(1-3) lock_free unlock_held)

lemma node_rlock_free:
  assumes "node_mutex E = ops" and "nwMu w = unlocked"
    and "body (w\<lparr>nwMu := unlocked\<lparr>rw_readers := 1\<rparr>\<rparr>) = Done r (w'\<lparr>nwMu := unlocked\<lparr>rw_readers := 1\<rparr>\<rparr>)"
    and "nwMu w' = unlocked"
  shows "node_rlock E body w = Done r w'"
  using assms(4) rlock_free runlock_free assms(3)
  by (cases w') (simp add: node_rlock_def node_locked_def assms(1,2))

lemma node_updateMetrics_free:
  assumes "node_mutex E = ops" and "nwMu w = unlocked"
  shows "\<exists>w'. node_updateMetrics E w = Done () w' \<and> measured w w'"
proof (cases "nwHasMetrics w")
  case True
  let ?w = "w\<lparr>nwMu := unlocked\<lparr>rw_readers := 1\<rparr>\<rparr>"
  let ?u = "metric (SetWorkerStatus (nwStatus ?w)) ?w"
  let ?v = "fold (gauge_gpu E) [0..<length (nwGPUs ?u)] ?u"
  let ?x = "node_tick (fold gauge_task (visit_tasks E (length (nwGPUs ?v)) ?v) ?v)"
  have "measured ?w ?u" "measured ?u ?v" by (simp, rule measured_fold, rule measured_gauge_gpu)
  then have "measured ?w ?v" by (rule measured_trans)
  also have "measured ?v (fold gauge_task (visit_tasks E (length (nwGPUs ?v)) ?v) ?v)"
    by (rule measured_fold) (rule measured_gauge_task)
  also have "measured \<dots> ?x" by simp
  finally have x: "nwMu ?x = unlocked\<lparr>rw_readers := 1\<rparr> \<and> measured w (?x\<lparr>nwMu := nwMu w\<rparr>)"
    by (rule measured_mu)
  then have restore: "(?x\<lparr>nwMu := nwMu w\<rparr>)\<lparr>nwMu := unlocked\<lparr>rw_readers := 1\<rparr>\<rparr> = ?x" by (cases ?x) simp
  have "node_rlock E (block
        [act (\<lambda>w. metric (SetWorkerStatus (nwStatus w)) w),
         act (\<lambda>w. fold (gauge_gpu E) [0..<length (nwGPUs w)] w),
         act (\<lambda>w. node_tick (fold gauge_task (visit_tasks E (length (nwGPUs w)) w) w))]) w
      = Done () (?x\<lparr>nwMu := nwMu w\<rparr>)"
  proof (rule node_rlock_free [OF assms])
    show "nwMu (?x\<lparr>nwMu := nwMu w\<rparr>) = unlocked" using assms(2) by simp
  qed (simp only: block.simps act_def bind_res.simps restore)
  then have "node_updateMetrics E w = Done () (?x\<lparr>nwMu := nwMu w\<rparr>)" using True by (simp add: node_updateMetrics_def)
  with x show ?thesis by blast
qed (simp add: node_updateMetrics_def)

text \<open>Reading \<^verbatim>\<open>w.Paused\<close> and sending a report.\<close>

lemma read_free:
  assumes "node_mutex E = ops" and "nwMu w = unlocked" and "\<And>m. f (w\<lparr>nwMu := m\<rparr>) = f w"
  shows "node_rlock E (\<lambda>w. Done (f w) w) w = Done (f w) w"
  by (rule node_rlock_free [OF assms(1,2)]) (simp_all add: assms(2,3))

lemma reportTaskStatus_free:
  assumes "node_mutex E = ops" and "nwMu w = unlocked"
  shows "reportTaskStatus E a w = Done () (w\<lparr>nwReports := nwReports w @ [status_report (nwHeap w a) w]\<rparr>)"
proof -
  have "status_report (nwHeap (w\<lparr>nwMu := m\<rparr>) a) (w\<lparr>nwMu := m\<rparr>) = status_report (nwHeap w a) w" for m
    by (simp add: status_report_def)
  from read_free [OF assms, of "\<lambda>w. status_report (nwHeap w a) w", OF this]
  show ?thesis by (simp add: reportTaskStatus_def)
qed

lemma paused_turn:
  assumes "node_mutex E = ops" and "nwMu w = unlocked" and "nwPaused w" and "nwRunning w = (a, p) # rest" and "in_loop p"
  shows "run_turn E False 0 w = Done () (w\<lparr>nwRunning := (a, next_progress p) # rest\<rparr>)"
proof -
  have "node_rlock E (\<lambda>w. Done (nwPaused w) w) w = Done True w"
    using read_free [OF assms(1,2), of nwPaused] assms(3) by simp
  then show ?thesis by (simp add: run_turn_def assms(4,5) task_turn_def)
qed

lemma node_recordTaskCompletion_free:
  assumes E: "node_mutex E = ops" and w: "nwMu w = unlocked"
  shows "\<exists>w'. node_recordTaskCompletion E a w = Done () w' \<and> measured w w'"
proof (cases "nwHasMetrics w")
  case True
  define t where "t = nwHeap w a"
  define v where "v = metric (SetTaskProgress (ntID t) (ntName t) (ntProgress t))
      (metric (DeleteTaskStartTime (nwID w) (ntID t) (ntName t)) w)"
  have v: "measured w v" unfolding v_def using measured_trans [OF measured_metric measured_metric] .
  then have "nwMu v = unlocked" using measuredD(1) w by metis
  from node_updateMetrics_free [OF E this] obtain w' where
    "node_updateMetrics E v = Done () w'" "measured v w'" by blast
  moreover from this have "node_recordTaskCompletion E a w = Done () w'"
    using True by (simp add: node_recordTaskCompletion_def Let_def act_def v_def t_def)
  ultimately show ?thesis using measured_trans [OF v] by blast
qed (simp add: node_recordTaskCompletion_def)

lemma complete_task_free:
  assumes E: "node_mutex E = ops" and w: "nwMu w = unlocked" "\<not> ntDone (nwHeap w a)"
  shows "\<exists>w'. complete_task E a w = Done () w' \<and> nwMu w' = unlocked \<and> nwRunning w' = nwRunning w
     \<and> nwHeap w' = (nwHeap w)(a := (nwHeap w a)\<lparr>ntStatus := TaskStatus_COMPLETED, ntProgress := Fin 1, ntDone := True\<rparr>)
     \<and> nwActiveTasks w' = mdel (ntID (nwHeap w a)) (nwActiveTasks w)
     \<and> nwGPUs w' = free_gpus (ntGPUIDs (nwHeap w a)) (nwGPUs w)
     \<and> nwReports w' = nwReports w @ [status_report ((nwHeap w a)\<lparr>ntStatus := TaskStatus_COMPLETED, ntProgress := Fin 1\<rparr>) w]"
proof -
  let ?f = "\<lambda>t. t\<lparr>ntStatus := TaskStatus_COMPLETED, ntProgress := Fin 1\<rparr>"
  let ?w1 = "set_task a ?f w"
  have s1: "node_lock E (act (set_task a ?f)) w = Done () ?w1"
    by (rule node_lock_free [OF E w(1)]) (simp_all add: act_def set_task_def w(1))
  have w1: "nwMu ?w1 = unlocked" "nwRunning ?w1 = nwRunning w" "nwHeap ?w1 a = ?f (nwHeap w a)"
    "nwActiveTasks ?w1 = nwActiveTasks w" "nwGPUs ?w1 = nwGPUs w" by (simp_all add: set_task_def w(1))
  obtain w2 where s2: "node_recordTaskCompletion E a ?w1 = Done () w2" and m: "measured ?w1 w2"
    using node_recordTaskCompletion_free [OF E w1(1)] by blast
  note w2 = measuredD [OF m]
  let ?w3 = "w2\<lparr>nwReports := nwReports w2 @ [status_report (nwHeap w2 a) w2]\<rparr>"
  have s3: "reportTaskStatus E a w2 = Done () ?w3" by (rule reportTaskStatus_free [OF E]) (simp add: w2 w1)
  let ?w4 = "idle_if_none (remove_task (ntID (nwHeap ?w3 a)) a ?w3)"
  have s4: "node_lock E (act (\<lambda>w. idle_if_none (remove_task (ntID (nwHeap w a)) a w))) ?w3 = Done () ?w4"
    by (rule node_lock_free [OF E]) (simp_all add: w2 w1 act_def idle_if_none_def remove_task_def)
  have "complete_task E a w = Done () (set_task a (\<lambda>t. t\<lparr>ntDone := True\<rparr>) ?w4)"
    unfolding complete_task_def block.simps s1 bind_res.simps s2 s3 s4
    by (simp add: close_done_def idle_if_none_def remove_task_def w2 w1 w(2))
  then show ?thesis
    by (simp add: set_task_def idle_if_none_def remove_task_def) (simp add: w2 w1 set_task_def w(1) status_report_def)
qed

end

lemma node_lock_body:
  assumes "node_mutex E \<in> {go_rwmutex, reentrant_rwmutex}" and "nwMu w = unlocked"
    and "body (w\<lparr>nwMu := write_locked\<rparr>) = Done r (w'\<lparr>nwMu := write_locked\<rparr>)" and "nwMu w' = unlocked"
  shows "node_lock E body w = Done r w'"
proof -
  consider "node_mutex E = go_rwmutex" | "node_mutex E = reentrant_rwmutex" using assms(1) by blast
  then show ?thesis
  proof cases
    case 1
    then show ?thesis by (rule go_mutex.node_lock_free) (fact assms)+
  next
    case 2
    then show ?thesis by (rule re_mutex.node_lock_free) (fact assms)+
  qed
qed

section \<open>The loop of a running task\<close>

text \<open>\<open>n\<close> turns of the first goroutine.\<close>

abbreviation turns :: "nat \<Rightarrow> node_event list" where
  "turns n \<equiv> replicate n (Turn False 0)"

context rw_lock
begin

lemma paused_turns:
  assumes "node_mutex E = ops" and "nwMu w = unlocked" and "nwPaused w"
    and "nwRunning w = (a, progress_at k) # rest" and "k + n \<le> 20"
  shows "node_run E (turns n) w = Done () (w\<lparr>nwRunning := (a, progress_at (k + n)) # rest\<rparr>)"
  using assms(2-5)
proof (induction n arbitrary: k w)
  case (Suc n)
  let ?w = "w\<lparr>nwRunning := (a, progress_at (Suc k)) # rest\<rparr>"
  have "in_loop (progress_at k)" using Suc.prems(4) by (simp add: in_loop_iff)
  from paused_turn [OF assms(1) Suc.prems(1-3) this]
  have "run_turn E False 0 w = Done () ?w" by (simp add: progress_at_def)
  moreover have "node_run E (turns n) ?w = Done () (?w\<lparr>nwRunning := (a, progress_at (Suc k + n)) # rest\<rparr>)"
    by (rule Suc.IH) (use Suc.prems in simp_all)
  ultimately show ?case using Suc.prems(3) by simp
next
  case 0
  then have "w\<lparr>nwRunning := (a, progress_at k) # rest\<rparr> = w" by (cases w) simp
  then show ?case by simp
qed

lemma paused_completes:
  assumes "node_mutex E = ops" and "nwMu w = unlocked" and "nwPaused w"
    and "nwRunning w = (a, Fin 0) # rest" and "\<not> ntDone (nwHeap w a)"
  shows "\<exists>w'. node_run E (turns 21) w = Done () w' \<and> nwRunning w' = rest
     \<and> nwHeap w' = (nwHeap w)(a := (nwHeap w a)\<lparr>ntStatus := TaskStatus_COMPLETED, ntProgress := Fin 1, ntDone := True\<rparr>)
     \<and> nwActiveTasks w' = mdel (ntID (nwHeap w a)) (nwActiveTasks w)
     \<and> nwGPUs w' = free_gpus (ntGPUIDs (nwHeap w a)) (nwGPUs w)
     \<and> nwReports w' = nwReports w @ [status_report ((nwHeap w a)\<lparr>ntStatus := TaskStatus_COMPLETED, ntProgress := Fin 1\<rparr>) w]"
proof -
  let ?w = "w\<lparr>nwRunning := (a, progress_at 20) # rest\<rparr>"
  have "nwRunning w = (a, progress_at 0) # rest" using assms(4) by (simp add: progress_at_def)
  from paused_turns [OF assms(1-3) this, of 20] have "node_run E (turns 20) w = Done () ?w" by simp
  moreover have "turns 21 = turns 20 @ [Turn False 0]"
    using replicate_append_same [of 20 "Turn False 0"] by (simp add: replicate_Suc [symmetric] del: replicate_Suc)
  ultimately have "node_run E (turns 21) w = node_run E [Turn False 0] ?w" by (simp add: node_run_append del: node_run.simps)
  moreover obtain w' where w': "complete_task E a ?w = Done () w'" "nwRunning w' = (a, progress_at 20) # rest"
    "nwHeap w' = (nwHeap w)(a := (nwHeap w a)\<lparr>ntStatus := TaskStatus_COMPLETED, ntProgress := Fin 1, ntDone := True\<rparr>)"
    "nwActiveTasks w' = mdel (ntID (nwHeap w a)) (nwActiveTasks w)"
    "nwGPUs w' = free_gpus (ntGPUIDs (nwHeap w a)) (nwGPUs w)"
    "nwReports w' = nwReports w @ [status_report ((nwHeap w a)\<lparr>ntStatus := TaskStatus_COMPLETED, ntProgress := Fin 1\<rparr>) w]"
    using complete_task_free [OF assms(1), of ?w a] assms(2,5) by (auto simp: status_report_def)
  moreover have "\<not> in_loop (progress_at 20)" by (simp add: in_loop_iff)
  ultimately show ?thesis by (simp add: run_turn_def act_def)
qed

end

lemma paused_completes_either:
  assumes "node_mutex E \<in> {go_rwmutex, reentrant_rwmutex}" and "nwMu w = unlocked" and "nwPaused w"
    and "nwRunning w = (a, Fin 0) # rest" and "\<not> ntDone (nwHeap w a)"
  obtains w' where "node_run E (turns 21) w = Done () w'" "nwRunning w' = rest"
    "nwHeap w' = (nwHeap w)(a := (nwHeap w a)\<lparr>ntStatus := TaskStatus_COMPLETED, ntProgress := Fin 1, ntDone := True\<rparr>)"
    "nwActiveTasks w' = mdel (ntID (nwHeap w a)) (nwActiveTasks w)"
    "nwGPUs w' = free_gpus (ntGPUIDs (nwHeap w a)) (nwGPUs w)"
    "nwReports w' = nwReports w @ [status_report ((nwHeap w a)\<lparr>ntStatus := TaskStatus_COMPLETED, ntProgress := Fin 1\<rparr>) w]"
proof -
  consider "node_mutex E = go_rwmutex" | "node_mutex E = reentrant_rwmutex" using assms(1) by blast
  then show thesis
    using go_mutex.paused_completes [OF _ assms(2-5)] re_mutex.paused_completes [OF _ assms(2-5)] that
    by cases blast+
qed

section \<open>Properties of running tasks\<close>

text \<open>The loop that runs a task makes exactly twenty turns with \<^verbatim>\<open>float64\<close> progress, whatever happens in them:
  the sum of twenty steps of 0.05 is already above 1.0, so no report of a running task says 100%.\<close>

theorem progress_loop_is_twenty_turns:
  "map (\<lambda>n. in_loop ((next_progress ^^ n) (Fin 0))) [0..<21] = replicate 20 True @ [False]"
proof -
  have "map (\<lambda>n. in_loop (progress_at n)) [0..<21] = map (\<lambda>n. n < 20) [0..<21]"
    by (rule map_cong [OF refl]) (simp add: in_loop_iff)
  also have "\<dots> = replicate 20 True @ [False]" by code_simp
  finally show ?thesis by (simp only: progress_at_def)
qed

text \<open>C33: Pausing a worker does not stop its tasks: the \<^verbatim>\<open>continue\<close> of a paused turn still advances the loop variable, so
  after twenty paused turns the goroutine ends. Exactly one report has been sent meanwhile: it tells the
  scheduler that the task is COMPLETED with progress 1, with the metrics the task had before, as not one has been computed. The task is
  no longer active and its GPUs are free.\<close>

theorem paused_task_completes:
  assumes "node_mutex E \<in> {go_rwmutex, reentrant_rwmutex}" and "nwMu w = unlocked" and "nwPaused w"
    and "nwRunning w = (a, Fin 0) # rest" and "\<not> ntDone (nwHeap w a)"
  shows "\<exists>w' msg. node_run E (turns 21) w = Done () w' \<and> nwRunning w' = rest \<and> ntStatus (nwHeap w' a) = TaskStatus_COMPLETED
     \<and> nwReports w' = nwReports w @ [\<lparr>tuTaskId = ntID (nwHeap w a), tuWorkerId = nwID w, tuStatus = TaskStatus_COMPLETED,
          tuProgress = Fin 1, tuMessage = msg, tuMetrics = ntMetrics (nwHeap w a)\<rparr>]
     \<and> ntMetrics (nwHeap w' a) = ntMetrics (nwHeap w a) \<and> ntDone (nwHeap w' a)
     \<and> map_of (nwActiveTasks w') (ntID (nwHeap w a)) = None \<and> nwGPUs w' = free_gpus (ntGPUIDs (nwHeap w a)) (nwGPUs w)"
proof -
  obtain w' where w': "node_run E (turns 21) w = Done () w'" "nwRunning w' = rest"
    "nwHeap w' = (nwHeap w)(a := (nwHeap w a)\<lparr>ntStatus := TaskStatus_COMPLETED, ntProgress := Fin 1, ntDone := True\<rparr>)"
    "nwActiveTasks w' = mdel (ntID (nwHeap w a)) (nwActiveTasks w)"
    "nwGPUs w' = free_gpus (ntGPUIDs (nwHeap w a)) (nwGPUs w)"
    "nwReports w' = nwReports w @ [status_report ((nwHeap w a)\<lparr>ntStatus := TaskStatus_COMPLETED, ntProgress := Fin 1\<rparr>) w]"
    by (rule paused_completes_either [OF assms])
  show ?thesis
    by (intro exI [of _ w'] exI [of _ "progress_message ((nwHeap w a)\<lparr>ntStatus := TaskStatus_COMPLETED, ntProgress := Fin 1\<rparr>)"])
      (simp add: w' status_report_def)
qed

definition node_example :: NodeWorker where
  "node_example = \<lparr>nwMu = unlocked, nwID = ''w1'', nwAddress = ''host'', nwGPUs = [node_gpu ''0'' 8 False],
     nwStatus = WorkerStatus_BUSY, nwActiveTasks = [(''t1'', 0)], nwPaused = True,
     nwMetricFrequency = 2000000000, nwTaskPriority = [], nwGPUAllocation = ''packed'', nwHasMetrics = True,
     nwHeap = (\<lambda>_. blank_task)(0 := blank_task\<lparr>ntID := ''t1'', ntStatus := TaskStatus_RUNNING, ntGPUIDs := [''0'']\<rparr>),
     nwHeapNext = 1, nwReports = [], nwMetricCalls = [], nwRunning = [(0, Fin 0)], nwCleanups = [], nwTick = 0\<rparr>"

definition node_example_env :: "mutex_ops \<Rightarrow> node_env" where
  "node_example_env ops = \<lparr>node_mutex = ops, node_clock = (\<lambda>n. int n), node_orders = (\<lambda>_ _. [])\<rparr>"

theorem paused_task_completes_witness:
  "\<exists>w'. node_run (node_example_env go_rwmutex) (turns 21) node_example = Done () w'
     \<and> ntStatus (nwHeap w' 0) = TaskStatus_COMPLETED \<and> ntMetrics (nwHeap w' 0) = []
     \<and> map tuStatus (nwReports w') = [TaskStatus_COMPLETED]"
proof -
  have E: "node_mutex (node_example_env go_rwmutex) \<in> {go_rwmutex, reentrant_rwmutex}"
    by (simp add: node_example_env_def)
  have w: "nwMu node_example = unlocked" "nwPaused node_example" "nwRunning node_example = [(0, Fin 0)]"
    "\<not> ntDone (nwHeap node_example 0)" "ntMetrics (nwHeap node_example 0) = []" "nwReports node_example = []"
    by (simp_all add: node_example_def blank_task_def)
  from paused_task_completes [OF E w(1-4)] show ?thesis unfolding w(5,6) by fastforce
qed

section \<open>Where the worker's mutex blocks it\<close>

text \<open>A status update that names no GPU and changes the worker's status calls \<^verbatim>\<open>recordStatusChange\<close>, which read-locks the mutex the
  update holds: with Go's mutex and metrics switched on the update blocks for ever, and after it every further request,
  report and turn of a task does too.\<close>

theorem go_status_change_blocks:
  assumes E: "node_mutex E = go_rwmutex" and w: "nwMu w = unlocked" "nwHasMetrics w"
    and resp: "wsStatus resp \<noteq> nwStatus w" "wsGpus resp = []"
  shows "\<exists>u. processStatusUpdate E resp w = Stuck u \<and> nwMu u = write_locked
     \<and> poll_turn E client u = Stuck u \<and> processStatusUpdate E resp' u = Stuck u
     \<and> reportTaskStatus E a u = Stuck u \<and> task_turn E cancelled a p u = Stuck u"
proof -
  let ?w = "w\<lparr>nwMu := write_locked\<rparr>"
  let ?u = "metric (SetWorkerStatus (wsStatus resp)) (?w\<lparr>nwStatus := wsStatus resp\<rparr>)"
  have sync: "sync_gpus (wsGpus resp) ?w = ?w" by (simp add: sync_gpus_def resp(2))
  have u: "nwMu ?u = write_locked" by (simp add: node_frame)
  have "node_updateMetrics E ?u = Stuck ?u"
    by (simp add: node_updateMetrics_def node_rlock_def node_locked_def E node_frame w(2) go_mutex.rlock_blocks)
  then have "recordStatusChange E (?w\<lparr>nwStatus := wsStatus resp\<rparr>) = Stuck ?u"
    by (simp add: recordStatusChange_def act_def node_frame w(2))
  then have "processStatusUpdate E resp w = Stuck ?u"
    by (simp add: processStatusUpdate_def node_lock_def node_locked_def E w go_mutex.lock_free act_def
        sync_status_def sync [unfolded resp(2)] resp)
  moreover have "node_lock E body ?u = Stuck ?u" "node_rlock E body ?u = Stuck ?u"
    for body :: "NodeWorker \<Rightarrow> ('q, NodeWorker) res"
    by (simp_all add: node_lock_def node_rlock_def node_locked_def E u go_mutex.lock_held go_mutex.rlock_blocks)
  ultimately show ?thesis using u
    by (intro exI [of _ ?u]) (simp add: poll_turn_def reportTaskStatus_def task_turn_def returning_def
        node_lock_def node_rlock_def node_locked_def E go_mutex.lock_held go_mutex.rlock_blocks processStatusUpdate_def)
qed

definition status_message :: WorkerStatusResponse where
  "status_message = \<lparr>wsWorkerId = ''w1'', wsStatus = WorkerStatus_IDLE, wsGpus = [], wsActiveTasks = [],
     wsTimestamp = 0, wsCommand = None\<rparr>"

theorem go_status_change_blocks_witness:
  "\<exists>u. processStatusUpdate (node_example_env go_rwmutex) status_message node_example = Stuck u \<and> nwMu u = write_locked"
proof -
  have "node_mutex (node_example_env go_rwmutex) = go_rwmutex" by (simp add: node_example_env_def)
  moreover have "nwMu node_example = unlocked" "nwHasMetrics node_example"
    "wsStatus status_message \<noteq> nwStatus node_example" "wsGpus status_message = []"
    by (simp_all add: node_example_def status_message_def)
  ultimately show ?thesis
    using go_status_change_blocks [of "node_example_env go_rwmutex" node_example status_message] by blast
qed

lemma Stop_waits:
  assumes "node_mutex E \<in> {go_rwmutex, reentrant_rwmutex}" and "nwMu w = unlocked"
    and "(k, a) \<in> set (nwActiveTasks w)" and "\<not> ntDone (nwHeap w a)"
  shows "\<exists>u. node_Stop E w = Stuck u"
proof -
  have "\<not> list_all (\<lambda>(_, a). ntDone (nwHeap w a)) (nwActiveTasks w)" using assms(3,4) by (auto simp: list_all_iff)
  then show ?thesis using assms(1) go_mutex.rlock_free re_mutex.rlock_free
    by (auto simp: node_Stop_def node_rlock_def node_locked_def assms(2))
qed

text \<open>C34: \<^verbatim>\<open>Stop\<close> read-locks the worker and then waits for its tasks to end. A task that is still active
  needs the write lock to end, be cancelled or be removed, so \<^verbatim>\<open>Stop\<close> waits for ever: the
  worker cannot be stopped while a task runs.\<close>

theorem stop_waits_for_ever:
  assumes "node_mutex E \<in> {go_rwmutex, reentrant_rwmutex}" and "nwMu w = unlocked"
    and "(k, a) \<in> set (nwActiveTasks w)" and "\<not> ntDone (nwHeap w a)"
  shows "\<exists>u. node_Stop E w = Stuck u \<and> \<not> ntDone (nwHeap u a)
     \<and> complete_task E b u = Stuck u \<and> task_turn E True b p u = Stuck u \<and> run_cleanup E c u = Stuck u"
proof -
  let ?u = "w\<lparr>nwMu := unlocked\<lparr>rw_readers := 1\<rparr>\<rparr>"
  have held: "m_lock (node_mutex E) (unlocked\<lparr>rw_readers := 1\<rparr>) = None"
    and rlock: "m_rlock (node_mutex E) unlocked = Some (unlocked\<lparr>rw_readers := 1\<rparr>)"
    using assms(1) go_mutex.rlock_free re_mutex.rlock_free
    by (auto simp: go_rwmutex_def reentrant_rwmutex_def unlocked_def)
  have lock: "node_lock E body ?u = Stuck ?u" for body :: "NodeWorker \<Rightarrow> (unit, NodeWorker) res"
    by (simp add: node_lock_def node_locked_def held [simplified])
  have "\<not> list_all (\<lambda>(_, a). ntDone (nwHeap w a)) (nwActiveTasks w)"
    using assms(3,4) by (auto simp: list_all_iff)
  then have "node_Stop E w = Stuck ?u"
    by (simp add: node_Stop_def node_rlock_def node_locked_def assms(2) rlock [simplified])
  moreover have "run_cleanup E c ?u = Stuck ?u" by (cases c) (simp_all add: lock [simplified])
  ultimately show ?thesis using assms(4)
    by (intro exI [of _ ?u]) (simp add: complete_task_def task_turn_def returning_def lock [simplified])
qed

theorem stop_waits_for_ever_witness:
  "\<exists>u. node_Stop (node_example_env go_rwmutex) node_example = Stuck u
     \<and> complete_task (node_example_env go_rwmutex) 0 u = Stuck u"
proof -
  have "node_mutex (node_example_env go_rwmutex) \<in> {go_rwmutex, reentrant_rwmutex}"
    by (simp add: node_example_env_def)
  moreover have "nwMu node_example = unlocked" "(''t1'', 0) \<in> set (nwActiveTasks node_example)"
    "\<not> ntDone (nwHeap node_example 0)"
    by (simp_all add: node_example_def blank_task_def)
  ultimately show ?thesis
    using stop_waits_for_ever [of "node_example_env go_rwmutex" node_example "''t1''" 0 0] by blast
qed

section \<open>Log lines that end the worker\<close>

lemma node_lock_panics:
  assumes "node_mutex E \<in> {go_rwmutex, reentrant_rwmutex}" and "nwMu w = unlocked"
    and "body (w\<lparr>nwMu := write_locked\<rparr>) = Panicked u"
  shows "node_lock E body w = Panicked u"
  using assms by (auto simp: node_lock_def node_locked_def go_mutex.lock_free re_mutex.lock_free)

lemma node_read_either:
  assumes "node_mutex E \<in> {go_rwmutex, reentrant_rwmutex}" and "nwMu w = unlocked" and "\<And>m. f (w\<lparr>nwMu := m\<rparr>) = f w"
  shows "node_rlock E (\<lambda>w. Done (f w) w) w = Done (f w) w"
  using assms(1) go_mutex.read_free [OF _ assms(2), of E f, OF _ assms(3)]
    re_mutex.read_free [OF _ assms(2), of E f, OF _ assms(3)] by blast

lemma node_rlock_either:
  assumes "node_mutex E \<in> {go_rwmutex, reentrant_rwmutex}" and "nwMu w = unlocked"
    and "body (w\<lparr>nwMu := unlocked\<lparr>rw_readers := 1\<rparr>\<rparr>) = Done r (w'\<lparr>nwMu := unlocked\<lparr>rw_readers := 1\<rparr>\<rparr>)"
    and "nwMu w' = unlocked"
  shows "node_rlock E body w = Done r w'"
proof -
  consider "node_mutex E = go_rwmutex" | "node_mutex E = reentrant_rwmutex" using assms(1) by blast
  then show ?thesis
  proof cases
    case 1
    then show ?thesis by (rule go_mutex.node_rlock_free) (fact assms)+
  next
    case 2
    then show ?thesis by (rule re_mutex.node_rlock_free) (fact assms)+
  qed
qed

lemma gpu_message_panics:
  assumes "node_mutex E \<in> {go_rwmutex, reentrant_rwmutex}" and "nwMu w = unlocked" and "wsGpus resp \<noteq> []"
  shows "receive_status E resp w = Panicked (w\<lparr>nwMu := write_locked\<rparr>)"
proof -
  have "processStatusUpdate E resp w = Panicked (w\<lparr>nwMu := write_locked\<rparr>)"
    unfolding processStatusUpdate_def by (rule node_lock_panics [OF assms(1,2)]) (simp add: assms(3))
  then show ?thesis by (simp add: receive_status_def)
qed

text \<open>C35: Four log lines of the worker are written with a nil map of fields and panic. So the worker crashes when it
  receives a status message that names a GPU, when it asks for a task while it is paused, when it is sent \<^verbatim>\<open>SYNC_STATE\<close>, and
  at the end of \<^verbatim>\<open>Stop\<close> if every task it holds has ended, whatever else its state is. While a task runs \<^verbatim>\<open>Stop\<close> does not return
  either.\<close>

theorem nil_log_fields_crash:
  assumes "node_mutex E \<in> {go_rwmutex, reentrant_rwmutex}" and "nwMu w = unlocked"
  shows "(wsGpus resp \<noteq> [] \<longrightarrow> is_panic (receive_status E resp w)) \<and> (nwPaused w \<longrightarrow> is_panic (poll_turn E client w))
     \<and> is_panic (handleCommand E \<lparr>wcType = ''SYNC_STATE'', wcParams = ps\<rparr> w)
     \<and> (if list_all (\<lambda>(_, a). ntDone (nwHeap w a)) (nwActiveTasks w) then is_panic (node_Stop E w) else \<exists>u. node_Stop E w = Stuck u)"
proof -
  have "poll_request (w\<lparr>nwMu := m\<rparr>) = poll_request w" for m by (simp add: poll_request_def)
  then have "node_rlock E (\<lambda>w. Done (nwPaused w, poll_request w) w) w = Done (nwPaused w, poll_request w) w"
    using node_read_either [OF assms, of "\<lambda>w. (nwPaused w, poll_request w)"] by simp
  then have "nwPaused w \<Longrightarrow> is_panic (poll_turn E client w)" by (simp add: poll_turn_def)
  moreover have "is_panic (node_Stop E w)" if "list_all (\<lambda>(_, a). ntDone (nwHeap w a)) (nwActiveTasks w)"
  proof -
    have "node_rlock E (\<lambda>w. if list_all (\<lambda>(_, a). ntDone (nwHeap w a)) (nwActiveTasks w) then Done () w else Stuck w) w = Done () w"
      using that by (intro node_rlock_either [OF assms]) (simp_all add: assms(2))
    then show ?thesis by (simp add: node_Stop_def)
  qed
  moreover have "\<exists>u. node_Stop E w = Stuck u" if "\<not> list_all (\<lambda>(_, a). ntDone (nwHeap w a)) (nwActiveTasks w)"
    using assms(1) that go_mutex.rlock_free re_mutex.rlock_free
    by (auto simp: node_Stop_def node_rlock_def node_locked_def assms(2))
  ultimately show ?thesis using gpu_message_panics [OF assms] by (simp add: handleCommand_def)
qed

theorem nil_log_fields_crash_witness:
  "is_panic (receive_status (node_example_env go_rwmutex) (status_message\<lparr>wsGpus := [node_gpu ''0'' 8 True]\<rparr>) node_example)
     \<and> is_panic (poll_turn (node_example_env go_rwmutex) (\<lambda>_. Inl (NotFound, '''')) node_example)"
proof -
  have "node_mutex (node_example_env go_rwmutex) \<in> {go_rwmutex, reentrant_rwmutex}" "nwMu node_example = unlocked"
    by (simp_all add: node_example_env_def node_example_def)
  from nil_log_fields_crash [OF this, of "status_message\<lparr>wsGpus := [node_gpu ''0'' 8 True]\<rparr>"]
  show ?thesis by (simp add: node_example_def)
qed

section \<open>Settings\<close>

definition settings_ok :: "NodeWorker \<Rightarrow> bool" where
  "settings_ok w \<longleftrightarrow> 100000000 \<le> nwMetricFrequency w \<and> nwMetricFrequency w \<le> 60000000000
     \<and> List.member validStrategies (nwGPUAllocation w)"

interpretation settings: node_invariant settings_ok E for E
  by unfold_locales
    (auto simp: settings_ok_def node_tick_def remove_task_def sync_gpus_def begin_task_def set_task_def
      gauge_gpu_def metric_def Let_def split: prod.split)

text \<open>C40: Whatever the scheduler sends and in whatever order the goroutines run, blocked or not, the metric interval stays
  between 100 milliseconds and one minute and the allocation strategy is one of the four known ones.\<close>

theorem settings_stay_in_bounds:
  assumes "node_reached E w"
  shows "100000000 \<le> nwMetricFrequency w \<and> nwMetricFrequency w \<le> 60000000000
     \<and> nwGPUAllocation w \<in> {''packed'', ''spread'', ''memory'', ''performance''}"
proof -
  have "settings_ok w"
    by (rule settings.reached [OF assms]) (auto simp: NewWorker_def settings_ok_def validStrategies_def)
  then show ?thesis by (auto simp: settings_ok_def validStrategies_def)
qed

theorem settings_stay_in_bounds_witness:
  "nwMetricFrequency (final_state (node_step (node_example_env go_rwmutex) (Receive status_message)
       (projr (NewWorker None None ''host'' [])))) \<le> 60000000000"
proof -
  let ?w = "projr (NewWorker None None ''host'' [])"
  have new: "NewWorker None None ''host'' [] = Inr ?w" by (simp add: NewWorker_def)
  have "?w\<lparr>nwID := nwID ?w, nwHasMetrics := nwHasMetrics ?w\<rparr> = ?w" by simp
  with node_reached.start [OF new, where E = "node_example_env go_rwmutex" and i = "nwID ?w" and b = "nwHasMetrics ?w"]
  have "node_reached (node_example_env go_rwmutex) ?w" by simp
  from settings_stay_in_bounds [OF node_reached.step [OF this]] show ?thesis by blast
qed

text \<open>A metric interval sent in milliseconds takes effect exactly when it is within the bounds, and is ignored
  otherwise.\<close>

theorem frequency_command:
  assumes "node_mutex E \<in> {go_rwmutex, reentrant_rwmutex}" and "nwMu w = unlocked" and "n < 2 ^ 40"
  shows "updateMetricFrequency E (show_nat n @ ''ms'') w
     = Done () (if 100 \<le> n \<and> n \<le> 60000 then w\<lparr>nwMetricFrequency := int n * 1000000\<rparr> else w)"
proof -
  let ?w = "if 100 \<le> n \<and> n \<le> 60000 then w\<lparr>nwMetricFrequency := int n * 1000000\<rparr> else w"
  have "parse_duration (show_nat n @ ''ms'') = Some (int n * 1000000)"
    using assms(3) by (intro parse_duration_ms) simp
  then have body: "act (\<lambda>w. case parse_duration (show_nat n @ ''ms'') of None \<Rightarrow> w
      | Some freq \<Rightarrow> if freq < 100000000 \<or> 60000000000 < freq then w else w\<lparr>nwMetricFrequency := freq\<rparr>)
      (w\<lparr>nwMu := write_locked\<rparr>) = Done () (?w\<lparr>nwMu := write_locked\<rparr>)"
    by (cases w) (auto simp: act_def)
  have mu: "nwMu ?w = unlocked" using assms(2) by simp
  show ?thesis unfolding updateMetricFrequency_def by (rule node_lock_body [OF assms(1,2)]) (fact body mu)+
qed

theorem frequency_command_witness:
  "updateMetricFrequency (node_example_env go_rwmutex) (show_nat 500 @ ''ms'') node_example
     = Done () (node_example\<lparr>nwMetricFrequency := 500000000\<rparr>)"
proof -
  have "node_mutex (node_example_env go_rwmutex) \<in> {go_rwmutex, reentrant_rwmutex}" "nwMu node_example = unlocked"
    by (simp_all add: node_example_env_def node_example_def)
  from frequency_command [OF this, of 500] show ?thesis by simp
qed

end
