(* ===== verification/WorkerIdle.thy ===== *)
theory WorkerIdle
  imports WorkerProps
begin

text \<open>
  A worker that has never been given a task: no message of the scheduler and no turn of its own goroutines gives it
  one.
\<close>

definition never_worked :: "NodeWorker \<Rightarrow> bool" where
  "never_worked w \<longleftrightarrow> nwActiveTasks w = [] \<and> nwRunning w = [] \<and> nwCleanups w = [] \<and> nwReports w = []"

definition same_work :: "NodeWorker \<Rightarrow> NodeWorker \<Rightarrow> bool" where
  "same_work w w' \<longleftrightarrow> nwActiveTasks w' = nwActiveTasks w \<and> nwRunning w' = nwRunning w
     \<and> nwCleanups w' = nwCleanups w \<and> nwReports w' = nwReports w"

lemma same_work_never: "same_work w w' \<Longrightarrow> never_worked w \<Longrightarrow> never_worked w'"
  by (simp add: same_work_def never_worked_def)

lemma same_work_mu [simp]: "never_worked (w\<lparr>nwMu := m\<rparr>) = never_worked w"
  by (simp add: never_worked_def)

lemma same_work_measured: "measured w w' \<Longrightarrow> same_work w w'"
  using measuredD [of w w'] by (simp add: same_work_def)

lemma keeps_idle_act: "(\<And>w. same_work w (f w)) \<Longrightarrow> keeps never_worked (act f)"
  by (rule keeps_act) (rule same_work_never)

lemma keeps_idle_locks:
  "keeps never_worked body \<Longrightarrow> keeps never_worked (node_lock E body)"
  "keeps never_worked body \<Longrightarrow> keeps never_worked (node_rlock E body)"
  by (rule keeps_node_lock, simp, assumption) (rule keeps_node_rlock, simp, assumption)

lemma same_work_small:
  "same_work w (metric c w)" "same_work w (node_tick w)" "same_work w (sync_gpus gs w)"
  "same_work w (w\<lparr>nwStatus := st\<rparr>)" "same_work w (w\<lparr>nwPaused := b\<rparr>)" "same_work w w"
  by (simp_all add: same_work_def metric_def node_tick_def sync_gpus_def)

lemma keeps_idle_updateMetrics: "keeps never_worked (node_updateMetrics E)"
proof -
  have "same_work w (fold (gauge_gpu E) ks w)" for ks w
    by (rule same_work_measured, rule measured_fold, rule measured_gauge_gpu)
  moreover have "same_work w (node_tick (fold gauge_task ps w))" for ps w
    by (rule same_work_measured, rule measured_trans [OF measured_fold [OF measured_gauge_task] measured_tick])
  ultimately show ?thesis unfolding node_updateMetrics_def
    by (intro keeps_intros keeps_idle_locks keeps_idle_act same_work_small)
qed

lemma keeps_idle_recordStatusChange: "keeps never_worked (recordStatusChange E)"
  unfolding recordStatusChange_def
  by (intro keeps_intros keeps_idle_act keeps_idle_updateMetrics same_work_small)

lemma keeps_idle_sync: "keeps never_worked (processStatusUpdate E resp)"
proof -
  have none: "sync_tasks E sms w = (if sms = [] then w else node_tick w)" if "never_worked w" for sms w
  proof -
    have "nwActiveTasks w = []" using that by (simp add: never_worked_def)
    then have "fold (\<lambda>(k, sm). updateTaskPriority k sm) xs w = w" for xs
      by (induction xs) (auto simp: updateTaskPriority_def)
    then show ?thesis using \<open>nwActiveTasks w = []\<close> by (simp add: sync_tasks_def Let_def visit_tasks_def)
  qed
  have tasks: "keeps never_worked (act (sync_tasks E sms))" for sms
    by (rule keeps_act) (auto simp: none never_worked_def node_tick_def)
  have "keeps never_worked (sync_status E st)" for st
    unfolding sync_status_def
    by (intro keeps_intros keeps_idle_act keeps_idle_recordStatusChange same_work_small)
  moreover have "keeps never_worked (act (sync_gpus gs))" for gs
    by (rule keeps_idle_act) (rule same_work_small)
  ultimately show ?thesis unfolding processStatusUpdate_def
    by (intro keeps_intros keeps_if_fun keeps_reads keeps_idle_locks tasks)
qed

lemma keeps_idle_command: "keeps never_worked (handleCommand E command)"
proof -
  have stop: "keeps never_worked (stopTask E i)" for i
  proof -
    have "keeps never_worked (\<lambda>w. case map_of (nwActiveTasks w) i of None \<Rightarrow> Done None w
          | Some a \<Rightarrow> Done (Some a) (set_task a f w))" for f
      by (auto simp: keeps_def never_worked_def set_task_def)
    note found = keepsD [OF keeps_idle_locks(1) [OF this]]
    show ?thesis
    proof (rule keepsI)
      fix w assume w: "never_worked w"
      let ?find = "\<lambda>w. case map_of (nwActiveTasks w) i of None \<Rightarrow> Done None w
          | Some a \<Rightarrow> Done (Some a) (set_task a (\<lambda>t. t\<lparr>ntStatus := TaskStatus_CANCELED\<rparr>) w)"
      have "\<exists>u. node_lock E ?find w = Stuck u \<or> node_lock E ?find w = Panicked u \<or> node_lock E ?find w = Done None u"
        using w by (auto simp: node_lock_def node_locked_def never_worked_def split: option.split)
      then show "never_worked (final_state (stopTask E i w))"
        using found [OF w, of E "\<lambda>t. t\<lparr>ntStatus := TaskStatus_CANCELED\<rparr>"] by (auto simp: stopTask_def)
    qed
  qed
  have upd: "keeps never_worked (updateMetricFrequency E v)" "keeps never_worked (updateTaskPrioritySettings E v)"
    "keeps never_worked (updateGPUAllocationStrategy E v)" for v
    unfolding updateMetricFrequency_def updateTaskPrioritySettings_def updateGPUAllocationStrategy_def
    by (intro keeps_idle_locks keeps_act; auto simp: never_worked_def Let_def split: option.split)+
  have par: "keeps never_worked (with_param params key f)" if "\<And>v. keeps never_worked (f v)" for params key f
    using that by (auto simp: keeps_def with_param_def split: option.split)
  show ?thesis unfolding handleCommand_def
    by (intro keeps_if_fun keeps_block_Cons keeps_block_Nil keeps_reads keeps_idle_locks keeps_idle_act
        keeps_idle_recordStatusChange same_work_small stop upd par keeps_log_nil)
qed

lemma keeps_idle_log: "keeps never_worked (log_status E)"
  unfolding log_status_def sendStatusUpdate_def
  by (intro keeps_bind keeps_idle_locks keeps_reads) (simp add: keeps_def never_worked_def node_tick_def)

lemma keeps_idle_poll:
  assumes "\<And>req. \<exists>err. client req = Inl err" shows "keeps never_worked (poll_turn E client)"
proof -
  have "(case request of None \<Rightarrow> Done () w
      | Some req \<Rightarrow> (case client req of Inl err \<Rightarrow> Done () w | Inr task \<Rightarrow> executeTask E task w)) = Done () w" for request w
    using assms [of "the request"] by (auto split: option.split)
  then show ?thesis unfolding poll_turn_def
    by (intro keeps_bind keeps_idle_locks keeps_reads) (auto simp: keeps_def)
qed

text \<open>The events that bring no task.\<close>

fun brings_no_task :: "node_event \<Rightarrow> bool" where
  "brings_no_task (Poll client) \<longleftrightarrow> (\<forall>req. \<exists>err. client req = Inl err)"
| "brings_no_task _ \<longleftrightarrow> True"

lemma keeps_idle_step: "brings_no_task ev \<Longrightarrow> keeps never_worked (node_step E ev)"
proof (cases ev)
  case (Poll client)
  moreover assume "brings_no_task ev"
  ultimately show ?thesis using keeps_idle_poll [of client E] by (simp add: keeps_def)
next
  case (Receive resp)
  have "keeps never_worked (case wsCommand resp of None \<Rightarrow> Done () | Some command \<Rightarrow> handleCommand E command)"
    by (auto split: option.split intro: keeps_reads keeps_idle_command)
  then have "keeps never_worked (receive_status E resp)" unfolding receive_status_def
    by (intro keeps_block_Cons keeps_block_Nil keeps_idle_sync keeps_idle_log)
  then show ?thesis using Receive by (simp add: keeps_def)
next
  case Ticker
  then show ?thesis using keeps_idle_log by (simp add: keeps_def)
qed (simp_all add: keeps_def never_worked_def)

lemma node_step_idle:
  "brings_no_task ev \<Longrightarrow> never_worked w \<Longrightarrow> node_step E ev w = Done () w' \<Longrightarrow> never_worked w'"
  using keepsD [OF keeps_idle_step, of ev w E] by simp

end
