(* ===== verification/System.thy ===== *)
theory System
  imports SchedProtocol Programs WorkerIdle
begin

text \<open>
  The whole system: one server and the workers started against it, exchanging the messages of the protocol. Each
  event is a call with its answer, or a turn of one of a worker's goroutines; calls are answered one
  at a time. A call that is never answered leaves the server with its mutex held and the caller as it was; a
  panic ends the process it happens in.
\<close>

section \<open>State and events\<close>

record 'l sys_env =
  seServer :: env
  seNode :: node_env
  seLog :: "'l log_env"
  sePolicy :: WorkloadPolicy

text \<open>\<open>None\<close> in place of a worker whose process has ended.\<close>

record system =
  sySched :: sched
  syUp :: bool
  syNodes :: "NodeWorker option list"

text \<open>
  \<open>SubmitTask\<close> is the program of \<^verbatim>\<open>cmd/submit\<close>, \<open>ListAll\<close> and \<open>Watch\<close> are those of \<^verbatim>\<open>cmd/monitor\<close>.
  \<open>InProcessAdd\<close> is a call of \<^verbatim>\<open>AddTask\<close>, which no program makes and no message of the protocol leads to.
\<close>

datatype sys_event =
    StartWorker worker_flags
  | AskForTask nat
  | StatusMessage nat
  | NodeTurn nat bool nat
  | NodeCleanup nat nat
  | NodeTicker nat
  | SubmitTask pbTask
  | ListAll
  | Watch string
  | InProcessAdd Task

definition system_start :: "bool \<Rightarrow> Manager option \<Rightarrow> system" where
  "system_start b m = \<lparr>sySched = NewScheduler\<lparr>hasMetrics := b, persistenceManager := m\<rparr>, syUp = True, syNodes = []\<rparr>"

definition live :: "system \<Rightarrow> nat \<Rightarrow> NodeWorker option" where
  "live sy i = (if i < length (syNodes sy) then syNodes sy ! i else None)"

text \<open>A call; the answer is \<open>None\<close> when there is none.\<close>

definition ask :: "'l sys_env \<Rightarrow> request \<Rightarrow> system \<Rightarrow> reply option \<times> system" where
  "ask X c sy =
     (if \<not> syUp sy then (None, sy)
      else (case serve (seServer X) (sePolicy X) c (sySched sy) of
          Done r t \<Rightarrow> (Some r, sy\<lparr>sySched := t\<rparr>)
        | Stuck t \<Rightarrow> (None, sy\<lparr>sySched := t\<rparr>)
        | Panicked t \<Rightarrow> (None, sy\<lparr>sySched := t, syUp := False\<rparr>)))"

text \<open>The answer to the program that submits a task; its context ends the call after ten seconds.\<close>

definition ask_server :: "'l sys_env \<Rightarrow> system \<Rightarrow> TaskRequest \<Rightarrow> grpc_error + pbTask" where
  "ask_server X sy req = (case fst (ask X (RequestTaskCall req) sy) of
     Some (RequestTaskReply r) \<Rightarrow> r | _ \<Rightarrow> Inl (DeadlineExceeded, ''context deadline exceeded''))"

definition deliver :: "'l sys_env \<Rightarrow> TaskStatusUpdate list \<Rightarrow> system \<Rightarrow> system" where
  "deliver X us sy = fold (\<lambda>u sy. snd (ask X (ReportTaskStatusCall u) sy)) us sy"

text \<open>A step of worker \<open>i\<close>; the reports it makes are delivered.\<close>

definition node_turn :: "'l sys_env \<Rightarrow> nat \<Rightarrow> node_event \<Rightarrow> system \<Rightarrow> system" where
  "node_turn X i ev sy = (case live sy i of
      None \<Rightarrow> sy
    | Some w \<Rightarrow>
        (let r = node_step (seNode X) ev w; u = final_state r
         in deliver X (drop (length (nwReports w)) (nwReports u))
              (sy\<lparr>syNodes := (syNodes sy)[i := if is_panic r then None else Some u]\<rparr>)))"

definition start_event :: "'l sys_env \<Rightarrow> worker_flags \<Rightarrow> system \<Rightarrow> system" where
  "start_event X f sy =
     (case (logger_error (seLog X) (worker_log_config f), worker_gpus f) of
        (None, Runs gpus) \<Rightarrow>
          (case ask X (RegisterWorkerCall \<lparr>rwWorkerId = '''', rwGpus = gpus, rwAddress = wfAddr f\<rparr>) sy of
             (Some (RegisterWorkerReply r), sy') \<Rightarrow>
               (case start_worker (seNode X) (seLog X) None (\<lambda>_. Inr r) f of
                  Runs (_, w) \<Rightarrow> sy'\<lparr>syNodes := syNodes sy' @ [Some w]\<rparr>
                | _ \<Rightarrow> sy')
           | (_, sy') \<Rightarrow> sy')
      | _ \<Rightarrow> sy)"

definition ask_event :: "'l sys_env \<Rightarrow> nat \<Rightarrow> system \<Rightarrow> system" where
  "ask_event X i sy = (case live sy i of
      None \<Rightarrow> sy
    | Some w \<Rightarrow> (case poll_request w of
        None \<Rightarrow> node_turn X i (Poll (\<lambda>_. Inl (NotFound, ''''))) sy
      | Some req \<Rightarrow> (case ask X (RequestTaskCall req) sy of
          (Some (RequestTaskReply r), sy') \<Rightarrow> node_turn X i (Poll (\<lambda>_. r)) sy'
        | (_, sy') \<Rightarrow> sy')))"

definition status_event :: "'l sys_env \<Rightarrow> nat \<Rightarrow> system \<Rightarrow> system" where
  "status_event X i sy = (case live sy i of
      None \<Rightarrow> sy
    | Some w \<Rightarrow> (case ask X (MonitorTurnCall (nwID w)) sy of
        (Some (MonitorTurnReply (Inr resp)), sy') \<Rightarrow> node_turn X i (Receive resp) sy'
      | (_, sy') \<Rightarrow> sy'))"

fun sys_step :: "'l sys_env \<Rightarrow> sys_event \<Rightarrow> system \<Rightarrow> system" where
  "sys_step X (StartWorker f) sy = start_event X f sy"
| "sys_step X (AskForTask i) sy = ask_event X i sy"
| "sys_step X (StatusMessage i) sy = status_event X i sy"
| "sys_step X (NodeTurn i c k) sy = node_turn X i (Turn c k) sy"
| "sys_step X (NodeCleanup i k) sy = node_turn X i (Cleanup k) sy"
| "sys_step X (NodeTicker i) sy = node_turn X i Ticker sy"
| "sys_step X (SubmitTask task) sy = snd (ask X (RequestTaskCall (submit_request task)) sy)"
| "sys_step X ListAll sy = snd (ask X ListWorkersCall sy)"
| "sys_step X (Watch w) sy = snd (ask X (MonitorTurnCall w) sy)"
| "sys_step X (InProcessAdd t) sy = snd (ask X (AddTaskCall t) sy)"

definition sys_run :: "'l sys_env \<Rightarrow> sys_event list \<Rightarrow> system \<Rightarrow> system" where
  "sys_run X evs sy = fold (sys_step X) evs sy"

text \<open>A worker with 2^32 GPUs does not fit into a message.\<close>

fun event_ok :: "sys_event \<Rightarrow> bool" where
  "event_ok (StartWorker f) \<longleftrightarrow> (case worker_gpus f of Runs gpus \<Rightarrow> int (length gpus) < 2 ^ 32 | _ \<Rightarrow> True)"
| "event_ok _ \<longleftrightarrow> True"

section \<open>The server never panics\<close>

definition any_mutex :: "mutex_ops \<Rightarrow> bool" where
  "any_mutex ops \<longleftrightarrow> ops = go_rwmutex \<or> ops = reentrant_rwmutex"

text \<open>The server is ready for the next call, or a handler has blocked on Go's mutex.\<close>

definition server_ok :: "env \<Rightarrow> WorkloadPolicy \<Rightarrow> sched \<Rightarrow> bool" where
  "server_ok E p s \<longleftrightarrow> reached E p s \<or> (mutex E = go_rwmutex \<and> mu s = write_locked)"

lemma wedged_serve:
  assumes "mutex E = go_rwmutex" and "mu s = write_locked"
  obtains t where "serve E p c s = Stuck t" "mu t = write_locked" "t = s \<or> (\<exists>task. c = AddTaskCall task \<and> t = snd (alloc_task task s))"
proof (cases c)
  case (AddTaskCall t)
  then show ?thesis using that assms
    by (simp add: submit_task_def alloc_task_def AddTask_def with_lock_wedged)
qed (use that assms in \<open>simp_all add: RegisterWorker_def RequestTask_def ReportTaskStatus_def
      monitor_turn_def ListWorkers_def with_lock_wedged with_rlock_wedged\<close>)

lemma reached_calm:
  assumes "any_mutex (mutex E)" and "reached E p s"
  shows "serving p s" and "mu s = unlocked"
  using reached_serving assms unfolding any_mutex_def by (auto simp: serving_def)

lemma serve_either:
  assumes E: "any_mutex (mutex E)" and s: "server_ok E p s" and c: "request_ok c"
  obtains r t where "serve E p c s = Done r t" "reached E p s" "reached E p t"
  | t where "serve E p c s = Stuck t" "server_ok E p t"
proof (cases "reached E p s")
  case True
  note sv = reached_calm(1) [OF E True]
  show ?thesis
  proof (cases "mutex E = go_rwmutex")
    case go: True
    from go_mutex.serve_blocks_or_reads [OF go sv c] consider r t where "serve E p c s = Done r t"
      | t where "serve E p c s = Stuck t" "mu t = write_locked" by auto
    then show ?thesis
    proof cases
      case 1
      from that(1) [OF 1 True reached.step [OF True c 1]] show ?thesis .
    next
      case 2
      with that(2) go show ?thesis unfolding server_ok_def by blast
    qed
  next
    case False
    then have "mutex E = reentrant_rwmutex" using E by (simp add: any_mutex_def)
    from re_mutex.serve_serving [OF this sv c] obtain r t where "serve E p c s = Done r t" by blast
    then show ?thesis using that(1) True reached.step [OF True c] by blast
  qed
next
  case False
  then have w: "mutex E = go_rwmutex" "mu s = write_locked" using s by (simp_all add: server_ok_def)
  obtain t where "serve E p c s = Stuck t" "mu t = write_locked" by (rule wedged_serve [OF w])
  then show ?thesis using that(2) w(1) by (simp add: server_ok_def)
qed

lemma reached_request_error:
  assumes "any_mutex (mutex E)" and "reached E p s"
  obtains e t where "RequestTask E (AssignTask p) req s = Done (Inl e) t" "only_asked s t"
  using assms(1) reached_calm(1) [OF assms] go_mutex.RequestTask_starved re_mutex.RequestTask_starved
  unfolding any_mutex_def by blast

lemma reads_only_ask:
  assumes "any_mutex (mutex E)" and "mu s = unlocked"
  shows "\<exists>r t. monitor_turn E v s = Done r t \<and> only_asked s t" and "\<exists>r t. ListWorkers E s = Done r t \<and> only_asked s t"
  using assms(1) go_mutex.monitor_turn_reads [OF _ assms(2)] re_mutex.monitor_turn_reads [OF _ assms(2)]
    go_mutex.ListWorkers_reads [OF _ assms(2)] re_mutex.ListWorkers_reads [OF _ assms(2)]
  unfolding any_mutex_def by blast+

section \<open>What the server keeps\<close>

text \<open>
  The rule for state properties of the server that may depend on workers, tasks and queue: it is enough to look at
  a new worker, a new task, and a task that is placed. Reports are left out: workers make none.
\<close>

lemma keeps_serve:
  assumes E: "any_mutex (mutex E)" and s: "server_ok E p s" and c: "\<forall>u. c \<noteq> ReportTaskStatusCall u" and P: "P s"
    and ins: "insensitive P" and ok: "\<And>s. P s \<Longrightarrow> map_ok (workers s)"
    and asked: "\<And>s t. only_asked s t \<Longrightarrow> P s \<Longrightarrow> P t"
    and place: "\<And>i s b v gs. P s \<Longrightarrow> i < length (pendingTasks s) \<Longrightarrow> P (place_on i b v gs (tick (start_task E b v gs s)))"
    and new: "\<And>s v req. P s \<Longrightarrow> map_of (workers s) v = None \<Longrightarrow>
        P (s\<lparr>workers := mput v (new_worker v req) (workers s)\<rparr>)"
    and add: "\<And>s task a. c = AddTaskCall task \<Longrightarrow> P s \<Longrightarrow> P (snd (alloc_task task s))
        \<and> P (s\<lparr>tasks := mput (tID (heap s a)) a (tasks s)\<rparr>) \<and> P (s\<lparr>pendingTasks := pendingTasks s @ [a]\<rparr>)"
  shows "P (final_state (serve E p c s))"
proof -
  have mu: "P (s\<lparr>mu := m\<rparr>) = P s" for s m using ins by (simp add: insensitive_def)
  have assign: "keeps P (assignPendingTasks E (AssignTask p))"
    by (rule pol.keeps_assignPendingTasks [OF ins ok]) (simp_all add: place)
  note small = keeps_intros keeps_act keeps_small [OF ins] assign
  have final: "final_state (map_reply f m) = final_state m" for f :: "'a \<Rightarrow> 'b" and m by (cases m) auto
  have register: "keeps P (RegisterWorker E (AssignTask p) req)" for req unfolding RegisterWorker_def
  proof (rule keeps_with_lock [OF mu], rule keepsI)
    fix s r1 r2 assume h: "P s"
    let ?v = "assigned_id req s"
    have "P (final_state (admit_worker E (AssignTask p) ?v req s))" if "map_of (workers s) ?v = None"
    proof -
      have "keeps P (block [recordWorkerRegistration E, UpdatePersistentState E,
          assignPendingTasks E (AssignTask p)])" by (intro small)
      then show ?thesis unfolding admit_worker_def block_act by (rule keepsD) (rule new [OF h that])
    qed
    then show "P (final_state (let v = assigned_id req s in
        if map_of (workers s) v \<noteq> None then Done (r1 v) s
        else returning (r2 v) (admit_worker E (AssignTask p) v req s)))"
      using h by (simp add: Let_def)
  qed
  have submit: "P (final_state (submit_task E (AssignTask p) task s))" if "c = AddTaskCall task" for task
  proof -
    have "keeps P (AddTask E (AssignTask p) b)" for b unfolding AddTask_def
      by (intro keeps_with_lock [OF mu] small) (simp_all add: add [OF that])
    from keepsD [OF this, of "snd (alloc_task task s)"] add [OF that P] show ?thesis
      by (simp add: submit_task_def split_def Let_def)
  qed
  show ?thesis
  proof (cases "reached E p s")
    case True
    note u = reached_calm(2) [OF E True]
    show ?thesis
    proof (cases c)
      case (RequestTaskCall req)
      obtain e t where "RequestTask E (AssignTask p) req s = Done (Inl e) t" "only_asked s t"
        by (rule reached_request_error [OF E True])
      then show ?thesis using asked [OF _ P] RequestTaskCall by auto
    next
      case (MonitorTurnCall v)
      then show ?thesis using reads_only_ask(1) [OF E u, of v] asked [OF _ P] by auto
    next
      case ListWorkersCall
      then show ?thesis using reads_only_ask(2) [OF E u] asked [OF _ P] by auto
    qed (use c keepsD [OF register P] submit in \<open>simp_all add: final\<close>)
  next
    case False
    then have w: "mutex E = go_rwmutex" "mu s = write_locked" using s by (simp_all add: server_ok_def)
    obtain t where "serve E p c s = Stuck t" "t = s \<or> (\<exists>task. c = AddTaskCall task \<and> t = snd (alloc_task task s))"
      by (rule wedged_serve [OF w])
    then show ?thesis using P add by auto
  qed
qed

section \<open>A worker that is connected and idle\<close>

definition connected :: "string \<Rightarrow> sched \<Rightarrow> bool" where
  "connected k s \<longleftrightarrow> map_ok (workers s) \<and> (\<exists>wk. map_of (workers s) k = Some wk \<and> wGPUs wk \<noteq> [])"

lemma insensitive_connected: "insensitive (connected k)"
  by (simp add: insensitive_def connected_def sched_frame)

lemma connected_place: "connected k s \<Longrightarrow> connected k (place_on i b v gs (tick (start_task E b v gs s)))"
proof -
  assume s: "connected k s"
  let ?t = "place_on i b v gs (tick (start_task E b v gs s))"
  obtain wk where "map_of (workers s) k = Some wk" "wGPUs wk \<noteq> []" using s unfolding connected_def by blast
  then have "\<exists>wk. map_of (workers ?t) k = Some wk \<and> wGPUs wk \<noteq> []"
    by (auto simp: map_of_place_on sched_frame occupy_def set_available_map)
  moreover have "map_ok (workers ?t)" using s by (simp add: connected_def place_on_def sched_frame)
  ultimately show ?thesis by (simp add: connected_def)
qed

lemma connected_new:
  "connected k s \<Longrightarrow> map_of (workers s) v = None \<Longrightarrow> connected k (s\<lparr>workers := mput v w (workers s)\<rparr>)"
  by (auto simp: connected_def)

lemma connected_serve:
  assumes "any_mutex (mutex E)" and "server_ok E p s" and "\<forall>u. c \<noteq> ReportTaskStatusCall u" and "connected k s"
  shows "connected k (final_state (serve E p c s))"
  using assms
proof (rule keeps_serve [where P = "connected k"])
  show "only_asked s t \<Longrightarrow> connected k s \<Longrightarrow> connected k t" for s t by (simp add: connected_def only_askedD)
qed (simp_all add: insensitive_connected connected_place connected_new, auto simp: connected_def alloc_task_def)

text \<open>A worker that is told it is registered is.\<close>

lemma registered_connected:
  assumes run: "RegisterWorker E (AssignTask p) req s = Done r t" and "rrSuccess r" and "rwGpus req \<noteq> []"
    and ok: "map_ok (workers s)"
  shows "connected (rrAssignedId r) t"
proof -
  let ?v = "assigned_id req s"
  have mu: "connected k (s\<lparr>mu := m\<rparr>) = connected k s" for k s m by (simp add: connected_def)
  obtain m u where u: "map_of (workers s) ?v = None" "admit_worker E (AssignTask p) ?v req (s\<lparr>mu := m\<rparr>) = Done () u"
    "rrAssignedId r = ?v" "connected ?v t = connected ?v u"
    using run assms(2)
    by (auto simp: RegisterWorker_def with_lock_def locked_def Let_def bind_res_Done_iff returning_Done_iff assigned_id_def
        mu split: option.splits if_splits)
  let ?s = "s\<lparr>mu := m, workers := mput ?v (new_worker ?v req) (workers s)\<rparr>"
  have "connected ?v ?s" using ok u(1) assms(3) by (simp add: connected_def new_worker_def)
  moreover have "keeps (connected ?v) (assignPendingTasks E (AssignTask p))"
    by (rule pol.keeps_assignPendingTasks [OF insensitive_connected]) (simp_all add: connected_place, simp add: connected_def)
  then have "keeps (connected ?v) (block [recordWorkerRegistration E, UpdatePersistentState E,
      assignPendingTasks E (AssignTask p)])"
    by (intro keeps_intros keeps_small [OF insensitive_connected])
  ultimately have "connected ?v u"
    using u(2) keepsD [of "connected ?v" _ ?s] unfolding admit_worker_def block_act by fastforce
  then show ?thesis using u(3,4) by simp
qed

lemma worker_gpus_some: "worker_gpus f = Runs gpus \<Longrightarrow> gpus \<noteq> []"
proof -
  assume run: "worker_gpus f = Runs gpus"
  have some: "split_char c s \<noteq> []" for c s by (induction c s rule: split_char.induct) (auto split: list.split)
  have "build_gpus ids models memories = Some gpus \<Longrightarrow> ids \<noteq> [] \<Longrightarrow> models \<noteq> [] \<Longrightarrow> memories \<noteq> [] \<Longrightarrow> gpus \<noteq> []"
    for ids models memories
    by (cases "(ids, models, memories)" rule: build_gpus.cases) (auto split: option.splits)
  then show ?thesis using run some by (auto simp: worker_gpus_def Let_def split: if_splits option.splits)
qed

lemma start_worker_idle:
  assumes "start_worker N L None (\<lambda>_. Inr r) f = Runs (i, w)" and "any_mutex (node_mutex N)"
  shows "never_worked w \<and> nwMu w = unlocked \<and> nwID w = rrAssignedId r \<and> rrSuccess r"
proof -
  have "node_SetMetrics N w = Done () (w\<lparr>nwHasMetrics := True\<rparr>)" if "nwMu w = unlocked" for w
    unfolding node_SetMetrics_def
    by (rule node_lock_body) (use assms(2) that in \<open>simp_all add: any_mutex_def act_def\<close>)
  then show ?thesis using assms(1)
    by (auto simp: start_worker_def NewWorker_def Register_def never_worked_def
        split: option.splits sum.splits res.splits program.splits if_splits)
qed

text \<open>
  The events of an idle worker: its polls are answered with errors, and the messages it receives name its GPUs.
\<close>

fun idle_event :: "node_event \<Rightarrow> bool" where
  "idle_event (Poll client) \<longleftrightarrow> (\<forall>req. \<exists>err. client req = Inl err)"
| "idle_event (Receive resp) \<longleftrightarrow> wsGpus resp \<noteq> []"
| "idle_event _ \<longleftrightarrow> True"

lemma idle_step:
  assumes E: "any_mutex (node_mutex E)" and w: "never_worked w" "nwMu w = unlocked" and ev: "idle_event ev"
  obtains u where "node_step E ev w = Panicked u" "never_worked u"
  | u where "node_step E ev w = Done () u" "never_worked u" "nwMu u = unlocked" "nwID u = nwID w" "\<forall>resp. ev \<noteq> Receive resp"
proof -
  have E': "node_mutex E \<in> {go_rwmutex, reentrant_rwmutex}" using E by (simp add: any_mutex_def)
  have "brings_no_task ev" using ev by (cases ev) simp_all
  then have idle: "never_worked (final_state (node_step E ev w))" using keepsD [OF keeps_idle_step w(1)] by blast
  show thesis
  proof (cases ev)
    case (Poll client)
    have "poll_request (w\<lparr>nwMu := m\<rparr>) = poll_request w" for m by (simp add: poll_request_def)
    then have "node_rlock E (\<lambda>w. Done (nwPaused w, poll_request w) w) w = Done (nwPaused w, poll_request w) w"
      using node_read_either [OF E' w(2), of "\<lambda>w. (nwPaused w, poll_request w)"] by simp
    moreover have "\<exists>err. client req = Inl err" for req using ev Poll by simp
    then have "(case client req of Inl err \<Rightarrow> Done () w | Inr task \<Rightarrow> executeTask E task w) = Done () w" for req
      by (metis sum.simps(5))
    ultimately have "node_step E ev w = (if nwPaused w then Panicked w else Done () w)"
      by (simp add: Poll poll_turn_def split: option.split)
    then show thesis using that w Poll by (cases "nwPaused w") simp_all
  next
    case (Receive resp)
    then show thesis using that(1) idle gpu_message_panics [OF E' w(2), of resp] ev by simp
  next
    case Ticker
    define line where "line w = \<lparr>slWorkerID = nwID w, slStatus = nwStatus w,
      slAvailableGPUs = length (filter pgAvailable (nwGPUs w)), slTotalGPUs = length (nwGPUs w),
      slActiveTasks = map (\<lambda>(k, a). task_line (k, nwHeap w a)) (visit_tasks E 0 w)\<rparr>" for w
    have line: "line (w\<lparr>nwMu := m\<rparr>) = line w" for m by (simp add: line_def visit_tasks_def)
    have u: "nwMu (node_tick w) = unlocked" by (simp add: node_tick_def w(2))
    have body: "Done (line (w\<lparr>nwMu := m\<rparr>)) (node_tick (w\<lparr>nwMu := m\<rparr>))
        = Done (line w) ((node_tick w)\<lparr>nwMu := m\<rparr>)" for m
      unfolding line by (simp add: node_tick_def)
    let ?body = "\<lambda>w. Done (line w) (node_tick w)"
    have "node_rlock E ?body w = Done (line w) (node_tick w)"
      using E go_mutex.node_rlock_free [of E w ?body, OF _ w(2) body u]
        re_mutex.node_rlock_free [of E w ?body, OF _ w(2) body u]
      unfolding any_mutex_def by blast
    then have "node_step E ev w = Done () (node_tick w)"
      by (simp add: Ticker log_status_def sendStatusUpdate_def line_def)
    then show thesis using that(2) idle u Ticker by (simp add: node_tick_def)
  next
    case (Turn c k)
    then show thesis using that(2) w by (simp add: never_worked_def)
  next
    case (Cleanup k)
    then show thesis using that(2) w by (simp add: never_worked_def)
  qed
qed

section \<open>The invariant of the whole system\<close>

definition env_ok :: "'l sys_env \<Rightarrow> bool" where
  "env_ok X \<longleftrightarrow> any_mutex (mutex (seServer X)) \<and> any_mutex (node_mutex (seNode X))"

definition node_ok :: "sched \<Rightarrow> NodeWorker \<Rightarrow> bool" where
  "node_ok s w \<longleftrightarrow> never_worked w \<and> nwMu w = unlocked \<and> connected (nwID w) s"

definition system_ok :: "'l sys_env \<Rightarrow> system \<Rightarrow> bool" where
  "system_ok X sy \<longleftrightarrow> syUp sy \<and> server_ok (seServer X) (sePolicy X) (sySched sy)
     \<and> map_ok (workers (sySched sy)) \<and> (mutex (seServer X) = go_rwmutex \<longrightarrow> syNodes sy = [])
     \<and> (\<forall>w. Some w \<in> set (syNodes sy) \<longrightarrow> node_ok (sySched sy) w)"

text \<open>With Go's mutex a registration is never acknowledged.\<close>

lemma go_registers_none:
  assumes "mutex E = go_rwmutex" and "reached E p s" and "request_ok (RegisterWorkerCall req)"
    and "RegisterWorker E (AssignTask p) req s = Done r t"
  shows "\<not> rrSuccess r"
proof -
  have "mu s = unlocked" "sched_wf s" using reached_serving [OF _ assms(2)] assms(1) by (simp_all add: serving_def)
  from go_mutex.RegisterWorker_cases [OF assms(1) this, of req "AssignTask p"] assms(3,4)
  show ?thesis by (auto split: if_splits)
qed

text \<open>What an event may do to the server.\<close>

definition served :: "'l sys_env \<Rightarrow> sys_event \<Rightarrow> sched \<Rightarrow> sched \<Rightarrow> bool" where
  "served X ev s t \<longleftrightarrow> t = s
     \<or> (\<exists>c. t = final_state (serve (seServer X) (sePolicy X) c s) \<and> request_ok c
          \<and> (\<forall>u. c \<noteq> ReportTaskStatusCall u) \<and> (\<forall>task. c = AddTaskCall task \<longrightarrow> ev = InProcessAdd task))"

lemma map_ok_serve:
  assumes "any_mutex (mutex E)" and "server_ok E p s" and "\<forall>u. c \<noteq> ReportTaskStatusCall u" and "map_ok (workers s)"
  shows "map_ok (workers (final_state (serve E p c s)))"
  using assms
proof (rule keeps_serve [where P = "\<lambda>s. map_ok (workers s)"])
  show "insensitive (\<lambda>s. map_ok (workers s))" by (simp add: insensitive_def sched_frame)
  show "only_asked s t \<Longrightarrow> map_ok (workers s) \<Longrightarrow> map_ok (workers t)" for s t by (simp add: only_askedD)
qed (simp_all add: place_on_def sched_frame alloc_task_def)

text \<open>Every call leaves the system in order; the answer, if there is one, comes from a state the server reaches.\<close>

lemma ask_ok:
  assumes X: "env_ok X" and sy: "system_ok X sy"
    and c: "request_ok c" "\<forall>u. c \<noteq> ReportTaskStatusCall u" "\<forall>task. c = AddTaskCall task \<longrightarrow> ev = InProcessAdd task"
  obtains q t where "ask X c sy = (q, sy\<lparr>sySched := t\<rparr>)" "system_ok X (sy\<lparr>sySched := t\<rparr>)" "served X ev (sySched sy) t"
    "\<And>r. q = Some r \<Longrightarrow> serve (seServer X) (sePolicy X) c (sySched sy) = Done r t
       \<and> reached (seServer X) (sePolicy X) (sySched sy)"
proof -
  let ?E = "seServer X" and ?p = "sePolicy X" and ?s = "sySched sy"
  have E: "any_mutex (mutex ?E)" and s: "server_ok ?E ?p ?s" "syUp sy" "map_ok (workers ?s)"
    using X sy by (simp_all add: env_ok_def system_ok_def)
  let ?t = "final_state (serve ?E ?p c ?s)"
  have t: "system_ok X (sy\<lparr>sySched := ?t\<rparr>)" if "server_ok ?E ?p ?t"
    using sy that map_ok_serve [OF E s(1) c(2) s(3)] connected_serve [OF E s(1) c(2)]
    by (simp add: system_ok_def node_ok_def)
  have sv: "served X ev ?s ?t" using c unfolding served_def by blast
  from serve_either [OF E s(1) c(1)] show thesis
  proof cases
    case (1 r u)
    then have "server_ok ?E ?p ?t" "ask X c sy = (Some r, sy\<lparr>sySched := ?t\<rparr>)"
      using s(2) by (simp_all add: server_ok_def ask_def)
    then show thesis using that t sv 1 by simp
  next
    case (2 u)
    then have "server_ok ?E ?p ?t" "ask X c sy = (None, sy\<lparr>sySched := ?t\<rparr>)"
      using s(2) by (simp_all add: ask_def)
    then show thesis using that t sv by blast
  qed
qed

text \<open>Turns of the workers do not reach the server.\<close>

lemma node_turn_ok:
  assumes X: "env_ok X" and sy: "system_ok X sy" and ev: "idle_event ev"
  shows "system_ok X (node_turn X i ev sy)" and "sySched (node_turn X i ev sy) = sySched sy"
    and "(\<exists>resp. ev = Receive resp) \<Longrightarrow> live (node_turn X i ev sy) i = None"
proof -
  have all: "system_ok X (node_turn X i ev sy) \<and> sySched (node_turn X i ev sy) = sySched sy
     \<and> ((\<exists>resp. ev = Receive resp) \<longrightarrow> live (node_turn X i ev sy) i = None)"
  proof (cases "live sy i")
    case (Some w)
    then have i: "i < length (syNodes sy)" "syNodes sy ! i = Some w" by (auto simp: live_def split: if_splits)
    then have "Some w \<in> set (syNodes sy)" by (metis nth_mem)
    then have w: "never_worked w" "nwMu w = unlocked" "connected (nwID w) (sySched sy)"
      using sy by (simp_all add: system_ok_def node_ok_def)
    have N: "any_mutex (node_mutex (seNode X))" using X by (simp add: env_ok_def)
    have upd: "system_ok X (sy\<lparr>syNodes := (syNodes sy)[i := v]\<rparr>)" if "\<And>u. v = Some u \<Longrightarrow> node_ok (sySched sy) u" for v
      using sy that by (auto simp: system_ok_def dest!: set_update_subset_insert [THEN subsetD])
    from idle_step [OF N w(1,2) ev] show ?thesis
    proof cases
      case (1 u)
      then show ?thesis using Some w upd [of None] i
        by (simp add: node_turn_def deliver_def never_worked_def live_def)
    next
      case (2 u)
      then have "node_ok (sySched sy) u" using w(3) by (simp add: node_ok_def)
      with 2 show ?thesis using Some w upd [of "Some u"]
        by (simp add: node_turn_def deliver_def never_worked_def)
    qed
  qed (simp add: node_turn_def sy)
  from all show "system_ok X (node_turn X i ev sy)" by blast
  from all show "sySched (node_turn X i ev sy) = sySched sy" by blast
  from all show "live (node_turn X i ev sy) i = None" if "\<exists>resp. ev = Receive resp" using that by simp
qed

text \<open>The four ways an event goes, and that a status message ends the worker it reaches.\<close>

lemma start_event_ok:
  assumes X: "env_ok X" and sy: "system_ok X sy" and f: "event_ok (StartWorker f)"
  shows "system_ok X (start_event X f sy) \<and> served X ev (sySched sy) (sySched (start_event X f sy))"
proof (cases "\<exists>gpus. logger_error (seLog X) (worker_log_config f) = None \<and> worker_gpus f = Runs gpus")
  case True
  then obtain gpus where gpus: "logger_error (seLog X) (worker_log_config f) = None" "worker_gpus f = Runs gpus" by blast
  let ?req = "\<lparr>rwWorkerId = '''', rwGpus = gpus, rwAddress = wfAddr f\<rparr>"
  have c: "request_ok (RegisterWorkerCall ?req)" "\<forall>u. RegisterWorkerCall ?req \<noteq> ReportTaskStatusCall u"
    "\<forall>task. RegisterWorkerCall ?req = AddTaskCall task \<longrightarrow> ev = InProcessAdd task" using f gpus(2) by simp_all
  obtain q t where ask: "ask X (RegisterWorkerCall ?req) sy = (q, sy\<lparr>sySched := t\<rparr>)"
    and t: "system_ok X (sy\<lparr>sySched := t\<rparr>)" "served X ev (sySched sy) t"
    and run: "\<And>r. q = Some r \<Longrightarrow> serve (seServer X) (sePolicy X) (RegisterWorkerCall ?req) (sySched sy) = Done r t
       \<and> reached (seServer X) (sePolicy X) (sySched sy)"
    by (rule ask_ok [OF X sy c]) (rule that)
  have added: "system_ok X (sy\<lparr>sySched := t, syNodes := syNodes sy @ [Some w]\<rparr>)"
    if q: "q = Some (RegisterWorkerReply r)" and start: "start_worker (seNode X) (seLog X) None (\<lambda>_. Inr r) f = Runs (i, w)"
    for r i w
  proof -
    have "any_mutex (node_mutex (seNode X))" using X by (simp add: env_ok_def)
    note w = start_worker_idle [OF start this]
    have "RegisterWorker (seServer X) (AssignTask (sePolicy X)) ?req (sySched sy) = Done r t" using run [OF q] by simp
    then have "mutex (seServer X) \<noteq> go_rwmutex"
      using go_registers_none run [OF q] c(1) w by blast
    with registered_connected [OF \<open>RegisterWorker _ _ _ _ = _\<close>] w worker_gpus_some [OF gpus(2)] sy
    have "connected (rrAssignedId r) t" "mutex (seServer X) \<noteq> go_rwmutex" by (simp_all add: system_ok_def)
    then show ?thesis using t(1) w by (auto simp: system_ok_def node_ok_def)
  qed
  have "start_event X f sy = sy\<lparr>sySched := t\<rparr>
      \<or> (\<exists>r i w. q = Some (RegisterWorkerReply r) \<and> start_worker (seNode X) (seLog X) None (\<lambda>_. Inr r) f = Runs (i, w)
          \<and> start_event X f sy = sy\<lparr>sySched := t, syNodes := syNodes sy @ [Some w]\<rparr>)"
    by (auto simp: start_event_def gpus ask split: option.split reply.split program.split)
  then show ?thesis using added t by auto
next
  case False
  then have "start_event X f sy = sy" by (auto simp: start_event_def split: option.split program.split)
  then show ?thesis using sy by (simp add: served_def)
qed

lemma ask_event_ok:
  assumes X: "env_ok X" and sy: "system_ok X sy"
  shows "system_ok X (ask_event X i sy) \<and> served X ev (sySched sy) (sySched (ask_event X i sy))"
proof (cases "live sy i")
  case (Some w)
  show ?thesis
  proof (cases "poll_request w")
    case None
    with Some show ?thesis using node_turn_ok [OF X sy, of "Poll (\<lambda>_. Inl (NotFound, ''''))" i]
      by (simp add: ask_event_def served_def)
  next
    case (Some req)
    obtain q t where ask: "ask X (RequestTaskCall req) sy = (q, sy\<lparr>sySched := t\<rparr>)"
      and t: "system_ok X (sy\<lparr>sySched := t\<rparr>)" "served X ev (sySched sy) t"
      and run: "\<And>r. q = Some r \<Longrightarrow> serve (seServer X) (sePolicy X) (RequestTaskCall req) (sySched sy) = Done r t
         \<and> reached (seServer X) (sePolicy X) (sySched sy)"
      by (rule ask_ok [OF X sy, of "RequestTaskCall req" ev]) (simp, simp, simp, rule that)
    show ?thesis
    proof (cases "\<exists>r. q = Some (RequestTaskReply r)")
      case True
      then obtain r where r: "q = Some (RequestTaskReply r)" by blast
      have E: "any_mutex (mutex (seServer X))" using X by (simp add: env_ok_def)
      obtain e t' where "RequestTask (seServer X) (AssignTask (sePolicy X)) req (sySched sy) = Done (Inl e) t'"
        by (rule reached_request_error [OF E]) (use run [OF r] in blast)
      then have "\<exists>err. r = Inl err" using run [OF r] by (intro exI [of _ e]) simp
      then have "idle_event (Poll (\<lambda>_. r))" by auto
      from node_turn_ok [OF X t(1) this, of i] show ?thesis
        using t(2) ask \<open>live sy i = Some w\<close> Some r by (simp add: ask_event_def)
    next
      case False
      then have "ask_event X i sy = sy\<lparr>sySched := t\<rparr>"
        using ask \<open>live sy i = Some w\<close> Some by (auto simp: ask_event_def split: option.split reply.split)
      then show ?thesis using t by simp
    qed
  qed
qed (use sy in \<open>simp add: ask_event_def served_def\<close>)

lemma status_event_ok:
  assumes X: "env_ok X" and sy: "system_ok X sy"
  shows "system_ok X (status_event X i sy) \<and> served X ev (sySched sy) (sySched (status_event X i sy))
     \<and> (reached (seServer X) (sePolicy X) (sySched sy) \<longrightarrow> live (status_event X i sy) i = None)"
proof (cases "live sy i")
  case (Some w)
  then have "Some w \<in> set (syNodes sy)" by (auto simp: live_def split: if_splits) (metis nth_mem)
  then have w: "connected (nwID w) (sySched sy)" using sy by (simp add: system_ok_def node_ok_def)
  let ?c = "MonitorTurnCall (nwID w)"
  obtain q t where ask: "ask X ?c sy = (q, sy\<lparr>sySched := t\<rparr>)"
    and t: "system_ok X (sy\<lparr>sySched := t\<rparr>)" "served X ev (sySched sy) t"
    and run: "\<And>r. q = Some r \<Longrightarrow> serve (seServer X) (sePolicy X) ?c (sySched sy) = Done r t
       \<and> reached (seServer X) (sePolicy X) (sySched sy)"
    by (rule ask_ok [OF X sy, of ?c ev]) (simp, simp, simp, rule that)
  show ?thesis
  proof (cases q)
    case None
    have "\<not> reached (seServer X) (sePolicy X) (sySched sy)"
    proof
      assume r: "reached (seServer X) (sePolicy X) (sySched sy)"
      have E: "any_mutex (mutex (seServer X))" using X by (simp add: env_ok_def)
      have "\<exists>r t. serve (seServer X) (sePolicy X) ?c (sySched sy) = Done r t"
        using reads_only_ask(1) [OF E reached_calm(2) [OF E r], of "nwID w"] by auto
      then show False using ask None sy by (auto simp: ask_def system_ok_def)
    qed
    then show ?thesis using Some ask None t by (simp add: status_event_def)
  next
    case (Some r)
    have "monitor_turn (seServer X) (nwID w) (sySched sy) \<noteq> Done (Inl e) t" for e
      using w by (auto simp: monitor_turn_def with_rlock_def locked_def connected_def bind_res_Done_iff split: option.splits)
    moreover have "wsGpus resp \<noteq> []" if "monitor_turn (seServer X) (nwID w) (sySched sy) = Done (Inr resp) t" for resp
      using w that by (auto simp: monitor_turn_def with_rlock_def locked_def connected_def bind_res_Done_iff split: option.splits)
    moreover obtain m where m: "monitor_turn (seServer X) (nwID w) (sySched sy) = Done m t" "r = MonitorTurnReply m"
      using run [OF Some] by auto
    ultimately obtain resp where resp: "r = MonitorTurnReply (Inr resp)" "wsGpus resp \<noteq> []"
      by (cases m) auto
    from node_turn_ok [OF X t(1), of "Receive resp" i] resp show ?thesis
      using t(2) ask \<open>live sy i = Some w\<close> Some by (simp add: status_event_def)
  qed
qed (use sy in \<open>simp add: status_event_def served_def\<close>)

lemma sys_step_ok:
  assumes X: "env_ok X" and sy: "system_ok X sy" and ev: "event_ok ev"
  shows "system_ok X (sys_step X ev sy) \<and> served X ev (sySched sy) (sySched (sys_step X ev sy))"
proof -
  have turn: "system_ok X (node_turn X i e sy) \<and> served X ev (sySched sy) (sySched (node_turn X i e sy))"
    if "idle_event e" for i e using node_turn_ok [OF X sy that] by (simp add: served_def)
  have call: "system_ok X (snd (ask X c sy)) \<and> served X ev (sySched sy) (sySched (snd (ask X c sy)))"
    if "request_ok c" "\<forall>u. c \<noteq> ReportTaskStatusCall u" "\<forall>task. c = AddTaskCall task \<longrightarrow> ev = InProcessAdd task" for c
    using ask_ok [OF X sy that] by (metis snd_conv system.select_convs(1) system.surjective system.update_convs(1))
  show ?thesis
    using start_event_ok [OF X sy] ask_event_ok [OF X sy] status_event_ok [OF X sy] turn call ev
    by (cases ev) auto
qed

text \<open>What every served request keeps, a run of the system keeps.\<close>

lemma sys_run_rule:
  assumes "env_ok X" and "system_ok X sy" and "list_all event_ok evs" and "P (sySched sy)"
    and keep: "\<And>ev s t. ev \<in> set evs \<Longrightarrow> server_ok (seServer X) (sePolicy X) s \<Longrightarrow> served X ev s t \<Longrightarrow> P s \<Longrightarrow> P t"
  shows "P (sySched (sys_run X evs sy)) \<and> system_ok X (sys_run X evs sy)"
  using assms(2-5)
proof (induction evs arbitrary: sy)
  case (Cons ev evs)
  let ?u = "sys_step X ev sy"
  have step: "system_ok X ?u \<and> served X ev (sySched sy) (sySched ?u)"
    using Cons.prems by (intro sys_step_ok [OF assms(1)]) simp_all
  have "P (sySched ?u)"
    using Cons.prems(4) [of ev "sySched sy" "sySched ?u"] Cons.prems(1,3) step by (simp add: system_ok_def)
  with step Cons.prems(2,4) have "P (sySched (sys_run X evs ?u)) \<and> system_ok X (sys_run X evs ?u)"
    by (intro Cons.IH) auto
  then show ?case by (simp add: sys_run_def)
qed (simp add: sys_run_def)

lemma system_start_ok: "system_ok X (system_start b m)"
  using reached.start [of "seServer X" "sePolicy X"]
  by (simp add: system_ok_def system_start_def server_ok_def) (simp add: NewScheduler_def)

lemma sys_run_ok: "env_ok X \<Longrightarrow> list_all event_ok evs \<Longrightarrow> system_ok X (sys_run X evs (system_start b m))"
  using sys_run_rule [where P = "\<lambda>_. True", OF _ system_start_ok] by blast

end
