(* ===== verification/SchedStatus.thy ===== *)
theory SchedStatus
  imports System
begin

text \<open>
  The types of the scheduler's state beyond what Go's type checker sees: keys agree with ids, references lead to
  tasks, and a worker's status agrees with its tasks.
\<close>

definition busy_iff_tasks :: "sched \<Rightarrow> bool" where
  "busy_iff_tasks s \<longleftrightarrow> (\<forall>w wk. map_of (workers s) w = Some wk \<longrightarrow>
     wStatus wk = (if wTasks wk = [] then WorkerStatus_IDLE else WorkerStatus_BUSY))"

text \<open>Together with the keys of the map, which the rule for the handlers needs.\<close>

definition status_ok :: "sched \<Rightarrow> bool" where
  "status_ok s \<longleftrightarrow> map_ok (workers s) \<and> busy_iff_tasks s"

lemma status_ok_workers: "workers t = workers s \<Longrightarrow> status_ok s \<Longrightarrow> status_ok t"
  by (simp add: status_ok_def busy_iff_tasks_def)

lemma insensitive_status: "insensitive status_ok"
  by (auto simp: insensitive_def status_ok_def busy_iff_tasks_def sched_frame)

lemma status_modify:
  assumes "status_ok s"
    and "\<And>wk. map_of (workers s) w = Some wk \<Longrightarrow> wStatus wk = (if wTasks wk = [] then WorkerStatus_IDLE else WorkerStatus_BUSY)
      \<Longrightarrow> wStatus (f wk) = (if wTasks (f wk) = [] then WorkerStatus_IDLE else WorkerStatus_BUSY)"
  shows "status_ok (modify_worker w f s)"
  using assms unfolding status_ok_def busy_iff_tasks_def
  by (auto simp: map_of_modify_worker map_ok_modify_worker)

lemma mput_not_Nil [simp]: "mput k v m \<noteq> []"
  by (cases m) (auto split: if_splits)

lemma status_place:
  assumes "status_ok s"
  shows "status_ok (place_on i b v gs (tick (start_task E b v gs s)))"
proof -
  have "status_ok (tick (start_task E b v gs s))"
    by (rule status_ok_workers [OF _ assms]) (simp add: sched_frame)
  then have "status_ok (modify_worker v (occupy (tID (heap (tick (start_task E b v gs s)) b)) b gs)
      (tick (start_task E b v gs s)))"
    by (rule status_modify) (simp add: occupy_simps)
  then show ?thesis unfolding place_on_def by (rule status_ok_workers [rotated]) (simp add: sched_frame)
qed

lemma status_new: "status_ok s \<Longrightarrow> status_ok (s\<lparr>workers := mput v (new_worker v req) (workers s)\<rparr>)"
  by (simp add: status_ok_def busy_iff_tasks_def new_worker_def)

section \<open>Status reports\<close>

lemma keeps_status_assign: "keeps status_ok (assignPendingTasks E (AssignTask p))"
  by (rule pol.keeps_assignPendingTasks [OF insensitive_status])
     (simp_all add: status_place, simp add: status_ok_def)

text \<open>Without its last task a worker is BUSY for a moment; the next statement makes it IDLE.\<close>

lemma status_task_removed:
  assumes s: "status_ok s"
  shows "status_ok (final_state (idle_if_no_tasks E w (modify_worker w (\<lambda>wk. wk\<lparr>wTasks := mdel k (wTasks wk)\<rparr>) s)))"
proof (cases "map_of (workers s) w")
  case None
  then have "modify_worker w f s = s" for f by (simp add: modify_worker_def)
  then show ?thesis using s None by (simp add: idle_if_no_tasks_def)
next
  case (Some wk)
  let ?f = "\<lambda>wk. wk\<lparr>wTasks := mdel k (wTasks wk)\<rparr>" and ?g = "\<lambda>wk. wk\<lparr>wStatus := WorkerStatus_IDLE\<rparr>"
  let ?u = "modify_worker w ?f s"
  have u: "map_of (workers ?u) w = Some (?f wk)" using Some by (simp add: map_of_modify_worker)
  have other: "map_of (workers ?u) v = Some vk \<Longrightarrow> v \<noteq> w \<Longrightarrow>
      wStatus vk = (if wTasks vk = [] then WorkerStatus_IDLE else WorkerStatus_BUSY)" for v vk
    using s by (auto simp: map_of_modify_worker status_ok_def busy_iff_tasks_def)
  have mo: "map_ok (workers ?u)" using s by (simp add: status_ok_def map_ok_modify_worker)
  show ?thesis
  proof (cases "mdel k (wTasks wk) = []")
    case True
    have "status_ok (modify_worker w ?g ?u)" unfolding status_ok_def busy_iff_tasks_def
    proof (intro conjI allI impI)
      fix v vk assume "map_of (workers (modify_worker w ?g ?u)) v = Some vk"
      then show "wStatus vk = (if wTasks vk = [] then WorkerStatus_IDLE else WorkerStatus_BUSY)"
        using u True other by (cases "v = w") (auto simp: map_of_modify_worker)
    qed (use mo in \<open>simp add: map_ok_modify_worker\<close>)
    moreover have "keeps status_ok (block [recordWorkerStatusChange E])"
      by (intro keeps_intros keeps_small insensitive_status)
    ultimately have "status_ok (final_state (block [act (modify_worker w ?g), recordWorkerStatusChange E] ?u))"
      unfolding block_act by (rule keepsD [rotated])
    then show ?thesis using u True by (simp add: idle_if_no_tasks_def del: block.simps)
  next
    case False
    then have "wTasks wk \<noteq> []" by auto
    have "status_ok ?u" unfolding status_ok_def busy_iff_tasks_def
    proof (intro conjI allI impI)
      fix v vk assume v: "map_of (workers ?u) v = Some vk"
      show "wStatus vk = (if wTasks vk = [] then WorkerStatus_IDLE else WorkerStatus_BUSY)"
      proof (cases "v = w")
        case True
        have "wStatus wk = WorkerStatus_BUSY"
          using s Some \<open>wTasks wk \<noteq> []\<close> by (simp add: status_ok_def busy_iff_tasks_def)
        then show ?thesis using v u True False by auto
      qed (rule other [OF v])
    qed (rule mo)
    then show ?thesis using u False by (simp add: idle_if_no_tasks_def)
  qed
qed

lemma keeps_status_finish: "keeps status_ok (finish_task E (AssignTask p) k w a)"
proof -
  let ?del = "act (modify_worker w (\<lambda>wk. wk\<lparr>wTasks := mdel k (wTasks wk)\<rparr>))"
  have "keeps status_ok (\<lambda>s. bind_res (idle_if_no_tasks E w (modify_worker w (\<lambda>wk. wk\<lparr>wTasks := mdel k (wTasks wk)\<rparr>) s))
      (\<lambda>_. block [assignPendingTasks E (AssignTask p)]))"
    by (intro keeps_bind keeps_intros keeps_status_assign) (simp add: keeps_def status_task_removed)
  then have last: "keeps status_ok (block [?del, idle_if_no_tasks E w, assignPendingTasks E (AssignTask p)])"
    by (simp only: keeps_def block_act block.simps(2) [of "idle_if_no_tasks E w"])
  have free: "keeps status_ok (act (\<lambda>s. modify_worker w
      (\<lambda>wk. wk\<lparr>wGPUs := set_available True (tAssignedGPUs (heap s a)) (wGPUs wk)\<rparr>) s))"
    by (rule keeps_act) (erule status_modify, simp)
  show ?thesis unfolding finish_task_def
    by (intro keeps_block_Cons keeps_small insensitive_status free last)
qed

lemma keeps_status_report: "keeps status_ok (ReportTaskStatus E (AssignTask p) u)"
proof -
  have mu: "status_ok (s\<lparr>mu := m\<rparr>) = status_ok s" for s m
    using insensitive_status by (simp add: insensitive_def)
  have task: "keeps status_ok (act (modify_task a f))" for a f
    by (rule keeps_act, erule status_ok_workers [rotated]) (simp add: sched_frame)
  have "keeps status_ok (\<lambda>s. if c then finish_task E (AssignTask p) k w a s else Done () s)" for c k w a
    by (auto simp: keeps_def keepsD [OF keeps_status_finish])
  then have "keeps status_ok (apply_update E (AssignTask p) u a)" for a unfolding apply_update_def
    by (intro keeps_block_Cons keeps_block_Nil keeps_small insensitive_status task)
  then show ?thesis unfolding ReportTaskStatus_def
    by (intro keeps_with_lock [OF mu]) (auto simp: keeps_def Let_def split: option.split)
qed

text \<open>C13: Every state the server reaches is well formed, with either mutex: the keys of the two maps are the ids of what they
  hold, no worker has an empty id, every task that is pending or in a worker's map exists and is registered under
  its id, and a worker is BUSY exactly when it has tasks and IDLE otherwise. The two other statuses of the protocol, OFFLINE and
  ERROR, are never given to a worker.\<close>

theorem reachable_states_are_well_formed:
  assumes "mutex E \<in> {go_rwmutex, reentrant_rwmutex}" and "reached E p s"
  shows "sched_wf s \<and> (\<forall>w wk. map_of (workers s) w = Some wk \<longrightarrow>
     wStatus wk = (if wTasks wk = [] then WorkerStatus_IDLE else WorkerStatus_BUSY))"
proof -
  have E: "any_mutex (mutex E)" using assms(1) by (simp add: any_mutex_def)
  have "status_ok s" using assms(2)
  proof (induction rule: reached.induct)
    case (start b m)
    then show ?case by (simp add: status_ok_def busy_iff_tasks_def NewScheduler_def)
  next
    case (step s c r t)
    have "status_ok (final_state (serve E p c s))"
    proof (cases "\<exists>u. c = ReportTaskStatusCall u")
      case True
      have "final_state (map_reply f x) = final_state x" for f :: "grpc_error + TaskStatusResponse \<Rightarrow> reply" and x :: "(_, sched) res"
        by (cases x) simp_all
      then show ?thesis using True keepsD [OF keeps_status_report step.IH] by auto
    next
      case False
      show ?thesis
      proof (rule keeps_serve [OF E _ _ step.IH insensitive_status])
        show "server_ok E p s" using step.hyps(1) by (simp add: server_ok_def)
        show "status_ok t" if "only_asked s t" "status_ok s" for s t
          using that by (auto intro: status_ok_workers simp: only_askedD)
        show "status_ok (snd (alloc_task task s)) \<and> status_ok (s\<lparr>tasks := ts\<rparr>) \<and> status_ok (s\<lparr>pendingTasks := ps\<rparr>)"
          if "status_ok s" for s task ts ps
          using status_ok_workers [OF _ that] by (simp add: alloc_task_def)
        show "map_ok (workers s)" if "status_ok s" for s using that by (simp add: status_ok_def)
      qed (use False in \<open>simp_all add: status_place status_new\<close>)
    qed
    then show ?case using step.hyps(3) by simp
  qed
  moreover have "sched_wf s" using reached_calm(1) [OF E assms(2)] by (simp add: serving_def)
  ultimately show ?thesis by (simp add: status_ok_def busy_iff_tasks_def)
qed

theorem reachable_states_are_well_formed_witness:
  "\<exists>s. example_run (\<lambda>_ _. True) [RegisterWorkerCall example_request] = Some s \<and> sched_wf s
     \<and> map (wStatus \<circ> snd) (workers s) = [WorkerStatus_IDLE]"
proof -
  have "map_option (\<lambda>s. map (\<lambda>p. (fst p, wTasks (snd p))) (workers s))
      (example_run (\<lambda>_ _. True) [RegisterWorkerCall example_request]) = Some [(''w1'', [])]" by code_simp
  then obtain s where s: "example_run (\<lambda>_ _. True) [RegisterWorkerCall example_request] = Some s"
    "map (\<lambda>p. (fst p, wTasks (snd p))) (workers s) = [(''w1'', [])]" by auto
  then obtain wk where wk: "workers s = [(''w1'', wk)]" "wTasks wk = []" by auto
  have "mutex (example_env reentrant_rwmutex) \<in> {go_rwmutex, reentrant_rwmutex}" by (simp add: example_env_def)
  note P = reachable_states_are_well_formed [OF this example_run_reached [OF s(1)]]
  have "map_of (workers s) ''w1'' = Some wk" by (simp add: wk)
  then have "wStatus wk = WorkerStatus_IDLE" using P wk(2) by simp
  then show ?thesis using s(1) P wk by simp
qed

end
