(* ===== verification/SchedLedger.thy ===== *)
theory SchedLedger
  imports SchedStatus
begin

text \<open>
  What the scheduler promises its clients, as a ledger: workers are entered once, tasks are queued once, and a queued task is
  placed once, on a registered worker, with as many of its GPUs as the task asks for. The handlers refine it.
\<close>

section \<open>The ledger\<close>

type_synonym task_spec = "string \<times> string \<times> u32 \<times> u64 \<times> bytes"

datatype entry = Queued | Placed string "string list" int

record ledger =
  lgWorkers :: "string \<rightharpoonup> string list \<times> string"
  lgEntries :: "task_addr \<rightharpoonup> task_spec \<times> entry"

definition demand :: "task_spec \<Rightarrow> nat" where
  "demand c = (case c of (_, _, n, _) \<Rightarrow> unat n)"

inductive ledger_step :: "ledger \<Rightarrow> ledger \<Rightarrow> bool" where
  register: "lgWorkers L w = None \<Longrightarrow> ledger_step L (L\<lparr>lgWorkers := (lgWorkers L)(w \<mapsto> x)\<rparr>)"
| submit: "lgEntries L a = None \<Longrightarrow> ledger_step L (L\<lparr>lgEntries := (lgEntries L)(a \<mapsto> (c, Queued))\<rparr>)"
| place: "lgEntries L a = Some (c, Queued) \<Longrightarrow> lgWorkers L w = Some (ids, addr) \<Longrightarrow> set gs \<subseteq> set ids \<Longrightarrow>
    length gs = demand c \<Longrightarrow> ledger_step L (L\<lparr>lgEntries := (lgEntries L)(a \<mapsto> (c, Placed w gs u))\<rparr>)"

abbreviation ledger_steps :: "ledger \<Rightarrow> ledger \<Rightarrow> bool" where
  "ledger_steps \<equiv> ledger_step\<^sup>*\<^sup>*"

lemma placed_stays:
  "ledger_steps L M \<Longrightarrow> lgEntries L a = Some (c, Placed w gs u) \<Longrightarrow> lgEntries M a = Some (c, Placed w gs u)"
proof (induction rule: rtranclp_induct)
  case (step M N)
  from step.hyps(2) step.IH [OF step.prems] show ?case by cases auto
qed

section \<open>The scheduler as a ledger\<close>

definition task_spec :: "Task \<Rightarrow> task_spec" where
  "task_spec t = (tID t, tName t, tRequiredGPUs t, tMinGPUMemory t, tConfiguration t)"

definition entry_of :: "sched \<Rightarrow> task_addr \<Rightarrow> entry" where
  "entry_of s a = (if a \<in> set (pendingTasks s) then Queued
     else Placed (tWorkerID (heap s a)) (tAssignedGPUs (heap s a)) (tStartTime (heap s a)))"

definition ledger_of :: "sched \<Rightarrow> ledger" where
  "ledger_of s = \<lparr>lgWorkers = (\<lambda>w. map_option (\<lambda>wk. (map gID (wGPUs wk), wAddress wk)) (map_of (workers s) w)),
     lgEntries = (\<lambda>a. if a < heapNext s then Some (task_spec (heap s a), entry_of s a) else None)\<rparr>"

lemma ledger_cong:
  assumes "\<And>w. map_option (\<lambda>wk. (map gID (wGPUs wk), wAddress wk)) (map_of (workers t) w)
      = map_option (\<lambda>wk. (map gID (wGPUs wk), wAddress wk)) (map_of (workers s) w)"
    and "heapNext t = heapNext s"
    and "\<And>a. a < heapNext s \<Longrightarrow> task_spec (heap t a) = task_spec (heap s a) \<and> entry_of t a = entry_of s a"
  shows "ledger_of t = ledger_of s"
  using assms by (auto simp: ledger_of_def fun_eq_iff)

lemma ledger_same:
  assumes "workers t = workers s" and "heapNext t = heapNext s" and "heap t = heap s" and "pendingTasks t = pendingTasks s"
  shows "ledger_of t = ledger_of s"
  by (rule ledger_cong) (simp_all add: assms entry_of_def)

lemma ids_set_available [simp]: "map gID (set_available b ids gpus) = map gID gpus"
  by (simp add: set_available_map)

lemma ledger_modify_worker:
  assumes "\<And>wk. map gID (wGPUs (f wk)) = map gID (wGPUs wk) \<and> wAddress (f wk) = wAddress wk"
  shows "ledger_of (modify_worker w f s) = ledger_of s"
proof -
  have "map_option (\<lambda>wk. (map gID (wGPUs wk), wAddress wk)) (map_option f v)
      = map_option (\<lambda>wk. (map gID (wGPUs wk), wAddress wk)) v" for v
    using assms by (cases v) simp_all
  then show ?thesis by (intro ledger_cong) (simp_all add: sched_frame entry_of_def)
qed

lemma ledger_modify_task:
  assumes "\<And>t. task_spec (f t) = task_spec t \<and> tWorkerID (f t) = tWorkerID t
      \<and> tAssignedGPUs (f t) = tAssignedGPUs t \<and> tStartTime (f t) = tStartTime t"
  shows "ledger_of (modify_task a f s) = ledger_of s"
  by (rule ledger_cong) (simp_all add: sched_frame entry_of_def assms)

section \<open>The handlers\<close>

definition follows :: "ledger \<Rightarrow> sched \<Rightarrow> bool" where
  "follows L s \<longleftrightarrow> sched_wf s \<and> ledger_steps L (ledger_of s)"

lemma insensitive_follows: "insensitive (follows L)"
proof -
  have "ledger_of (s\<lparr>mu := m\<rparr>) = ledger_of s" "ledger_of (record_call c s) = ledger_of s"
    "ledger_of (tick s) = ledger_of s" "ledger_of (request_save s) = ledger_of s" for s m c
    by (rule ledger_same; simp add: sched_frame)+
  then show ?thesis using insensitive_wf by (simp add: insensitive_def follows_def)
qed

lemma follows_mu: "follows L (s\<lparr>mu := m\<rparr>) = follows L s"
  using insensitive_follows by (simp add: insensitive_def)

lemma follows_place:
  assumes s: "follows L s" and i: "i < length (pendingTasks s)" and a: "a = pendingTasks s ! i"
    and w: "map_of (workers s) w = Some wk" and fit: "policy_suits p (heap s a) wk"
    and gs: "gs = take (unat (tRequiredGPUs (heap s a))) (collect_gpus (heap s a) (wGPUs wk))"
  shows "follows L (place_on i a w gs (tick (start_task E a w gs s)))"
proof -
  let ?t = "place_on i a w gs (tick (start_task E a w gs s))"
  let ?u = "tick (start_task E a w gs s)"
  have wf: "sched_wf s" and steps: "ledger_steps L (ledger_of s)" using s by (simp_all add: follows_def)
  have n: "a < heapNext s" using wf_pending_bound [OF wf i] a by simp
  have wf': "sched_wf ?t" by (intro wf_place_on wf_tick wf_start_task wf) (simp add: sched_frame n)
  have pend: "a \<in> set (pendingTasks s)" using i a by simp
  obtain xs ys where q: "pendingTasks s = xs @ a # ys" "pendingTasks ?t = xs @ ys"
    using id_take_nth_drop [OF i] a by (metis append_same_eq pendingTasks_simps(1,2,4,5) place_on_def)
  have heap: "heap ?t b = (if b = a then (heap s a)\<lparr>tStatus := TaskStatus_RUNNING, tWorkerID := w, tAssignedGPUs := gs,
      tStartTime := clock E (envTick s)\<rparr> else heap s b)" for b
    by (simp add: place_on_def sched_frame)
  have workers: "lgWorkers (ledger_of ?t) = lgWorkers (ledger_of s)"
    using ledger_modify_worker [of "occupy (tID (heap ?u a)) a gs" w ?u]
    by (auto simp: ledger_of_def place_on_def sched_frame fun_eq_iff)
  have next_t: "heapNext ?t = heapNext s" by (simp add: sched_frame)
  have spec: "task_spec (heap ?t b) = task_spec (heap s b)" for b by (simp add: heap task_spec_def)
  have other: "entry_of ?t b = entry_of s b" if "b \<noteq> a" for b using that q by (simp add: entry_of_def heap)
  show ?thesis
  proof (cases "a \<in> set (xs @ ys)")
    case True
    then have "entry_of ?t b = entry_of s b" for b using other [of b] q pend by (cases "b = a") (auto simp: entry_of_def)
    then have "ledger_of ?t = ledger_of s"
      using workers next_t spec by (simp add: ledger_of_def cong: if_cong)
    then show ?thesis using wf' steps by (simp add: follows_def)
  next
    case False
    let ?c = "task_spec (heap s a)" and ?p = "Placed w gs (clock E (envTick s))"
    have "entry_of ?t a = ?p" using False q by (simp add: entry_of_def heap)
    then have t: "ledger_of ?t = (ledger_of s)\<lparr>lgEntries := (lgEntries (ledger_of s))(a \<mapsto> (?c, ?p))\<rparr>"
      using workers next_t spec other n by (auto simp: ledger_of_def fun_eq_iff)
    have "ledger_step (ledger_of s) (ledger_of ?t)" unfolding t
    proof (rule ledger_step.place)
      show "lgEntries (ledger_of s) a = Some (?c, Queued)" using n pend by (simp add: ledger_of_def entry_of_def)
      show "lgWorkers (ledger_of s) w = Some (map gID (wGPUs wk), wAddress wk)" using w by (simp add: ledger_of_def)
      show "set gs \<subseteq> set (map gID (wGPUs wk))"
        using gs by (auto simp: collect_gpus_eq dest!: in_set_takeD)
      show "length gs = demand ?c" using gs pol.suits_length [OF fit] by (simp add: demand_def task_spec_def)
    qed
    then show ?thesis using wf' steps by (simp add: follows_def)
  qed
qed

lemma keeps_follows_assign: "keeps (follows L) (assignPendingTasks E (AssignTask p))"
  by (rule pol.keeps_assignPendingTasks [OF insensitive_follows])
     (simp add: follows_def wf_map_ok, rule follows_place)

lemmas follows_intros = keeps_intros keeps_small [OF insensitive_follows] keeps_follows_assign

lemma follows_modify_worker:
  assumes "\<And>wk. map gID (wGPUs (f wk)) = map gID (wGPUs wk) \<and> wAddress (f wk) = wAddress wk"
    and "\<And>s wk. worker_ok s w wk \<Longrightarrow> worker_ok s w (f wk)" and "follows L s"
  shows "follows L (modify_worker w f s)"
  using assms(3) ledger_modify_worker [of f w s, OF assms(1)] wf_modify_worker [of s w f] assms(2) by (simp add: follows_def)

lemma keeps_follows_register:
  assumes "length (rwGpus req) < 2 ^ 32"
  shows "keeps (follows L) (RegisterWorker E (AssignTask p) req)"
  unfolding RegisterWorker_def
proof (rule keeps_with_lock [OF follows_mu], rule keepsI)
  fix s r1 r2 assume s: "follows L s"
  let ?v = "assigned_id req s"
  have "follows L (final_state (admit_worker E (AssignTask p) ?v req s))" if "map_of (workers s) ?v = None"
  proof -
    let ?t = "s\<lparr>workers := mput ?v (new_worker ?v req) (workers s)\<rparr>"
    have "ledger_of ?t = (ledger_of s)\<lparr>lgWorkers := (lgWorkers (ledger_of s))
        (?v \<mapsto> (map gID (map gpu_of_pb (rwGpus req)), rwAddress req))\<rparr>"
      by (auto simp: ledger_of_def new_worker_def entry_of_def fun_eq_iff)
    moreover have "lgWorkers (ledger_of s) ?v = None" using that by (simp add: ledger_of_def)
    ultimately have "ledger_step (ledger_of s) (ledger_of ?t)" by (simp add: ledger_step.register)
    moreover have "sched_wf ?t" using s by (intro wf_add_worker assigned_id_nonempty assms) (simp add: follows_def)
    ultimately have t: "follows L ?t" using s by (auto simp: follows_def)
    have "keeps (follows L) (block [recordWorkerRegistration E, UpdatePersistentState E, assignPendingTasks E (AssignTask p)])"
      by (intro follows_intros)
    from keepsD [OF this t] show ?thesis unfolding admit_worker_def block_act .
  qed
  then show "follows L (final_state (let v = assigned_id req s in
      if map_of (workers s) v \<noteq> None then Done (r1 v) s
      else returning (r2 v) (admit_worker E (AssignTask p) v req s)))"
    using s by (simp add: Let_def)
qed

lemma keeps_follows_report: "keeps (follows L) (ReportTaskStatus E (AssignTask p) u)"
proof -
  have idle: "keeps (follows L) (idle_if_no_tasks E w)" for w
  proof (rule keepsI)
    fix s assume s: "follows L s"
    have "keeps (follows L) (block [act (modify_worker w (\<lambda>wk. wk\<lparr>wStatus := WorkerStatus_IDLE\<rparr>)), recordWorkerStatusChange E])"
      by (intro follows_intros keeps_act follows_modify_worker worker_ok_fields) simp_all
    from keepsD [OF this s] s show "follows L (final_state (idle_if_no_tasks E w s))"
      unfolding idle_if_no_tasks_def by (simp split: option.split del: block.simps)
  qed
  have finish: "keeps (follows L) (finish_task E (AssignTask p) k w a)" for k w a
    unfolding finish_task_def
    by (intro follows_intros idle keeps_act follows_modify_worker worker_ok_fields) simp_all
  have task: "follows L (modify_task a (\<lambda>t. t\<lparr>tStatus := x, tProgress := y, tMetrics := z\<rparr>) s)" if "follows L s" for a x y z s
  proof -
    have "ledger_of (modify_task a (\<lambda>t. t\<lparr>tStatus := x, tProgress := y, tMetrics := z\<rparr>) s) = ledger_of s"
      by (rule ledger_modify_task) (simp add: task_spec_def)
    then show ?thesis using that wf_set_task [of s "\<lambda>t. t\<lparr>tStatus := x, tProgress := y, tMetrics := z\<rparr>" a] by (simp add: follows_def)
  qed
  have upd: "keeps (follows L) (apply_update E (AssignTask p) u a)" for a
    unfolding apply_update_def by (intro follows_intros keeps_act finish task)
  show ?thesis unfolding ReportTaskStatus_def
    by (intro keeps_with_lock [OF follows_mu]) (auto simp: keeps_def Let_def keepsD [OF upd] split: option.split)
qed

lemma follows_submit:
  assumes s: "follows L s" and "submit_task E (AssignTask p) task s = Done r t"
  shows "follows L t"
proof -
  let ?a = "heapNext s" and ?s = "snd (alloc_task task s)"
  let ?rest = "[recordTaskSubmission E, UpdatePersistentState E, assignPendingTasks E (AssignTask p)]"
  have wf: "sched_wf ?s" using s by (simp add: follows_def wf_alloc)
  have queued: "follows L (?s\<lparr>mu := m, tasks := mput (tID task) ?a (tasks s), pendingTasks := pendingTasks s @ [?a]\<rparr>)"
    (is "follows L ?u") for m
  proof -
    have old: "b \<in> set (pendingTasks s) \<Longrightarrow> b < ?a" for b using s by (auto simp: follows_def sched_wf_def)
    have "ledger_of ?u = (ledger_of s)\<lparr>lgEntries := (lgEntries (ledger_of s))(?a \<mapsto> (task_spec task, Queued))\<rparr>"
      by (auto simp: ledger_of_def entry_of_def alloc_task_def fun_eq_iff less_Suc_eq)
    moreover have "lgEntries (ledger_of s) ?a = None" by (simp add: ledger_of_def)
    ultimately have "ledger_step (ledger_of s) (ledger_of ?u)" by (simp add: ledger_step.submit)
    moreover have "sched_wf ?u"
    proof -
      have "sched_wf (?s\<lparr>mu := m\<rparr>)" using wf by (simp add: wf_mu)
      from wf_enqueue(1) [OF this, of ?a] have "sched_wf (?s\<lparr>mu := m, tasks := mput (tID task) ?a (tasks s)\<rparr>)"
        by (simp add: alloc_task_def)
      from wf_enqueue(2) [OF this, of ?a] show ?thesis by (simp add: alloc_task_def)
    qed
    ultimately show ?thesis using s by (auto simp: follows_def)
  qed
  have "keeps (follows L) (block ?rest)" by (intro follows_intros)
  from keepsD [OF this queued] have body: "follows L (final_state (block
      (act (\<lambda>s. s\<lparr>tasks := mput (tID (heap s ?a)) ?a (tasks s)\<rparr>) # act (\<lambda>s. s\<lparr>pendingTasks := pendingTasks s @ [?a]\<rparr>) # ?rest)
      (?s\<lparr>mu := m\<rparr>)))" for m
    by (simp only: block_act) (simp add: alloc_task_def del: block.simps)
  obtain m u m' where "block (act (\<lambda>s. s\<lparr>tasks := mput (tID (heap s ?a)) ?a (tasks s)\<rparr>)
      # act (\<lambda>s. s\<lparr>pendingTasks := pendingTasks s @ [?a]\<rparr>) # ?rest) (?s\<lparr>mu := m\<rparr>) = Done r u" "t = u\<lparr>mu := m'\<rparr>"
    using assms(2) unfolding submit_task_def AddTask_def with_lock_def locked_def
    by (auto simp: alloc_task_def bind_res_Done_iff simp del: block.simps split: option.splits)
  then show ?thesis using body [of m] by (simp add: follows_mu)
qed

lemma follows_serve:
  assumes "any_mutex (mutex E)" and "reached E p s" and "request_ok c" and "serve E p c s = Done r t" and s: "follows L s"
  shows "follows L t"
proof -
  have asked: "follows L u" if "only_asked s u" for u
    using s ledger_same [of u s] only_askedD [OF that] wf_only_asked [OF that] by (simp add: follows_def)
  note u = reached_calm(2) [OF assms(1,2)]
  show ?thesis
  proof (cases c)
    case (RegisterWorkerCall req)
    then have "length (rwGpus req) < 2 ^ 32" using assms(3) by simp
    from keepsD [OF keeps_follows_register [OF this] s, of E p] show ?thesis using assms(4) RegisterWorkerCall by auto
  next
    case (RequestTaskCall req)
    obtain e v where "RequestTask E (AssignTask p) req s = Done (Inl e) v" "only_asked s v"
      by (rule reached_request_error [OF assms(1,2)])
    then show ?thesis using asked assms(4) RequestTaskCall by auto
  next
    case (ReportTaskStatusCall u)
    then show ?thesis using keepsD [OF keeps_follows_report s, of E p u] assms(4) by auto
  next
    case (MonitorTurnCall v)
    then show ?thesis using reads_only_ask(1) [OF assms(1) u, of v] asked assms(4) by auto
  next
    case ListWorkersCall
    then show ?thesis using reads_only_ask(2) [OF assms(1) u] asked assms(4) by auto
  next
    case (AddTaskCall task)
    then show ?thesis using follows_submit [OF s] assms(4) by auto
  qed
qed

lemma follows_run:
  "any_mutex (mutex E) \<Longrightarrow> reached E p s \<Longrightarrow> run_all chk E p cs s = Some t \<Longrightarrow> follows L s \<Longrightarrow> follows L t"
proof (induction cs arbitrary: s)
  case (Cons c cs)
  then obtain r u where "request_ok c" "serve E p c s = Done r u" "run_all chk E p cs u = Some t"
    by (auto split: if_splits res.splits)
  then show ?case using Cons.IH [of u] Cons.prems follows_serve [of E p s c r u L] reached.step [of E p s c r u] by blast
qed simp

text \<open>C12: The scheduler refines a ledger. Seen as a ledger, whatever requests a running server answers, in any order and
  including arbitrary status reports, is a sequence of three steps: a worker whose id is not in use is entered with its GPUs and its address; a
  task is queued with a number of its own; a queued task is placed on an entered worker, with exactly as many GPUs of that worker
  as it asks for. So no worker is lost or changes its GPUs, no task is lost or changes what it asks for, and a task that is placed is never
  placed again or moved: its worker, its GPUs and its start time stay for ever, also when the worker reports that it failed.\<close>

theorem scheduler_refines_ledger:
  assumes "mutex E \<in> {go_rwmutex, reentrant_rwmutex}" and "reached E p s" and "run_all chk E p cs s = Some t"
  shows "ledger_steps (ledger_of s) (ledger_of t)
    \<and> (\<forall>a c w gs u. lgEntries (ledger_of s) a = Some (c, Placed w gs u) \<longrightarrow> lgEntries (ledger_of t) a = Some (c, Placed w gs u))"
proof -
  have E: "any_mutex (mutex E)" using assms(1) by (simp add: any_mutex_def)
  have "follows (ledger_of s) s" using reached_calm(1) [OF E assms(2)] by (simp add: follows_def serving_def)
  then have steps: "ledger_steps (ledger_of s) (ledger_of t)" using follows_run [OF E assms(2,3)] by (simp add: follows_def)
  then show ?thesis using placed_stays by blast
qed

text \<open>A task is placed, fails, and stays where it was placed while another one takes its GPU.\<close>

theorem scheduler_refines_ledger_witness:
  "\<exists>s t. example_run (\<lambda>_ _. True) [example_worker ''w1'' [''g1''], example_task ''t1'', example_task ''t2''] = Some s
    \<and> run_all (\<lambda>_ _. True) (example_env reentrant_rwmutex) BalancedWorkloadPolicy [example_report ''w1'' ''t1'' TaskStatus_FAILED] s = Some t
    \<and> map (entry_of s) [0, 1] = [Placed ''w1'' [''g1''] 0, Queued] \<and> entry_of t 0 = Placed ''w1'' [''g1''] 0
    \<and> ledger_steps (ledger_of s) (ledger_of t)"
proof -
  let ?env = "example_env reentrant_rwmutex" and ?fail = "[example_report ''w1'' ''t1'' TaskStatus_FAILED]"
  have "map_option (\<lambda>s. (map (entry_of s) [0, 1], heapNext s,
      map_option heapNext (run_all (\<lambda>_ _. True) ?env BalancedWorkloadPolicy ?fail s)))
    (example_run (\<lambda>_ _. True) [example_worker ''w1'' [''g1''], example_task ''t1'', example_task ''t2''])
    = Some ([Placed ''w1'' [''g1''] 0, Queued], 2, Some 2)" by code_simp
  then obtain s t where s: "example_run (\<lambda>_ _. True) [example_worker ''w1'' [''g1''], example_task ''t1'', example_task ''t2''] = Some s"
    "run_all (\<lambda>_ _. True) ?env BalancedWorkloadPolicy ?fail s = Some t" "heapNext s = 2" "heapNext t = 2"
    "map (entry_of s) [0, 1] = [Placed ''w1'' [''g1''] 0, Queued]" by auto
  have "mutex ?env \<in> {go_rwmutex, reentrant_rwmutex}" by (simp add: example_env_def)
  note L = scheduler_refines_ledger [OF this example_run_reached [OF s(1)] s(2)]
  have "lgEntries (ledger_of s) 0 = Some (task_spec (heap s 0), Placed ''w1'' [''g1''] 0)"
    using s(3,5) by (simp add: ledger_of_def)
  then have "lgEntries (ledger_of t) 0 = Some (task_spec (heap s 0), Placed ''w1'' [''g1''] 0)" using L by blast
  then have "entry_of t 0 = Placed ''w1'' [''g1''] 0" using s(4) by (simp add: ledger_of_def)
  from s(1,2,5) this conjunct1 [OF L] show ?thesis by (intro exI [of _ s] exI [of _ t] conjI)
qed

end
