(* ===== verification/DBRefine.thy ===== *)
theory DBRefine
  imports PersistRT
begin

text \<open>
  The contract of the database layer (\<^verbatim>\<open>pkg/persistence/database.go\<close>) and its refinement. The
  specification is a store that knows whole workers and whole tasks: a task is kept together with the
  set of its GPUs, an operation either happens or reports an error and changes nothing. The
  implementation issues one statement per row on five tables, inside transactions.
\<close>

section \<open>The operations of the database manager\<close>

datatype db_op =
    DoSaveWorker WorkerModel "GPUModel list"
  | DoSaveTask TaskModel "string list"
  | DoSavePending string
  | DoRemovePending string
  | DoClear

fun db_do :: "'db gorm \<Rightarrow> stamps \<Rightarrow> db_op \<Rightarrow> 'db stmt" where
  "db_do G stamp (DoSaveWorker w gpus) = SaveWorker G w gpus"
| "db_do G stamp (DoSaveTask t ids) = SaveTask G t ids"
| "db_do G stamp (DoSavePending i) = SavePendingTask G stamp i"
| "db_do G stamp (DoRemovePending i) = RemovePendingTask G i"
| "db_do G stamp DoClear = ClearAllState G"

text \<open>A sequence of calls: which of them reported an error, and the state at the end.\<close>

fun run_ops :: "('o \<Rightarrow> 's \<Rightarrow> bool \<times> 's) \<Rightarrow> 'o list \<Rightarrow> 's \<Rightarrow> bool list \<times> 's" where
  "run_ops step [] s = ([], s)"
| "run_ops step (a # as) s =
     (case step a s of (err, s') \<Rightarrow> (case run_ops step as s' of (errs, t) \<Rightarrow> (err # errs, t)))"

definition db_step :: "'db gorm \<Rightarrow> stamps \<Rightarrow> db_op \<Rightarrow> 'db \<Rightarrow> bool \<times> 'db" where
  "db_step G stamp a db = (case db_do G stamp a db of (e, db') \<Rightarrow> (e \<noteq> None, db'))"

text \<open>Calls whose rows the drivers accept as they are: \<^verbatim>\<open>SaveWorker\<close> writes its own id into the GPU rows.\<close>

definition op_storable :: "db_op \<Rightarrow> bool" where
  "op_storable a = (case a of
      DoSaveWorker w gpus \<Rightarrow> storable_worker w \<and> (\<forall>g \<in> set gpus. storable_gpu (g\<lparr>gmWorkerID := wmID w\<rparr>))
    | DoSaveTask t ids \<Rightarrow> storable_task t \<and> list_all storable_text ids
    | DoSavePending i \<Rightarrow> storable_text i
    | DoRemovePending i \<Rightarrow> storable_text i
    | DoClear \<Rightarrow> True)"

section \<open>The specification\<close>

text \<open>A store holds the rows without the columns \<^verbatim>\<open>CreatedAt\<close> and \<^verbatim>\<open>UpdatedAt\<close>, which GORM sets.\<close>

record store =
  st_workers :: "string \<rightharpoonup> WorkerModel"
  st_gpus :: "string \<rightharpoonup> GPUModel"
  st_tasks :: "string \<rightharpoonup> TaskModel \<times> string set"
  st_pending :: "string set"

definition empty_store :: store where
  "empty_store = \<lparr>st_workers = Map.empty, st_gpus = Map.empty, st_tasks = Map.empty, st_pending = {}\<rparr>"

fun spec_step :: "db_op \<Rightarrow> store \<Rightarrow> bool \<times> store" where
  "spec_step (DoSaveWorker w gpus) S = (False, S\<lparr>st_workers := (st_workers S)(wmID w \<mapsto> plain_worker w),
     st_gpus := fold (\<lambda>g m. m(gmID g \<mapsto> plain_gpu (g\<lparr>gmWorkerID := wmID w\<rparr>))) gpus (st_gpus S)\<rparr>)"
| "spec_step (DoSaveTask t ids) S =
     (if distinct ids then (False, S\<lparr>st_tasks := (st_tasks S)(tmID t \<mapsto> (plain_task t, set ids))\<rparr>) else (True, S))"
| "spec_step (DoSavePending i) S =
     (if i \<in> st_pending S then (True, S) else (False, S\<lparr>st_pending := insert i (st_pending S)\<rparr>))"
| "spec_step (DoRemovePending i) S = (False, S\<lparr>st_pending := st_pending S - {i}\<rparr>)"
| "spec_step DoClear S = (False, empty_store)"

definition abs_store :: "tables \<Rightarrow> store" where
  "abs_store T = \<lparr>st_workers = tb_workers T, st_gpus = tb_gpus T,
     st_tasks = (\<lambda>k. map_option (\<lambda>t. (t, {i. (k, i) \<in> tb_task_gpus T})) (tb_tasks T k)),
     st_pending = tb_pending T\<rparr>"

text \<open>What the five queries answer, for keys that are text, is the content of a store.\<close>

definition answers_from :: "'db gorm \<Rightarrow> 'db \<Rightarrow> store \<Rightarrow> bool" where
  "answers_from G db S \<longleftrightarrow>
     lists_rows wmID (st_workers S) (plain_rows plain_worker (GetWorkers G db))
   \<and> (\<forall>w. storable_text w \<longrightarrow> lists_rows gmID (\<lambda>k. case st_gpus S k of
          Some g \<Rightarrow> if gmWorkerID g = w then Some g else None | None \<Rightarrow> None) (plain_rows plain_gpu (GetWorkerGPUs G w db)))
   \<and> lists_rows tmID (map_option fst \<circ> st_tasks S) (plain_rows plain_task (GetTasks G db))
   \<and> (\<forall>k t ids. storable_text k \<longrightarrow> st_tasks S k = Some (t, ids) \<longrightarrow>
        (\<exists>xs. GetTaskGPUs G k db = Inr xs \<and> distinct xs \<and> set xs = ids))
   \<and> (\<exists>xs. GetPendingTasks G db = Inr xs \<and> distinct xs \<and> set xs = st_pending S)"

section \<open>Each operation refines its specification\<close>

definition refines_at ::
  "'db gorm \<Rightarrow> stamps \<Rightarrow> ('db \<Rightarrow> tables) \<Rightarrow> ('db \<Rightarrow> bool) \<Rightarrow> db_op \<Rightarrow> 'db \<Rightarrow> bool" where
  "refines_at G stamp view up a db \<longleftrightarrow>
     (case db_step G stamp a db of (err, db') \<Rightarrow>
        up db' \<and> spec_step a (abs_store (view db)) = (err, abs_store (view db')))"

lemma refines_effects:
  assumes "effects view up p (db_do G stamp a) f" and "up db" and "p (view db)"
    and "spec_step a (abs_store (view db)) = (False, abs_store (f (view db)))"
  shows "refines_at G stamp view up a db"
  by (rule effectsD [OF assms(1-3)]) (use assms(4) in \<open>simp add: refines_at_def db_step_def\<close>)

lemma refines_rejects:
  assumes "rejects view up (db_do G stamp a) db"
    and "spec_step a (abs_store (view db)) = (True, abs_store (view db))"
  shows "refines_at G stamp view up a db"
  using assms by (auto simp: refines_at_def db_step_def rejects_def split: prod.split)

lemma SaveWorker_owned: "SaveWorker G w gpus = SaveWorker G w (map (gmWorkerID_update (\<lambda>_. wmID w)) gpus)"
  by (simp add: SaveWorker_def comp_def)

lemma fold_owned_gpus:
  "tb_gpus (add_gpus (map plain_gpu (map (gmWorkerID_update (\<lambda>_. k)) gpus)) T)
     = fold (\<lambda>g m. m(gmID g \<mapsto> plain_gpu (g\<lparr>gmWorkerID := k\<rparr>))) gpus (tb_gpus T)"
  unfolding fold_add_gpu [symmetric] by (induction gpus arbitrary: T) simp_all

lemma add_gpus_frame:
  "tb_workers (add_gpus gms T) = tb_workers T" "tb_tasks (add_gpus gms T) = tb_tasks T"
  "tb_task_gpus (add_gpus gms T) = tb_task_gpus T" "tb_pending (add_gpus gms T) = tb_pending T"
  by (simp_all add: add_gpus_def)

lemma refines_SaveWorker:
  assumes G: "gorm_laws G view up" and db: "up db" and ok: "op_storable (DoSaveWorker w gpus)"
  shows "refines_at G stamp view up (DoSaveWorker w gpus) db"
proof (rule refines_effects)
  let ?gs = "map (gmWorkerID_update (\<lambda>_. wmID w)) gpus"
  let ?f = "\<lambda>T. add_gpus (map plain_gpu ?gs) (T\<lparr>tb_workers := (tb_workers T)(wmID w \<mapsto> plain_worker w)\<rparr>)"
  have "\<forall>g \<in> set ?gs. storable_gpu g \<and> gmWorkerID g = wmID w"
    using ok by (simp add: op_storable_def)
  from effects_SaveWorker [OF G _ this] ok
  show "effects view up (\<lambda>_. True) (db_do G stamp (DoSaveWorker w gpus)) ?f"
    unfolding db_do.simps SaveWorker_owned [symmetric] by (simp only: op_storable_def db_op.case)
  show "spec_step (DoSaveWorker w gpus) (abs_store (view db)) = (False, abs_store (?f (view db)))"
    by (simp add: abs_store_def fold_owned_gpus add_gpus_frame del: map_map)
qed (use db in simp_all)

text \<open>The rows of the assigned GPUs: one that exists already, or is listed twice, is an error.\<close>

lemma gorm_duplicates:
  assumes "gorm_laws G view up" and "up db"
  shows "storable_text (tgTaskID a) \<Longrightarrow> storable_text (tgGPUID a) \<Longrightarrow>
      (tgTaskID a, tgGPUID a) \<in> tb_task_gpus (view db) \<Longrightarrow> rejects view up (gq_create_task_gpu G a) db"
    and "storable_text (pdTaskID p) \<Longrightarrow> pdTaskID p \<in> tb_pending (view db) \<Longrightarrow> rejects view up (gq_create_pending G p) db"
proof -
  note L = assms(1) [unfolded gorm_laws_def, THEN spec, THEN mp, OF assms(2)]
  from L have "\<forall>a. storable_text (tgTaskID a) \<and> storable_text (tgGPUID a) \<longrightarrow>
      (if (tgTaskID a, tgGPUID a) \<in> tb_task_gpus (view db)
      then rejects view up (gq_create_task_gpu G a) db
      else succeeds view up (gq_create_task_gpu G a)
        (\<lambda>T. T\<lparr>tb_task_gpus := insert (tgTaskID a, tgGPUID a) (tb_task_gpus T)\<rparr>) db)"
    by (elim conjE)
  then show "storable_text (tgTaskID a) \<Longrightarrow> storable_text (tgGPUID a) \<Longrightarrow>
      (tgTaskID a, tgGPUID a) \<in> tb_task_gpus (view db) \<Longrightarrow> rejects view up (gq_create_task_gpu G a) db"
    by metis
  from L have "\<forall>p. storable_text (pdTaskID p) \<longrightarrow> (if pdTaskID p \<in> tb_pending (view db)
      then rejects view up (gq_create_pending G p) db
      else succeeds view up (gq_create_pending G p)
        (\<lambda>T. T\<lparr>tb_pending := insert (pdTaskID p) (tb_pending T)\<rparr>) db)"
    by (elim conjE)
  then show "storable_text (pdTaskID p) \<Longrightarrow> pdTaskID p \<in> tb_pending (view db) \<Longrightarrow> rejects view up (gq_create_pending G p) db" by metis
qed

lemma gorm_lists:
  assumes "gorm_laws G view up" and "up db"
  shows "lists_rows wmID (tb_workers (view db)) (plain_rows plain_worker (gq_find_workers G db))"
    and "\<forall>w. storable_text w \<longrightarrow> lists_rows gmID (\<lambda>k. case tb_gpus (view db) k of
            Some g \<Rightarrow> if gmWorkerID g = w then Some g else None | None \<Rightarrow> None) (plain_rows plain_gpu (gq_find_gpus G w db))"
    and "lists_rows tmID (tb_tasks (view db)) (plain_rows plain_task (gq_find_tasks G db))"
    and "\<forall>k. storable_text k \<longrightarrow> (\<exists>rows. gq_find_task_gpus G k db = Inr rows \<and> distinct (map tgGPUID rows)
          \<and> (\<forall>r \<in> set rows. tgTaskID r = k)
          \<and> (\<forall>i. i \<in> tgGPUID ` set rows \<longleftrightarrow> (k, i) \<in> tb_task_gpus (view db)))"
    and "\<exists>rows. gq_find_pending G db = Inr rows \<and> distinct (map pdTaskID rows)
          \<and> set (map pdTaskID rows) = tb_pending (view db)"
  by (insert assms(1) [unfolded gorm_laws_def, THEN spec, THEN mp, OF assms(2)]) (elim conjE, assumption)+

lemma create_rows_fail:
  assumes G: "gorm_laws G view up" and db: "up db"
    and keys: "storable_text k" "list_all storable_text ids"
    and dup: "\<not> distinct ids \<or> (\<exists>i \<in> set ids. (k, i) \<in> tb_task_gpus (view db))"
  shows "fst (run_stmts (map (\<lambda>i. gq_create_task_gpu G \<lparr>tgTaskID = k, tgGPUID = i\<rparr>) ids) db) \<noteq> None"
  using db keys(2) dup
proof (induction ids arbitrary: db)
  case (Cons i ids)
  let ?st = "gq_create_task_gpu G \<lparr>tgTaskID = k, tgGPUID = i\<rparr>"
  show ?case
  proof (cases "(k, i) \<in> tb_task_gpus (view db)")
    case True
    have "rejects view up ?st db" using gorm_duplicates(1) [OF G Cons.prems(1)] True keys(1) Cons.prems(2) by simp
    then obtain e db' where "?st db = (Some e, db')" by (cases "?st db") (auto simp: rejects_def)
    then show ?thesis by simp
  next
    case False
    obtain db' where db': "?st db = (None, db')" "up db'"
      "tb_task_gpus (view db') = insert (k, i) (tb_task_gpus (view db))"
      by (rule effectsD [OF gorm_effects(4) [OF G, of "\<lparr>tgTaskID = k, tgGPUID = i\<rparr>"] Cons.prems(1)])
        (use False keys(1) Cons.prems(2) in simp_all)
    have "\<not> distinct ids \<or> (\<exists>j \<in> set ids. (k, j) \<in> tb_task_gpus (view db'))"
      using Cons.prems(3) False db'(3) by auto
    from Cons.IH [OF db'(2) _ this] Cons.prems(2) db'(1) show ?thesis by simp
  qed
qed simp

lemma SaveTask_rejects:
  assumes G: "gorm_laws G view up" and db: "up db" and t: "storable_task t" and ids: "\<not> distinct ids" "list_all storable_text ids"
  shows "rejects view up (SaveTask G t ids) db"
proof -
  have key: "storable_text (tmID t)" using t by (simp add: storable_task_def)
  let ?creates = "map (\<lambda>i. gq_create_task_gpu G \<lparr>tgTaskID = tmID t, tgGPUID = i\<rparr>) ids"
  let ?body = "run_stmts (gq_save_task G t # gq_delete_task_gpus G (tmID t) # ?creates)"
  obtain db1 where 1: "gq_save_task G t db = (None, db1)" "up db1"
    by (rule effectsD [OF gorm_effects(3) [OF G t] db]) auto
  obtain db2 where 2: "gq_delete_task_gpus G (tmID t) db1 = (None, db2)" "up db2"
    by (rule effectsD [OF gorm_effects(6) [OF G key] 1(2)]) auto
  have "fst (?body db) \<noteq> None" using create_rows_fail [OF G 2(2) key ids(2)] ids(1) 1 2 by simp
  then obtain e db' where body: "?body db = (Some e, db')" by (cases "?body db") auto
  have "case ?body db of (None, db') \<Rightarrow> up db' \<longrightarrow> gq_transaction G ?body db = (None, db')
     | (Some e, db') \<Rightarrow> rejects view up (gq_transaction G ?body) db"
    by (rule G [unfolded gorm_laws_def, THEN spec, THEN mp, OF db, THEN conjunct1, THEN spec])
  then show ?thesis unfolding body SaveTask_def by simp
qed

lemma refines_SaveTask:
  assumes G: "gorm_laws G view up" and db: "up db" and ok: "op_storable (DoSaveTask t ids)"
  shows "refines_at G stamp view up (DoSaveTask t ids) db"
proof (cases "distinct ids")
  case True
  have t: "storable_task t" "list_all storable_text ids" using ok by (simp_all add: op_storable_def)
  show ?thesis
  proof (rule refines_effects)
    show "effects view up (\<lambda>_. True) (db_do G stamp (DoSaveTask t ids))
        (\<lambda>T. T\<lparr>tb_tasks := (tb_tasks T)(tmID t \<mapsto> plain_task t),
           tb_task_gpus := {p \<in> tb_task_gpus T. fst p \<noteq> tmID t} \<union> {tmID t} \<times> set ids\<rparr>)"
      unfolding db_do.simps by (rule effects_SaveTask [OF G t(1) True t(2)])
  qed (use db in \<open>auto simp: abs_store_def fun_eq_iff True\<close>)
next
  case False
  then show ?thesis using SaveTask_rejects [OF G db] ok
    by (intro refines_rejects) (simp_all add: op_storable_def)
qed

lemma refines_SavePending:
  assumes G: "gorm_laws G view up" and db: "up db" and ok: "op_storable (DoSavePending i)"
  shows "refines_at G stamp view up (DoSavePending i) db"
proof (cases "i \<in> tb_pending (view db)")
  case True
  then have "rejects view up (SavePendingTask G stamp i) db"
    using gorm_duplicates(2) [OF G db] ok by (simp add: SavePendingTask_def op_storable_def)
  then show ?thesis using True by (intro refines_rejects) (simp_all add: abs_store_def)
next
  case False
  let ?p = "\<lparr>pdTaskID = i, pdCreatedAt = fst (stamp i)\<rparr>"
  show ?thesis
  proof (rule refines_effects)
    show "effects view up (\<lambda>T. pdTaskID ?p \<notin> tb_pending T) (db_do G stamp (DoSavePending i))
        (\<lambda>T. T\<lparr>tb_pending := insert (pdTaskID ?p) (tb_pending T)\<rparr>)"
      unfolding db_do.simps SavePendingTask_def by (rule gorm_effects(5) [OF G]) (use ok in \<open>simp add: op_storable_def\<close>)
  qed (use db False in \<open>simp_all add: abs_store_def\<close>)
qed

lemma refines_RemovePending:
  assumes G: "gorm_laws G view up" and db: "up db" and ok: "op_storable (DoRemovePending i)"
  shows "refines_at G stamp view up (DoRemovePending i) db"
proof (rule refines_effects)
  show "effects view up (\<lambda>_. True) (db_do G stamp (DoRemovePending i))
      (\<lambda>T. T\<lparr>tb_pending := tb_pending T - {i}\<rparr>)"
    using G ok by (simp add: RemovePendingTask_def gorm_laws_def effects_def op_storable_def)
qed (use db in \<open>simp_all add: abs_store_def\<close>)

lemma refines_Clear:
  assumes G: "gorm_laws G view up" and db: "up db"
  shows "refines_at G stamp view up DoClear db"
proof (rule refines_effects)
  show "effects view up (\<lambda>_. True) (db_do G stamp DoClear) (\<lambda>_. no_rows)"
    unfolding db_do.simps by (rule effects_ClearAllState [OF G])
qed (use db in \<open>simp_all add: abs_store_def no_rows_def empty_store_def\<close>)

lemma db_step_refines:
  assumes "gorm_laws G view up" and "up db" and "op_storable a"
  shows "refines_at G stamp view up a db"
  using assms by (cases a)
    (auto intro: refines_SaveWorker refines_SaveTask refines_SavePending refines_RemovePending refines_Clear)

lemma run_ops_refines:
  assumes G: "gorm_laws G view up" and "up db" and "list_all op_storable as"
  shows "\<exists>errs db'. run_ops (db_step G stamp) as db = (errs, db') \<and> up db'
     \<and> run_ops spec_step as (abs_store (view db)) = (errs, abs_store (view db'))"
  using assms(2,3)
proof (induction as arbitrary: db)
  case (Cons a as)
  obtain err db1 where 1: "db_step G stamp a db = (err, db1)" by fastforce
  with db_step_refines [OF G Cons.prems(1), of a stamp] Cons.prems(2)
  have 2: "up db1" "spec_step a (abs_store (view db)) = (err, abs_store (view db1))"
    by (simp_all add: refines_at_def)
  from Cons.IH [OF 2(1)] Cons.prems(2) 1 2(2) show ?case by auto
qed simp

lemma answers_view:
  assumes G: "gorm_laws G view up" and db: "up db"
  shows "answers_from G db (abs_store (view db))"
  unfolding answers_from_def
proof (intro conjI allI impI)
  note L = gorm_lists [OF G db]
  show "lists_rows wmID (st_workers (abs_store (view db))) (plain_rows plain_worker (GetWorkers G db))"
    using L(1) by (simp add: abs_store_def GetWorkers_def)
  show "lists_rows gmID (\<lambda>k. case st_gpus (abs_store (view db)) k of
      Some g \<Rightarrow> if gmWorkerID g = w then Some g else None | None \<Rightarrow> None) (plain_rows plain_gpu (GetWorkerGPUs G w db))"
    if "storable_text w" for w
    using L(2) that by (simp add: abs_store_def GetWorkerGPUs_def)
  have "map_option fst \<circ> st_tasks (abs_store (view db)) = tb_tasks (view db)"
    by (simp add: abs_store_def fun_eq_iff option.map_comp comp_def option.map_ident)
  then show "lists_rows tmID (map_option fst \<circ> st_tasks (abs_store (view db))) (plain_rows plain_task (GetTasks G db))"
    using L(3) by (simp add: GetTasks_def)
  show "\<exists>xs. GetTaskGPUs G k db = Inr xs \<and> distinct xs \<and> set xs = ids"
    if k: "storable_text k" "st_tasks (abs_store (view db)) k = Some (t, ids)" for k t ids
  proof -
    obtain rows where rows: "gq_find_task_gpus G k db = Inr rows" "distinct (map tgGPUID rows)"
      "\<forall>i. i \<in> tgGPUID ` set rows \<longleftrightarrow> (k, i) \<in> tb_task_gpus (view db)" using L(4) k(1) by blast
    have "set (map tgGPUID rows) = ids" using rows(3) k(2) by (auto simp: abs_store_def)
    with rows(1,2) show ?thesis by (intro exI [of _ "map tgGPUID rows"]) (simp add: GetTaskGPUs_def)
  qed
  obtain rows where "gq_find_pending G db = Inr rows" "distinct (map pdTaskID rows)"
    "set (map pdTaskID rows) = tb_pending (view db)" using L(5) by blast
  then show "\<exists>xs. GetPendingTasks G db = Inr xs \<and> distinct xs \<and> set xs = st_pending (abs_store (view db))"
    by (intro exI [of _ "map pdTaskID rows"]) (simp add: GetPendingTasks_def abs_store_def)
qed

section \<open>Refinement\<close>

text \<open>C11: The database layer refines its specification. After any sequence of calls that save
  workers, save tasks, queue and unqueue tasks and clear the state, on any database that obeys the
  documented laws, the same calls have reported an error as in the specification, the tables
  represent the specification's store, and every query answers from that store. In particular an
  operation that reports an error (a GPU listed twice for a task, a task queued twice) has changed
  nothing, although it had already written rows.\<close>

theorem database_refines_store:
  assumes "gorm_laws G view up" and "up db" and "list_all op_storable as"
  shows "\<exists>errs db' S. run_ops (db_step G stamp) as db = (errs, db')
     \<and> run_ops spec_step as (abs_store (view db)) = (errs, S)
     \<and> up db' \<and> abs_store (view db') = S \<and> answers_from G db' S"
  using run_ops_refines [OF assms, of stamp] answers_view [OF assms(1)] by blast

definition wit_row :: TaskModel where
  "wit_row = \<lparr>tmID = ''t1'', tmName = '''', tmRequiredGPUs = 2, tmMinGPUMemory = 8, tmConfiguration = [],
     tmStatus = 0, tmWorkerID = ''w1'', tmStartTime = 0, tmProgress = Fin 0, tmCreatedAt = 0, tmUpdatedAt = 0\<rparr>"

definition wit_calls :: "db_op list" where
  "wit_calls = [DoSaveTask wit_row [''0'', ''1''], DoSavePending ''t1'', DoSaveTask wit_row [''2'', ''2''],
     DoSavePending ''t1'', DoRemovePending ''t1'']"

lemma empty_memory_up: "memory_up empty_db"
  by (simp add: memory_up_def empty_db_def map_ok_def)

theorem database_refines_store_witness:
  "\<exists>errs db S. run_ops (db_step memory_gorm (\<lambda>_. (0, 0))) wit_calls empty_db = (errs, db)
     \<and> errs = [False, False, True, True, False] \<and> st_tasks S ''t1'' = Some (wit_row, {''0'', ''1''})
     \<and> abs_store (memory_view db) = S \<and> answers_from memory_gorm db S"
proof -
  have "list_all op_storable wit_calls"
    by (simp add: wit_calls_def op_storable_def storable_task_def wit_row_def storable_text_def utf8_text.simps
        storable_float_def storable_time_def zero_time_def)
  from database_refines_store [OF memory_gorm_laws empty_memory_up this, of "\<lambda>_. (0, 0)"]
  obtain errs db S where R: "run_ops (db_step memory_gorm (\<lambda>_. (0, 0))) wit_calls empty_db = (errs, db)"
    "run_ops spec_step wit_calls (abs_store (memory_view empty_db)) = (errs, S)"
    "abs_store (memory_view db) = S" "answers_from memory_gorm db S" by blast
  have "errs = [False, False, True, True, False] \<and> st_tasks S ''t1'' = Some (wit_row, {''0'', ''1''})"
    using R(2) by (auto simp: wit_calls_def abs_store_def memory_view_def empty_db_def wit_row_def plain_task_def)
  with R show ?thesis by blast
qed

end
