(* ===== verification/WorkerGPU.thy ===== *)
theory WorkerGPU
  imports WorkerProps
begin

text \<open>
  The GPUs of a worker's running tasks: no two tasks share one, as long as the scheduler's messages list no
  tasks. A message that does not list a running task makes the worker take the task out of its map and free its
  GPUs, but the task's goroutine runs on and frees them again, whoever has them by then.
\<close>

section \<open>Statements that end\<close>

text \<open>Partial correctness: if the statement ends from a state with \<open>P\<close>, its result and state have \<open>Q\<close>.\<close>

definition leads :: "('s \<Rightarrow> bool) \<Rightarrow> ('s \<Rightarrow> ('r, 's) res) \<Rightarrow> ('r \<Rightarrow> 's \<Rightarrow> bool) \<Rightarrow> bool" where
  "leads P f Q \<longleftrightarrow> (\<forall>s r t. P s \<longrightarrow> f s = Done r t \<longrightarrow> Q r t)"

lemma leadsI: "(\<And>s r t. P s \<Longrightarrow> f s = Done r t \<Longrightarrow> Q r t) \<Longrightarrow> leads P f Q"
  by (simp add: leads_def)

lemma leadsD: "leads P f Q \<Longrightarrow> P s \<Longrightarrow> f s = Done r t \<Longrightarrow> Q r t"
  unfolding leads_def by blast

lemma leads_keeps: "keeps P f \<Longrightarrow> leads P f (\<lambda>_. P)"
  unfolding leads_def by (metis final_state.simps(1) keepsD)

lemma leads_bind: "leads P f R \<Longrightarrow> (\<And>r. leads (R r) (k r) Q) \<Longrightarrow> leads P (\<lambda>s. bind_res (f s) k) Q"
  unfolding leads_def by (metis bind_res_Done_iff)

lemma leads_act: "(\<And>s. P s \<Longrightarrow> Q (f s)) \<Longrightarrow> leads P (act f) (\<lambda>_. Q)"
  by (simp add: leads_def act_def)

lemma leads_Cons: "leads P f (\<lambda>_. R) \<Longrightarrow> leads R (block fs) Q \<Longrightarrow> leads P (block (f # fs)) Q"
  using leads_bind [of P f "\<lambda>_. R" "\<lambda>_. block fs" Q] by (simp add: leads_def)

lemma leads_Nil: "leads P (block []) (\<lambda>_. P)"
  by (simp add: leads_def)

lemma leads_node_lock:
  assumes "\<And>w m. P (w\<lparr>nwMu := m\<rparr>) = P w" and "\<And>r w m. Q r (w\<lparr>nwMu := m\<rparr>) = Q r w" and "leads P body Q"
  shows "leads P (node_lock E body) Q"
proof (rule leadsI)
  fix w r w' assume w: "P w" and run: "node_lock E body w = Done r w'"
  from run obtain m u m' where u: "body (w\<lparr>nwMu := m\<rparr>) = Done r u" "w' = u\<lparr>nwMu := m'\<rparr>"
    by (auto simp: node_lock_def node_locked_def bind_res_Done_iff split: option.splits)
  have "P (w\<lparr>nwMu := m\<rparr>)" using w assms(1) by iprover
  from leadsD [OF assms(3) this u(1)] show "Q r w'" by (simp add: u(2) assms(2))
qed

section \<open>GPUs held by tasks\<close>

definition uses :: "NodeWorker \<Rightarrow> nat \<Rightarrow> string set" where
  "uses w a = set (ntGPUIDs (nwHeap w a))"

text \<open>The tasks \<open>as\<close> are active, their GPUs are marked as taken, and no two of them share a GPU.\<close>

definition allocated :: "nat list \<Rightarrow> NodeWorker \<Rightarrow> bool" where
  "allocated as w \<longleftrightarrow> distinct as \<and> distinct (map pgId (nwGPUs w)) \<and> length (nwGPUs w) < 2 ^ 32
     \<and> (\<forall>a \<in> set as. a < nwHeapNext w \<and> map_of (nwActiveTasks w) (ntID (nwHeap w a)) = Some a)
     \<and> (\<forall>a \<in> set as. \<forall>g \<in> set (nwGPUs w). pgId g \<in> uses w a \<longrightarrow> \<not> pgAvailable g)
     \<and> (\<forall>a \<in> set as. \<forall>b \<in> set as. a \<noteq> b \<longrightarrow> uses w a \<inter> uses w b = {})"

lemma allocated_subset: "allocated as w \<Longrightarrow> set bs \<subseteq> set as \<Longrightarrow> distinct bs \<Longrightarrow> allocated bs w"
  unfolding allocated_def by blast

definition same_alloc :: "NodeWorker \<Rightarrow> NodeWorker \<Rightarrow> bool" where
  "same_alloc w w' \<longleftrightarrow> nwGPUs w' = nwGPUs w \<and> nwActiveTasks w' = nwActiveTasks w \<and> nwHeapNext w' = nwHeapNext w
     \<and> nwRunning w' = nwRunning w
     \<and> (\<forall>a. ntID (nwHeap w' a) = ntID (nwHeap w a) \<and> ntGPUIDs (nwHeap w' a) = ntGPUIDs (nwHeap w a))"

lemma allocated_same: "same_alloc w w' \<Longrightarrow> allocated as w' = allocated as w"
  by (simp add: allocated_def uses_def same_alloc_def)

text \<open>The running tasks, and the tasks \<open>xs\<close> beside them.\<close>

definition held :: "nat list \<Rightarrow> NodeWorker \<Rightarrow> bool" where
  "held xs w \<longleftrightarrow> allocated (map fst (nwRunning w) @ xs) w"

text \<open>State properties that only depend on the allocation.\<close>

definition alloc_only :: "(NodeWorker \<Rightarrow> bool) \<Rightarrow> bool" where
  "alloc_only P \<longleftrightarrow> (\<forall>w w'. same_alloc w w' \<longrightarrow> P w' = P w)"

lemma stableD: "alloc_only P \<Longrightarrow> same_alloc w w' \<Longrightarrow> P w' = P w"
  by (simp add: alloc_only_def)

lemma stable_held: "alloc_only (held xs)"
  using allocated_same by (auto simp: alloc_only_def held_def same_alloc_def)

lemma same_alloc_mu: "same_alloc w (w\<lparr>nwMu := m\<rparr>)"
  by (simp add: same_alloc_def)

lemma keeps_stable_act: "alloc_only P \<Longrightarrow> (\<And>w. same_alloc w (f w)) \<Longrightarrow> keeps P (act f)"
  by (rule keeps_act) (metis stableD)

lemma keeps_stable_locks:
  assumes "alloc_only P" and "keeps P body"
  shows "keeps P (node_lock E body)" and "keeps P (node_rlock E body)"
  using assms(2) by (auto intro!: keeps_node_lock keeps_node_rlock stableD [OF assms(1)] same_alloc_mu)

lemma same_alloc_measured: "measured w w' \<Longrightarrow> same_alloc w w'"
  by (auto simp: measured_def same_alloc_def)

lemma same_alloc_small:
  "same_alloc w (metric c w)" "same_alloc w (node_tick w)" "same_alloc w w"
  "same_alloc w (w\<lparr>nwStatus := st\<rparr>)" "same_alloc w (w\<lparr>nwPaused := b\<rparr>)"
  "same_alloc w (w\<lparr>nwReports := rs\<rparr>)"
  "same_alloc w (set_task a (\<lambda>t. t\<lparr>ntStatus := st\<rparr>) w)"
  "same_alloc w (set_task a (\<lambda>t. t\<lparr>ntStatus := st, ntProgress := p\<rparr>) w)"
  "same_alloc w (set_task a (\<lambda>t. t\<lparr>ntDone := True\<rparr>) w)"
  "same_alloc w (node_tick (set_task a (\<lambda>t. t\<lparr>ntProgress := p, ntMetrics := ms t\<rparr>) w))"
  by (simp_all add: same_alloc_def metric_def node_tick_def set_task_def)

lemma keeps_stable_updateMetrics:
  assumes "alloc_only P" shows "keeps P (node_updateMetrics E)"
proof -
  have "same_alloc w (fold (gauge_gpu E) ks w)" for ks w
    by (rule same_alloc_measured, rule measured_fold, rule measured_gauge_gpu)
  moreover have "same_alloc w (node_tick (fold gauge_task ps w))" for ps w
    by (rule same_alloc_measured, rule measured_trans [OF measured_fold [OF measured_gauge_task] measured_tick])
  ultimately show ?thesis unfolding node_updateMetrics_def
    by (intro keeps_intros keeps_stable_locks keeps_stable_act same_alloc_small assms)
qed

lemma keeps_stable_hooks:
  assumes "alloc_only P"
  shows "keeps P (recordTaskStart E a)" "keeps P (recordTaskProgress E a)"
    "keeps P (node_recordTaskCompletion E a)" "keeps P (recordStatusChange E)"
proof -
  show "keeps P (recordStatusChange E)" unfolding recordStatusChange_def
    by (intro keeps_intros keeps_stable_act keeps_stable_updateMetrics same_alloc_small assms)
  have hook: "keeps P (block [act f, act g, node_updateMetrics E])"
    if "\<And>w. same_alloc w (f w)" "\<And>w. same_alloc w (g w)" for f g
    by (intro keeps_intros keeps_stable_act that keeps_stable_updateMetrics assms)
  have tick: "same_alloc w (node_tick (metric c w))" for c w by (simp add: same_alloc_def node_tick_def metric_def)
  show "keeps P (recordTaskStart E a)" unfolding recordTaskStart_def Let_def
    by (rule keepsI) (auto simp del: block.simps intro!: keepsD [OF hook] same_alloc_small tick)
  show "keeps P (node_recordTaskCompletion E a)" unfolding node_recordTaskCompletion_def Let_def
    by (rule keepsI) (auto simp del: block.simps intro!: keepsD [OF hook] same_alloc_small)
  show "keeps P (recordTaskProgress E a)" unfolding recordTaskProgress_def Let_def
    by (rule keepsI) (auto simp del: block.simps intro!: keepsD [OF hook] same_alloc_small
        simp: same_alloc_def metric_def)
qed

lemma keeps_stable_report: "alloc_only P \<Longrightarrow> keeps P (reportTaskStatus E a)"
  unfolding reportTaskStatus_def
  by (intro keeps_bind keeps_stable_locks keeps_reads) (simp_all add: keeps_def stableD [OF _ same_alloc_small(6)])

lemmas keeps_stable = keeps_intros keeps_stable_locks keeps_stable_act keeps_stable_hooks keeps_stable_report
  keeps_reads same_alloc_small

lemma keeps_stable_turn: "alloc_only P \<Longrightarrow> keeps P (task_turn E cancelled a p)"
  unfolding task_turn_def work_on_def by (intro keeps_stable)

lemma leads_stable_lock:
  "alloc_only P \<Longrightarrow> (\<And>r. alloc_only (Q r)) \<Longrightarrow> leads P body Q \<Longrightarrow> leads P (node_lock E body) Q"
  by (rule leads_node_lock) (simp_all add: stableD [OF _ same_alloc_mu])

section \<open>Starting a task\<close>

definition fresh_task :: "string \<Rightarrow> NodeWorker \<Rightarrow> bool" where
  "fresh_task k w \<longleftrightarrow> map_of (nwActiveTasks w) k = None"

text \<open>What is chosen was available; what is marked is taken, and nothing becomes available by marking.\<close>

lemma chosen_available:
  assumes "length gpus < 2 ^ 32" and "i \<in> set (chosen_gpus strategy cs required gpus)"
  shows "i < length gpus \<and> pgAvailable (gpus ! i)"
proof (cases "unat required \<le> length (available_gpus gpus)")
  case True
  then show ?thesis using set_mset_mono [OF chosen_gpus_enough(2) [OF assms(1) True]] assms(2)
    by (auto simp: available_iff [symmetric])
next
  case False
  then have "chosen_gpus strategy cs required gpus = []"
    using enough_iff [OF assms(1)] by (simp add: chosen_gpus_def Let_def)
  then show ?thesis using assms(2) by simp
qed

lemma mark_taken_gpu:
  assumes "distinct (map pgId gpus)" and "\<forall>i \<in> set js. i < length gpus" and g: "g \<in> set (mark_taken js gpus)"
  obtains h where "h \<in> set gpus" "pgId h = pgId g" "pgAvailable g \<Longrightarrow> pgAvailable h"
    "pgId g \<in> set (map (\<lambda>i. pgId (gpus ! i)) js) \<Longrightarrow> \<not> pgAvailable g"
proof -
  obtain k where k: "k < length gpus" "g = mark_taken js gpus ! k" using g by (auto simp: in_set_conv_nth)
  have index: "k = i" if "pgId (gpus ! k) = pgId (gpus ! i)" "i < length gpus" for i
    using assms(1) k(1) that by (simp add: distinct_conv_nth) metis
  have "\<not> pgAvailable g" if "pgId g \<in> set (map (\<lambda>i. pgId (gpus ! i)) js)"
    using that index assms(2) k by (auto simp: nth_mark_taken split: if_splits)
  moreover have "gpus ! k \<in> set gpus" "pgId (gpus ! k) = pgId g" "pgAvailable g \<Longrightarrow> pgAvailable (gpus ! k)"
    using k by (auto simp: nth_mark_taken split: if_splits)
  ultimately show thesis using that by blast
qed

lemma map_pgId_mark_taken: "map pgId (mark_taken js gpus) = map pgId gpus"
  by (rule nth_equalityI) (simp_all add: nth_mark_taken)

text \<open>A new task that takes available GPUs keeps to itself.\<close>

lemma allocated_add:
  assumes A: "allocated as w" and a: "\<forall>b \<in> set as. b < a" and k: "map_of (nwActiveTasks w) k = None"
    and js: "\<forall>i \<in> set js. i < length (nwGPUs w) \<and> pgAvailable (nwGPUs w ! i)"
    and gpus: "nwGPUs w' = mark_taken js (nwGPUs w)" and fresh: "nwHeapNext w' = Suc a"
    and active: "nwActiveTasks w' = mput k a (nwActiveTasks w)"
    and new: "ntID (nwHeap w' a) = k" "uses w' a = set (map (\<lambda>i. pgId (nwGPUs w ! i)) js)"
    and old: "\<And>b. b \<noteq> a \<Longrightarrow> nwHeap w' b = nwHeap w b"
  shows "allocated (as @ [a]) w'"
proof -
  have uses_old: "uses w' b = uses w b" if "b \<in> set as" for b
    using old [of b] a that by (auto simp: uses_def)
  have d: "distinct (map pgId (nwGPUs w))" and unav: "\<And>b g. b \<in> set as \<Longrightarrow> g \<in> set (nwGPUs w) \<Longrightarrow>
      pgId g \<in> uses w b \<Longrightarrow> \<not> pgAvailable g" using A unfolding allocated_def by blast+
  have apart: "uses w b \<inter> uses w' a = {}" if "b \<in> set as" for b
  proof -
    have "nwGPUs w ! i \<in> set (nwGPUs w)" "pgAvailable (nwGPUs w ! i)" if "i \<in> set js" for i
      using js that by auto
    then show ?thesis using unav [OF that] by (auto simp: new(2))
  qed
  have taken: "\<not> pgAvailable g" if "b \<in> set (as @ [a])" "g \<in> set (nwGPUs w')" "pgId g \<in> uses w' b" for b g
  proof -
    obtain h where "h \<in> set (nwGPUs w)" "pgId h = pgId g" "pgAvailable g \<Longrightarrow> pgAvailable h"
      "pgId g \<in> set (map (\<lambda>i. pgId (nwGPUs w ! i)) js) \<Longrightarrow> \<not> pgAvailable g"
      using mark_taken_gpu [OF d, of js g] js \<open>g \<in> set (nwGPUs w')\<close> unfolding gpus by blast
    then show ?thesis using that(1,3) unav [of b h] uses_old [of b] new(2) by (cases "b = a") auto
  qed
  have act: "b < nwHeapNext w' \<and> map_of (nwActiveTasks w') (ntID (nwHeap w' b)) = Some b" if "b \<in> set (as @ [a])" for b
  proof (cases "b = a")
    case False
    then have "b < a" "map_of (nwActiveTasks w) (ntID (nwHeap w b)) = Some b"
      using A a that unfolding allocated_def by auto
    then show ?thesis using k False by (auto simp: fresh active old)
  qed (simp add: fresh active new)
  have disj: "uses w' b \<inter> uses w' c = {}" if "b \<in> set (as @ [a])" "c \<in> set (as @ [a])" "b \<noteq> c" for b c
    using A that apart uses_old unfolding allocated_def by (cases "b = a"; cases "c = a") auto
  have "distinct (as @ [a])" "length (nwGPUs w') < 2 ^ 32" "distinct (map pgId (nwGPUs w'))"
    using A a d unfolding allocated_def gpus map_pgId_mark_taken by auto
  then show ?thesis using taken act disj unfolding allocated_def by blast
qed

lemma begin_task_leads:
  "leads (\<lambda>w. held [] w \<and> fresh_task (ptId pt) w) (begin_task E pt) (\<lambda>a. held [a])"
proof (rule leadsI)
  fix w a w' assume w: "held [] w \<and> fresh_task (ptId pt) w" and run: "begin_task E pt w = Done a w'"
  define js where "js = chosen_gpus (nwGPUAllocation w) (node_orders E (nwTick w) 0) (ptRequiredGpus pt) (nwGPUs w)"
  have A: "allocated (map fst (nwRunning w)) w" using w by (simp add: held_def)
  then have below: "\<forall>b \<in> set (map fst (nwRunning w)). b < nwHeapNext w" unfolding allocated_def by blast
  have js: "\<forall>i \<in> set js. i < length (nwGPUs w) \<and> pgAvailable (nwGPUs w ! i)"
    using A chosen_available unfolding allocated_def js_def by blast
  have a: "a = nwHeapNext w" and w': "nwGPUs w' = mark_taken js (nwGPUs w)" "nwRunning w' = nwRunning w"
    "nwHeapNext w' = Suc (nwHeapNext w)" "nwActiveTasks w' = mput (ptId pt) (nwHeapNext w) (nwActiveTasks w)"
    "ntID (nwHeap w' (nwHeapNext w)) = ptId pt"
    "uses w' (nwHeapNext w) = set (map (\<lambda>i. pgId (nwGPUs w ! i)) js)"
    "\<And>b. b \<noteq> nwHeapNext w \<Longrightarrow> nwHeap w' b = nwHeap w b"
    using run by (auto simp: begin_task_def allocateGPUs_def Let_def node_tick_def uses_def js_def)
  have "map_of (nwActiveTasks w) (ptId pt) = None" using w by (simp add: fresh_task_def)
  from allocated_add [OF A below this js w'(1,3,4,5,6,7)]
  show "held [a] w'" by (simp add: held_def w'(2) a)
qed

lemma executeTask_leads:
  "leads (\<lambda>w. held [] w \<and> fresh_task (ptId pt) w) (executeTask E pt) (\<lambda>_. held [])"
proof -
  have "alloc_only (\<lambda>w. held [] w \<and> fresh_task (ptId pt) w)"
    using stable_held [of "[]"] by (auto simp: alloc_only_def fresh_task_def same_alloc_def)
  note start = leads_stable_lock [OF this stable_held begin_task_leads]
  have "leads (held [a]) (block [recordTaskStart E a, reportTaskStatus E a,
      act (\<lambda>w. w\<lparr>nwRunning := nwRunning w @ [(a, Fin 0)]\<rparr>)]) (\<lambda>_. held [])" for a
    by (rule leads_Cons [OF leads_keeps [OF keeps_stable_hooks(1) [OF stable_held]]],
        rule leads_Cons [OF leads_keeps [OF keeps_stable_report [OF stable_held]]],
        rule leads_Cons [OF leads_act leads_Nil]) (simp add: held_def allocated_def uses_def)
  then show ?thesis unfolding executeTask_def by (rule leads_bind [OF start])
qed

section \<open>Ending a task\<close>

definition held_without :: "(nat \<times> gofloat) list \<Rightarrow> nat \<Rightarrow> NodeWorker \<Rightarrow> bool" where
  "held_without rs a w \<longleftrightarrow> nwRunning w = rs \<and> allocated (filter (\<lambda>b. b \<noteq> a) (map fst rs)) w"

lemma stable_held_without: "alloc_only (held_without rs a)"
  using allocated_same by (auto simp: alloc_only_def held_without_def same_alloc_def)

lemma pgId_free_gpus: "map pgId (free_gpus ids gpus) = map pgId gpus"
  and free_gpus_other: "g \<in> set (free_gpus ids gpus) \<Longrightarrow> pgId g \<notin> set ids \<Longrightarrow> g \<in> set gpus"
proof -
  have fold: "foldl (\<lambda>g i. if pgId g = i then g\<lparr>pgAvailable := True\<rparr> else g) g ids
      = (if pgId g \<in> set ids then g\<lparr>pgAvailable := True\<rparr> else g)" for g :: pbGPU
    by (induction ids arbitrary: g) auto
  show "map pgId (free_gpus ids gpus) = map pgId gpus" by (simp add: free_gpus_def fold)
  show "g \<in> set (free_gpus ids gpus) \<Longrightarrow> pgId g \<notin> set ids \<Longrightarrow> g \<in> set gpus"
    by (auto simp: free_gpus_def fold split: if_splits)
qed

text \<open>Freeing the GPUs of one task leaves those of the others taken.\<close>

lemma remove_task_leaves:
  assumes h: "held [] w" and rs: "nwRunning w = rs" and a: "a \<in> set (map fst rs)"
  shows "held_without rs a (remove_task (ntID (nwHeap w a)) a w)"
proof -
  let ?as = "map fst rs" and ?w = "remove_task (ntID (nwHeap w a)) a w"
  have A: "allocated ?as w" using h by (simp add: held_def rs)
  have same: "nwHeap ?w = nwHeap w" "nwHeapNext ?w = nwHeapNext w" "nwRunning ?w = rs"
    "nwActiveTasks ?w = mdel (ntID (nwHeap w a)) (nwActiveTasks w)" "nwGPUs ?w = free_gpus (ntGPUIDs (nwHeap w a)) (nwGPUs w)"
    "uses ?w b = uses w b" for b
    by (simp_all add: remove_task_def uses_def rs)
  have act: "b < nwHeapNext w \<and> map_of (mdel (ntID (nwHeap w a)) (nwActiveTasks w)) (ntID (nwHeap w b)) = Some b"
    if "b \<in> set ?as" "b \<noteq> a" for b
  proof -
    have "b < nwHeapNext w" "map_of (nwActiveTasks w) (ntID (nwHeap w b)) = Some b"
      "map_of (nwActiveTasks w) (ntID (nwHeap w a)) = Some a"
      using A a that(1) unfolding allocated_def by blast+
    then show ?thesis using that(2) by auto
  qed
  have taken: "\<not> pgAvailable g" if "b \<in> set ?as" "b \<noteq> a" "g \<in> set (nwGPUs ?w)" "pgId g \<in> uses w b" for b g
  proof -
    have "uses w a \<inter> uses w b = {}" using A a that(1,2) unfolding allocated_def by blast
    then have "pgId g \<notin> set (ntGPUIDs (nwHeap w a))" using that(4) by (auto simp: uses_def)
    then have "g \<in> set (nwGPUs w)" using that(3) free_gpus_other unfolding same by blast
    then show ?thesis using A that unfolding allocated_def by blast
  qed
  have length: "length (free_gpus ids gpus) = length gpus" for ids gpus by (simp add: free_gpus_def)
  have "distinct ?as" "distinct (map pgId (nwGPUs w))" "length (nwGPUs w) < 2 ^ 32"
    "\<And>b c. b \<in> set ?as \<Longrightarrow> c \<in> set ?as \<Longrightarrow> b \<noteq> c \<Longrightarrow> uses w b \<inter> uses w c = {}"
    using A unfolding allocated_def by blast+
  note facts = this act taken
  have "distinct (filter (\<lambda>b. b \<noteq> a) ?as)" using facts(1) by simp
  then show ?thesis using facts
    unfolding held_without_def allocated_def same(1,2,3,4,6) by (simp add: same(5) pgId_free_gpus length) blast
qed

lemma complete_task_leads:
  assumes a: "a \<in> set (map fst rs)"
  shows "leads (\<lambda>w. held [] w \<and> nwRunning w = rs) (complete_task E a) (\<lambda>_. held_without rs a)"
proof -
  let ?P = "\<lambda>w. held [] w \<and> nwRunning w = rs"
  have P: "alloc_only ?P" using stable_held [of "[]"] by (auto simp: alloc_only_def same_alloc_def)
  have "leads ?P (act (\<lambda>w. idle_if_none (remove_task (ntID (nwHeap w a)) a w))) (\<lambda>_. held_without rs a)"
  proof (rule leads_act)
    fix w assume "?P w"
    then have "held_without rs a (remove_task (ntID (nwHeap w a)) a w)" using remove_task_leaves a by blast
    then show "held_without rs a (idle_if_none (remove_task (ntID (nwHeap w a)) a w))"
      by (simp add: idle_if_none_def stableD [OF stable_held_without same_alloc_small(4)])
  qed
  then have remove: "leads ?P (node_lock E (act (\<lambda>w. idle_if_none (remove_task (ntID (nwHeap w a)) a w)))) (\<lambda>_. held_without rs a)"
    by (rule leads_stable_lock [OF P stable_held_without])
  have close: "keeps (held_without rs a) (close_done a)"
    by (simp add: keeps_def close_done_def stableD [OF stable_held_without same_alloc_small(9)])
  show ?thesis unfolding complete_task_def
    by (rule leads_Cons [OF leads_keeps], rule keeps_stable_locks [OF P],
        rule keeps_stable_act [OF P], rule same_alloc_small,
        rule leads_Cons [OF leads_keeps], rule keeps_stable_hooks [OF P],
        rule leads_Cons [OF leads_keeps], rule keeps_stable_report [OF P],
        rule leads_Cons [OF remove], rule leads_Cons [OF leads_keeps], rule close, rule leads_Nil)
qed

lemma run_turn_leads:
  assumes "k < length (nwRunning w)" and "held [] w" and "run_turn E cancelled k w = Done () w'"
  shows "held [] w'"
proof -
  obtain a p where ap: "nwRunning w ! k = (a, p)" by force
  have drop: "held [] (u\<lparr>nwRunning := take k (nwRunning u) @ drop (Suc k) (nwRunning u)\<rparr>)"
    if "allocated (take k (map fst (nwRunning u)) @ drop (Suc k) (map fst (nwRunning u))) u" for u
    using that by (simp add: held_def allocated_def uses_def take_map drop_map)
  show ?thesis
  proof (cases "in_loop p")
    case True
    with assms(3) ap obtain r u where u: "task_turn E cancelled a p w = Done r u"
      and w': "w' = (case r of None \<Rightarrow> u\<lparr>nwRunning := take k (nwRunning u) @ drop (Suc k) (nwRunning u)\<rparr>
          | Some p' \<Rightarrow> u\<lparr>nwRunning := (nwRunning u)[k := (a, p')]\<rparr>)"
      by (auto simp: run_turn_def bind_res_Done_iff)
    let ?P = "\<lambda>w'. held [] w' \<and> nwRunning w' = nwRunning w"
    have "alloc_only ?P" using stable_held [of "[]"] by (auto simp: alloc_only_def same_alloc_def)
    from leadsD [OF leads_keeps [OF keeps_stable_turn [OF this]] _ u]
    have h: "held [] u" "nwRunning u = nwRunning w" using assms(2) by simp_all
    show ?thesis
    proof (cases r)
      case None
      have "allocated (map fst (nwRunning u)) u" using h(1) by (simp add: held_def)
      moreover have "distinct (map fst (nwRunning u))" using calculation unfolding allocated_def by blast
      ultimately have "allocated (take k (map fst (nwRunning u)) @ drop (Suc k) (map fst (nwRunning u))) u"
        by (elim allocated_subset)
           (auto dest: in_set_takeD in_set_dropD simp: distinct_take set_take_disj_set_drop_if_distinct)
      with drop None w' show ?thesis by simp
    next
      case (Some p')
      have "map fst ((nwRunning u)[k := (a, p')]) = map fst (nwRunning u)"
        using ap h(2) assms(1) by (simp add: map_update) (metis fst_conv list_update_id nth_map)
      then show ?thesis using h(1) Some w' by (simp add: held_def allocated_def uses_def)
    qed
  next
    case False
    with assms(3) ap obtain u where u: "complete_task E a w = Done () u"
      and w': "w' = u\<lparr>nwRunning := take k (nwRunning u) @ drop (Suc k) (nwRunning u)\<rparr>"
      by (auto simp: run_turn_def bind_res_Done_iff act_def)
    let ?as = "map fst (nwRunning w)"
    have as: "?as = take k ?as @ a # drop (Suc k) ?as" using id_take_nth_drop [of k ?as] assms(1) ap by simp
    then have "a \<in> set ?as" by (metis in_set_conv_decomp)
    from leadsD [OF complete_task_leads [OF this] _ u] assms(2)
    have u: "nwRunning u = nwRunning w" "allocated (filter (\<lambda>b. b \<noteq> a) ?as) u"
      by (simp_all add: held_without_def)
    have "distinct (take k ?as @ a # drop (Suc k) ?as)"
      using assms(2) as unfolding held_def allocated_def by simp
    then have "allocated (take k ?as @ drop (Suc k) ?as) u"
      using u(2) by (elim allocated_subset) (auto dest: in_set_takeD in_set_dropD)
    with drop [of u] u(1) w' show ?thesis by simp
  qed
qed

section \<open>Messages that list no tasks\<close>

lemma same_alloc_settings:
  "same_alloc w (w\<lparr>nwMetricFrequency := f\<rparr>)" "same_alloc w (w\<lparr>nwTaskPriority := ps\<rparr>)"
  "same_alloc w (w\<lparr>nwGPUAllocation := st\<rparr>)"
  by (simp_all add: same_alloc_def)

lemma keeps_stable_command:
  assumes "alloc_only P" shows "keeps P (handleCommand E command)"
proof -
  have stop: "keeps P (stopTask E i)" for i unfolding stopTask_def
  proof (intro keeps_bind keeps_stable_locks assms)
    show "keeps P (\<lambda>w. case map_of (nwActiveTasks w) i of None \<Rightarrow> Done None w
        | Some a \<Rightarrow> Done (Some a) (set_task a (\<lambda>t. t\<lparr>ntStatus := TaskStatus_CANCELED\<rparr>) w))"
      by (auto simp: keeps_def stableD [OF assms same_alloc_small(7)] split: option.split)
    show "keeps P (\<lambda>w. case r of None \<Rightarrow> Done () w | Some a \<Rightarrow> reportTaskStatus E a w)" for r
      by (auto simp: keeps_def split: option.split intro: keepsD [OF keeps_stable_report [OF assms]])
  qed
  have upd: "keeps P (updateMetricFrequency E v)" "keeps P (updateTaskPrioritySettings E v)"
    "keeps P (updateGPUAllocationStrategy E v)" for v
    unfolding updateMetricFrequency_def updateTaskPrioritySettings_def updateGPUAllocationStrategy_def Let_def
    by (intro keeps_stable_locks keeps_stable_act assms; auto simp: same_alloc_small same_alloc_settings split: option.split)+
  have par: "keeps P (with_param params key f)" if "\<And>v. keeps P (f v)" for params key f
    using that by (auto simp: keeps_def with_param_def split: option.split)
  show ?thesis unfolding handleCommand_def
    by (intro keeps_if_fun keeps_block_Cons keeps_block_Nil keeps_reads keeps_stable_locks keeps_stable_act
        keeps_stable_hooks same_alloc_small stop upd par keeps_log_nil assms)
qed

lemma keeps_stable_log: "alloc_only P \<Longrightarrow> keeps P (log_status E)"
  unfolding log_status_def sendStatusUpdate_def
  by (intro keeps_bind keeps_stable_locks keeps_reads) (simp_all add: keeps_def stableD [OF _ same_alloc_small(2)])

lemma receive_leads:
  assumes "alloc_only P" and "wsActiveTasks resp = []" shows "leads P (receive_status E resp) (\<lambda>_. P)"
proof (cases "wsGpus resp = []")
  case True
  have gpus: "keeps P (act (sync_gpus (wsGpus resp)))"
    by (rule keeps_stable_act [OF assms(1)]) (simp add: True sync_gpus_def same_alloc_small)
  have tasks: "keeps P (act (sync_tasks E (wsActiveTasks resp)))"
    by (rule keeps_stable_act [OF assms(1)]) (simp add: assms(2) sync_tasks_def same_alloc_small)
  have status: "keeps P (sync_status E st)" for st unfolding sync_status_def
    by (intro keeps_intros keeps_stable_act keeps_stable_hooks same_alloc_small assms(1))
  have "keeps P (processStatusUpdate E resp)" unfolding processStatusUpdate_def
    by (intro keeps_intros keeps_if_fun keeps_log_nil keeps_reads keeps_stable_locks assms(1) gpus tasks status)
  moreover have "keeps P (case wsCommand resp of None \<Rightarrow> Done () | Some command \<Rightarrow> handleCommand E command)"
    by (auto split: option.split intro: keeps_reads keeps_stable_command assms(1))
  ultimately show ?thesis unfolding receive_status_def
    by (intro leads_keeps keeps_block_Cons keeps_block_Nil keeps_stable_log assms(1))
next
  case False
  have "processStatusUpdate E resp w \<noteq> Done r t" for w r t
    using False by (auto simp: processStatusUpdate_def node_lock_def node_locked_def split: option.split)
  then show ?thesis by (auto simp: leads_def receive_status_def bind_res_Done_iff)
qed

lemma poll_leads:
  assumes "\<And>req pt. client req = Inr pt \<Longrightarrow> fresh_task (ptId pt) w" and "held [] w" and "poll_turn E client w = Done () w'"
  shows "held [] w'"
proof -
  let ?read = "node_rlock E (\<lambda>w. Done (nwPaused w, poll_request w) w)"
  obtain q u where u: "?read w = Done q u"
    and rest: "(case q of (paused, request) \<Rightarrow> \<lambda>w. if paused then log_nil w
          else (case request of None \<Rightarrow> Done () w
            | Some req \<Rightarrow> (case client req of Inl err \<Rightarrow> Done () w | Inr task \<Rightarrow> executeTask E task w))) u = Done () w'"
    using assms(3) by (auto simp: poll_turn_def bind_res_Done_iff)
  let ?P = "\<lambda>v. held [] v \<and> nwActiveTasks v = nwActiveTasks w"
  have "alloc_only ?P" using stable_held [of "[]"] by (auto simp: alloc_only_def same_alloc_def)
  then have "keeps ?P ?read" by (intro keeps_stable_locks keeps_reads)
  from leadsD [OF leads_keeps [OF this] _ u] assms(2) have u: "held [] u" "nwActiveTasks u = nwActiveTasks w" by simp_all
  show ?thesis
  proof (cases "\<exists>req task. snd q = Some req \<and> client req = Inr task")
    case True
    then obtain req task where t: "snd q = Some req" "client req = Inr task" by blast
    then have "fresh_task (ptId task) u" using assms(1) u(2) by (simp add: fresh_task_def)
    moreover have "executeTask E task u = Done () w'" using rest t by (auto split: prod.splits if_splits)
    ultimately show ?thesis using leadsD [OF executeTask_leads] u(1) by blast
  next
    case False
    then have "w' = u" using rest by (auto split: prod.splits if_splits option.splits sum.splits)
    then show ?thesis using u(1) by simp
  qed
qed

text \<open>
  The states a worker gets into when messages list no tasks and no task id is given out while it is in use.
\<close>

definition steady_event :: "node_event \<Rightarrow> NodeWorker \<Rightarrow> bool" where
  "steady_event ev w \<longleftrightarrow> (case ev of
      Poll client \<Rightarrow> \<forall>req pt. client req = Inr pt \<longrightarrow> fresh_task (ptId pt) w
    | Receive resp \<Rightarrow> wsActiveTasks resp = []
    | Cleanup k \<Rightarrow> False
    | _ \<Rightarrow> True)"

inductive steady :: "node_env \<Rightarrow> NodeWorker \<Rightarrow> bool" for E where
  start: "NewWorker None None addr gpus = Inr w \<Longrightarrow> distinct (map pgId gpus) \<Longrightarrow> int (length gpus) < 2 ^ 32 \<Longrightarrow>
    steady E (w\<lparr>nwID := i, nwHasMetrics := b\<rparr>)"
| step: "steady E w \<Longrightarrow> steady_event ev w \<Longrightarrow> node_step E ev w = Done () w' \<Longrightarrow> steady E w'"

lemma steady_held: "steady E w \<Longrightarrow> held [] w"
proof (induction rule: steady.induct)
  case (start addr gpus w i b)
  then have "nwRunning w = []" "nwGPUs w = gpus" by (auto simp: NewWorker_def)
  moreover have "length gpus < 2 ^ 32" using start(3) by simp
  ultimately show ?case using start(2) by (simp add: held_def allocated_def)
next
  case (step w ev w')
  show ?case
  proof (cases ev)
    case (Poll client)
    then show ?thesis using step poll_leads [of client w E w'] by (auto simp: steady_event_def)
  next
    case (Turn c k)
    then show ?thesis using step run_turn_leads [of k w E c w'] by (auto split: if_splits)
  next
    case (Receive resp)
    then show ?thesis using step leadsD [OF receive_leads [OF stable_held]] by (auto simp: steady_event_def)
  next
    case Ticker
    then show ?thesis using step leadsD [OF leads_keeps [OF keeps_stable_log [OF stable_held]]] by auto
  next
    case (Cleanup k)
    then show ?thesis using step by (simp add: steady_event_def)
  qed
qed

text \<open>C10: No two running tasks of a worker share a GPU, and the GPUs of a running task are not available, however polls, turns,
  commands and completions follow one another: as long as the worker's GPUs have different ids, no task
  id is given out while it is in use, and no status message makes the worker cancel a task.\<close>

theorem running_tasks_do_not_share_gpus:
  assumes "steady E w" and "(a, p) \<in> set (nwRunning w)" and "(b, q) \<in> set (nwRunning w)" and "a \<noteq> b"
  shows "uses w a \<inter> uses w b = {} \<and> (\<forall>g \<in> set (nwGPUs w). pgId g \<in> uses w a \<longrightarrow> \<not> pgAvailable g)"
proof -
  have "a \<in> set (map fst (nwRunning w))" "b \<in> set (map fst (nwRunning w))" using assms(2,3) by force+
  moreover have "allocated (map fst (nwRunning w)) w" using steady_held [OF assms(1)] by (simp add: held_def)
  ultimately show ?thesis using assms(4) unfolding allocated_def by blast
qed

definition gpu_task :: "string \<Rightarrow> pbTask" where
  "gpu_task k = \<lparr>ptId = k, ptName = ''train'', ptRequiredGpus = 1, ptMinGpuMemory = 4, ptConfiguration = [],
     ptStatus = TaskStatus_RUNNING\<rparr>"

definition two_gpus :: NodeWorker where
  "two_gpus = projr (NewWorker None None ''host'' [node_gpu ''0'' 8 True, node_gpu ''1'' 8 True])"

definition two_tasks :: NodeWorker where
  "two_tasks = final_state (node_step (node_example_env go_rwmutex) (Poll (\<lambda>_. Inr (gpu_task ''t2'')))
     (final_state (node_step (node_example_env go_rwmutex) (Poll (\<lambda>_. Inr (gpu_task ''t1''))) two_gpus)))"

lemma two_tasks_steady: "steady (node_example_env go_rwmutex) two_tasks"
proof -
  let ?E = "node_example_env go_rwmutex" and ?p1 = "Poll (\<lambda>_. Inr (gpu_task ''t1''))" and ?p2 = "Poll (\<lambda>_. Inr (gpu_task ''t2''))"
  have "NewWorker None None ''host'' [node_gpu ''0'' 8 True, node_gpu ''1'' 8 True] = Inr two_gpus"
    by (simp add: NewWorker_def two_gpus_def)
  from steady.start [OF this, where E = ?E and i = "nwID two_gpus" and b = "nwHasMetrics two_gpus"]
  have s0: "steady ?E two_gpus" by (simp add: node_gpu_def)
  define w1 where "w1 = final_state (node_step ?E ?p1 two_gpus)"
  have r1: "is_done (node_step ?E ?p1 two_gpus)" and n0: "map_of (nwActiveTasks two_gpus) ''t1'' = None"
    and r2: "is_done (node_step ?E ?p2 (final_state (node_step ?E ?p1 two_gpus)))"
    and n1: "map_of (nwActiveTasks (final_state (node_step ?E ?p1 two_gpus))) ''t2'' = None" by code_simp+
  have d1: "node_step ?E ?p1 two_gpus = Done () w1"
    using r1 unfolding w1_def by (cases "node_step ?E ?p1 two_gpus") simp_all
  have "steady_event ?p1 two_gpus" using n0 by (simp add: steady_event_def fresh_task_def gpu_task_def)
  from steady.step [OF s0 this d1] have s1: "steady ?E w1" .
  have "steady_event ?p2 w1" using n1 by (simp add: steady_event_def fresh_task_def gpu_task_def w1_def)
  moreover have "node_step ?E ?p2 w1 = Done () two_tasks"
    using r2 unfolding w1_def two_tasks_def by (cases "node_step ?E ?p2 (final_state (node_step ?E ?p1 two_gpus))") simp_all
  ultimately show ?thesis using steady.step [OF s1] by blast
qed

theorem running_tasks_do_not_share_gpus_witness:
  "map fst (nwRunning two_tasks) = [0, 1] \<and> uses two_tasks 0 \<noteq> {} \<and> uses two_tasks 0 \<inter> uses two_tasks 1 = {}"
proof -
  have run: "map fst (nwRunning two_tasks) = [0, 1]" "ntGPUIDs (nwHeap two_tasks 0) = [''0'']" by code_simp+
  obtain p q where "nwRunning two_tasks = [(0, p), (1, q)]"
    using run(1) by (cases "nwRunning two_tasks"; cases "tl (nwRunning two_tasks)") auto
  then have "uses two_tasks 0 \<inter> uses two_tasks 1 = {}"
    using running_tasks_do_not_share_gpus [OF two_tasks_steady, of 0 p 1 q] by simp
  then show ?thesis using run by (simp add: uses_def)
qed

end
