(* ===== verification/WorkerStream.thy ===== *)
theory WorkerStream
  imports WorkerProps
begin

text \<open>
  \<^verbatim>\<open>reportStatus\<close> in \<^verbatim>\<open>pkg/worker/worker.go\<close>: the status stream of a worker, its receiving goroutines, and the tickers. Each stream
  has a context; contexts are numbered in the order they are made, and \<open>stCurrent\<close> is the one the variables \<^verbatim>\<open>streamCtx\<close> and
  \<^verbatim>\<open>streamCancel\<close> hold (\<open>None\<close> for nil). A receiver is the stream it reads and, once it has run its first statement \<^verbatim>\<open>defer
  streamCancel()\<close>, the context it will cancel: the variable's value at that time.
\<close>

section \<open>The streams\<close>

record stream_state =
  stCurrent :: "nat option"
  stNext :: nat
  stCancelled :: "nat list"
  stReceivers :: "(nat \<times> nat option) list"
  stDone :: bool

definition no_stream :: stream_state where
  "no_stream = \<lparr>stCurrent = None, stNext = 0, stCancelled = [], stReceivers = [], stDone = False\<rparr>"

text \<open>\<^verbatim>\<open>if streamCancel != nil { streamCancel() }\<close>\<close>

definition cancel_current :: "stream_state \<Rightarrow> stream_state" where
  "cancel_current st = (case stCurrent st of None \<Rightarrow> st | Some i \<Rightarrow> st\<lparr>stCancelled := i # stCancelled st\<rparr>)"

text \<open>\<open>ok\<close>: the call of \<^verbatim>\<open>MonitorWorker\<close> returns a stream. The variables are assigned before that.\<close>

definition establishStream :: "bool \<Rightarrow> stream_state \<Rightarrow> stream_state" where
  "establishStream ok st =
     (let st = cancel_current st; i = stNext st; st = st\<lparr>stCurrent := Some i, stNext := Suc i\<rparr>
      in if ok then st\<lparr>stReceivers := stReceivers st @ [(i, None)]\<rparr> else st)"

section \<open>Steps\<close>

text \<open>
  \<open>ReceiverGets k r\<close>: the \<open>k\<close>-th receiver's \<^verbatim>\<open>Recv\<close> returns the message, or an error for \<open>None\<close>. The receiver of a
  cancelled stream gets an error, perhaps after messages that had arrived before.
\<close>

datatype stream_event =
    Reconnect bool
  | ReceiverStarts nat
  | ReceiverGets nat "WorkerStatusResponse option"
  | StatusTick
  | ContextDone

fun on_state :: "('s \<Rightarrow> 't) \<Rightarrow> ('r, 's) res \<Rightarrow> ('r, 't) res" where
  "on_state f (Done r s) = Done r (f s)"
| "on_state f (Stuck s) = Stuck (f s)"
| "on_state f (Panicked s) = Panicked (f s)"

definition receiver_turn ::
  "node_env \<Rightarrow> nat \<Rightarrow> WorkerStatusResponse option \<Rightarrow> stream_state \<times> NodeWorker \<Rightarrow> (unit, stream_state \<times> NodeWorker) res" where
  "receiver_turn E k answer s =
     (case s of (st, w) \<Rightarrow> (case stReceivers st ! k of
        (i, None) \<Rightarrow> Done () (st, w)
      | (i, Some c) \<Rightarrow>
          (case answer of
             None \<Rightarrow> Done () (st\<lparr>stCancelled := c # stCancelled st,
                       stReceivers := take k (stReceivers st) @ drop (Suc k) (stReceivers st)\<rparr>, w)
           | Some resp \<Rightarrow> on_state (Pair st) (receive_status E resp w))))"

definition start_receiver :: "nat \<Rightarrow> stream_state \<Rightarrow> stream_state" where
  "start_receiver k st = (case stReceivers st ! k of
      (i, None) \<Rightarrow> st\<lparr>stReceivers := (stReceivers st)[k := (i, stCurrent st)]\<rparr>
    | (i, Some c) \<Rightarrow> st)"

text \<open>After the context is done the loop has ended; receivers end with their next \<^verbatim>\<open>Recv\<close>.\<close>

fun stream_step :: "node_env \<Rightarrow> stream_event \<Rightarrow> stream_state \<times> NodeWorker \<Rightarrow> (unit, stream_state \<times> NodeWorker) res" where
  "stream_step E (Reconnect ok) (st, w) = Done () (if stDone st then st else establishStream ok st, w)"
| "stream_step E (ReceiverStarts k) (st, w) =
     Done () (if k < length (stReceivers st) then start_receiver k st else st, w)"
| "stream_step E (ReceiverGets k answer) (st, w) =
     (if k < length (stReceivers st) then receiver_turn E k answer (st, w) else Done () (st, w))"
| "stream_step E StatusTick (st, w) = (if stDone st then Done () (st, w) else on_state (Pair st) (log_status E w))"
| "stream_step E ContextDone (st, w) = Done () (if stDone st then st else (cancel_current st)\<lparr>stDone := True\<rparr>, w)"

fun stream_run :: "node_env \<Rightarrow> stream_event list \<Rightarrow> stream_state \<times> NodeWorker \<Rightarrow> (unit, stream_state \<times> NodeWorker) res" where
  "stream_run E [] s = Done () s"
| "stream_run E (ev # evs) s = bind_res (stream_step E ev s) (\<lambda>_. stream_run E evs)"

text \<open>From the first \<^verbatim>\<open>establishStream()\<close> on, while other goroutines change the worker.\<close>

inductive stream_reached :: "node_env \<Rightarrow> stream_state \<times> NodeWorker \<Rightarrow> bool" for E where
  start: "stream_reached E (establishStream ok no_stream, w)"
| step: "stream_reached E s \<Longrightarrow> stream_step E ev s = Done () t \<Longrightarrow> stream_reached E t"
| elsewhere: "stream_reached E (st, w) \<Longrightarrow> stream_reached E (st, w')"

section \<open>One stream at a time\<close>

definition one_stream :: "stream_state \<Rightarrow> bool" where
  "one_stream st \<longleftrightarrow> (\<forall>i < stNext st. i \<notin> set (stCancelled st) \<longrightarrow> stCurrent st = Some i)
     \<and> (\<forall>c. stCurrent st = Some c \<longrightarrow> stNext st = Suc c)
     \<and> (\<forall>p \<in> set (stReceivers st). fst p < stNext st)
     \<and> (\<forall>i c. (i, Some c) \<in> set (stReceivers st) \<longrightarrow> i \<le> c \<and> c < stNext st)
     \<and> distinct (map fst (stReceivers st))"

lemma one_streamD:
  assumes "one_stream st"
  shows "i < stNext st \<Longrightarrow> i \<notin> set (stCancelled st) \<Longrightarrow> stCurrent st = Some i"
    "stCurrent st = Some c \<Longrightarrow> stNext st = Suc c"
    "p \<in> set (stReceivers st) \<Longrightarrow> fst p < stNext st"
    "(i, Some c) \<in> set (stReceivers st) \<Longrightarrow> i \<le> c" "(i, Some c) \<in> set (stReceivers st) \<Longrightarrow> c < stNext st"
    "distinct (map fst (stReceivers st))"
  using assms unfolding one_stream_def by blast+

lemma one_streamI:
  assumes "\<And>i. i < stNext st \<Longrightarrow> i \<notin> set (stCancelled st) \<Longrightarrow> stCurrent st = Some i"
    and "\<And>c. stCurrent st = Some c \<Longrightarrow> stNext st = Suc c" and "\<forall>p \<in> set (stReceivers st). fst p < stNext st"
    and "\<And>i c. (i, Some c) \<in> set (stReceivers st) \<Longrightarrow> i \<le> c \<and> c < stNext st" and "distinct (map fst (stReceivers st))"
  shows "one_stream st"
  unfolding one_stream_def using assms by blast

lemma one_stream_mono:
  assumes "one_stream st" and "stNext st' = stNext st" and "stCurrent st' = stCurrent st"
    and "set (stCancelled st) \<subseteq> set (stCancelled st')" and "set (stReceivers st') \<subseteq> set (stReceivers st)"
    and "distinct (map fst (stReceivers st'))"
  shows "one_stream st'"
  unfolding one_stream_def assms(2,3)
  using one_streamD [OF assms(1)] assms(4-6) by blast

lemma cancel_current_simps [simp]:
  "stNext (cancel_current st) = stNext st" "stReceivers (cancel_current st) = stReceivers st"
  "stCurrent (cancel_current st) = stCurrent st" "stDone (cancel_current st) = stDone st"
  "set (stCancelled (cancel_current st)) = set_option (stCurrent st) \<union> set (stCancelled st)"
  by (simp_all add: cancel_current_def split: option.split)

lemma establishStream_simps [simp]:
  "stNext (establishStream ok st) = Suc (stNext st)" "stCurrent (establishStream ok st) = Some (stNext st)"
  "stReceivers (establishStream ok st) = stReceivers st @ (if ok then [(stNext st, None)] else [])"
  "stDone (establishStream ok st) = stDone st"
  "set (stCancelled (establishStream ok st)) = set_option (stCurrent st) \<union> set (stCancelled st)"
  by (simp_all add: establishStream_def Let_def)

lemma one_stream_establish:
  assumes "one_stream st" shows "one_stream (establishStream ok st)"
  unfolding one_stream_def
proof (intro conjI allI impI ballI)
  fix i assume "i < stNext (establishStream ok st)" "i \<notin> set (stCancelled (establishStream ok st))"
  then show "stCurrent (establishStream ok st) = Some i"
    using one_streamD(1) [OF assms, of i] by (simp add: less_Suc_eq) blast
next
  fix p assume "p \<in> set (stReceivers (establishStream ok st))"
  then show "fst p < stNext (establishStream ok st)"
    using one_streamD(3) [OF assms, of p] by (auto split: if_splits)
next
  fix i c assume "(i, Some c) \<in> set (stReceivers (establishStream ok st))"
  then have "(i, Some c) \<in> set (stReceivers st)" by (simp split: if_splits)
  then show "i \<le> c" "c < stNext (establishStream ok st)" using one_streamD(4,5) [OF assms, of i c] by simp_all
next
  have "stNext st \<notin> fst ` set (stReceivers st)" using one_streamD(3) [OF assms] by fastforce
  then show "distinct (map fst (stReceivers (establishStream ok st)))" using one_streamD(6) [OF assms] by simp
qed simp

lemma one_stream_fewer:
  assumes "one_stream st" and "k < length (stReceivers st)"
  shows "one_stream (st\<lparr>stCancelled := c # stCancelled st,
    stReceivers := take k (stReceivers st) @ drop (Suc k) (stReceivers st)\<rparr>)"
proof -
  obtain ys x zs where "stReceivers st = ys @ x # zs" "take k (stReceivers st) @ drop (Suc k) (stReceivers st) = ys @ zs"
    using id_take_nth_drop [OF assms(2)] by blast
  then show ?thesis
    using one_streamD(6) [OF assms(1)] by (intro one_stream_mono [OF assms(1)]) auto
qed

lemma one_stream_receivers:
  assumes one: "one_stream st" and fst: "map fst R = map fst (stReceivers st)"
    and "\<And>i c. (i, Some c) \<in> set R \<Longrightarrow> i \<le> c \<and> c < stNext st"
  shows "one_stream (st\<lparr>stReceivers := R\<rparr>)"
proof (rule one_streamI)
  show "\<forall>p \<in> set (stReceivers (st\<lparr>stReceivers := R\<rparr>)). fst p < stNext (st\<lparr>stReceivers := R\<rparr>)"
  proof
    fix p assume "p \<in> set (stReceivers (st\<lparr>stReceivers := R\<rparr>))"
    then have "fst p \<in> set (map fst R)" by simp
    then obtain q where "q \<in> set (stReceivers st)" "fst p = fst q" unfolding fst by auto
    then show "fst p < stNext (st\<lparr>stReceivers := R\<rparr>)" using one_streamD(3) [OF one, of q] by simp
  qed
  show "distinct (map fst (stReceivers (st\<lparr>stReceivers := R\<rparr>)))" using one_streamD(6) [OF one] by (simp add: fst)
  fix i assume "i < stNext (st\<lparr>stReceivers := R\<rparr>)" "i \<notin> set (stCancelled (st\<lparr>stReceivers := R\<rparr>))"
  then show "stCurrent (st\<lparr>stReceivers := R\<rparr>) = Some i" using one_streamD(1) [OF one, of i] by simp
next
  fix c assume "stCurrent (st\<lparr>stReceivers := R\<rparr>) = Some c"
  then show "stNext (st\<lparr>stReceivers := R\<rparr>) = Suc c" using one_streamD(2) [OF one, of c] by simp
next
  fix i c assume "(i, Some c) \<in> set (stReceivers (st\<lparr>stReceivers := R\<rparr>))"
  then show "i \<le> c \<and> c < stNext (st\<lparr>stReceivers := R\<rparr>)" using assms(3) by simp
qed

lemma one_stream_start:
  assumes "one_stream st" and "k < length (stReceivers st)"
  shows "one_stream (start_receiver k st)"
proof (cases "stReceivers st ! k")
  case (Pair i g)
  then have i: "(i, g) \<in> set (stReceivers st)" using assms(2) by (metis nth_mem)
  show ?thesis
  proof (cases g)
    case None
    let ?R = "(stReceivers st)[k := (i, stCurrent st)]"
    have fst: "map fst ?R = map fst (stReceivers st)"
      using Pair assms(2) by (metis fst_conv list_update_id map_update nth_map)
    have "j \<le> c \<and> c < stNext st" if "(j, Some c) \<in> set ?R" for j c
    proof (cases "(j, Some c) \<in> set (stReceivers st)")
      case True
      then show ?thesis using one_streamD(4,5) [OF assms(1), of j c] by simp
    next
      case False
      then have j: "(j, Some c) = (i, stCurrent st)" using that set_update_subset_insert by fast
      then have "stNext st = Suc c" by (intro one_streamD(2) [OF assms(1)]) simp
      then show ?thesis using one_streamD(3) [OF assms(1) i] j by simp
    qed
    then have "one_stream (st\<lparr>stReceivers := ?R\<rparr>)" by (rule one_stream_receivers [OF assms(1) fst])
    then show ?thesis using Pair None by (simp add: start_receiver_def)
  qed (use assms Pair in \<open>simp add: start_receiver_def\<close>)
qed

lemma on_state_Done: "on_state f r = Done x s \<longleftrightarrow> (\<exists>w. r = Done x w \<and> s = f w)"
  by (cases r) auto

lemma on_state_on_state [simp]: "on_state f (on_state g r) = on_state (\<lambda>s. f (g s)) r"
  by (cases r) simp_all

lemma on_state_id [simp]: "on_state (\<lambda>s. s) r = r"
  by (cases r) simp_all

lemma stream_step_cases:
  assumes "stream_step E ev (st, w) = Done () (st', w')"
  obtains (same) "st' = st"
    | (establish) ok where "ev = Reconnect ok" "st' = establishStream ok st"
    | (receiver) k where "k < length (stReceivers st)" "st' = start_receiver k st"
    | (fewer) k i c where "k < length (stReceivers st)" "stReceivers st ! k = (i, Some c)"
        "st' = st\<lparr>stCancelled := c # stCancelled st, stReceivers := take k (stReceivers st) @ drop (Suc k) (stReceivers st)\<rparr>"
    | (over) "st' = (cancel_current st)\<lparr>stDone := True\<rparr>"
proof (cases ev)
  case (ReceiverGets k answer)
  show thesis
  proof (cases "k < length (stReceivers st)")
    case True
    obtain i g where k: "stReceivers st ! k = (i, g)" by force
    show thesis
    proof (cases g)
      case (Some c)
      show thesis
      proof (cases answer)
        case None
        then have "st' = st\<lparr>stCancelled := c # stCancelled st, stReceivers := take k (stReceivers st) @ drop (Suc k) (stReceivers st)\<rparr>"
          using assms k True ReceiverGets Some by (simp add: receiver_turn_def)
        then show thesis by (rule fewer [OF True k [unfolded Some]])
      next
        case (Some resp)
        then have "st' = st" using assms k True ReceiverGets \<open>g = Some c\<close> by (simp add: receiver_turn_def on_state_Done)
        then show thesis by (rule same)
      qed
    next
      case None
      then have "st' = st" using assms k True ReceiverGets by (simp add: receiver_turn_def)
      then show thesis by (rule same)
    qed
  next
    case False
    then have "st' = st" using assms ReceiverGets by simp
    then show thesis by (rule same)
  qed
next
  case (Reconnect ok)
  then have "st' = (if stDone st then st else establishStream ok st)" using assms by simp
  then show thesis using same establish [OF Reconnect] by metis
next
  case (ReceiverStarts k)
  then have "st' = (if k < length (stReceivers st) then start_receiver k st else st)" using assms by simp
  then show thesis using same receiver [of k] by metis
next
  case StatusTick
  then have "st' = st" using assms by (auto simp: on_state_Done split: if_splits)
  then show thesis by (rule same)
next
  case ContextDone
  then have "st' = (if stDone st then st else (cancel_current st)\<lparr>stDone := True\<rparr>)" using assms by simp
  then show thesis using same over by metis
qed

lemma one_stream_step:
  assumes "stream_step E ev (st, w) = Done () (st', w')" and one: "one_stream st"
  shows "one_stream st'"
  using assms(1)
proof (cases rule: stream_step_cases)
  case over
  then show ?thesis using one_streamD(6) [OF one] by (intro one_stream_mono [OF one]) auto
qed (simp_all add: one one_stream_establish one_stream_start one_stream_fewer)

lemma stream_reached_one: "stream_reached E s \<Longrightarrow> one_stream (fst s)"
proof (induction rule: stream_reached.induct)
  case (start ok w)
  have "one_stream no_stream" by (simp add: one_stream_def no_stream_def)
  then show ?case by (simp add: one_stream_establish)
next
  case (step s ev t)
  then show ?case using one_stream_step [of E ev "fst s" "snd s" "fst t" "snd t"] by simp
qed simp

lemma live_receivers_agree:
  assumes "stream_reached E (st, w)" and "(i, c) \<in> set (stReceivers st)" and "i \<notin> set (stCancelled st)"
    and "(j, d) \<in> set (stReceivers st)" and "j \<notin> set (stCancelled st)"
  shows "stCurrent st = Some i \<and> (i, c) = (j, d)"
proof -
  have one: "one_stream st" using stream_reached_one [OF assms(1)] by simp
  have i: "stCurrent st = Some i" using one_streamD(1,3) [OF one] assms(2,3) by fastforce
  have "stCurrent st = Some j" using one_streamD(1,3) [OF one] assms(4,5) by fastforce
  with i have "i = j" by simp
  then show ?thesis using i eq_key_imp_eq_value [OF one_streamD(6) [OF one]] assms(2,4) by blast
qed

definition reconnected :: "stream_state" where
  "reconnected = start_receiver 1 (establishStream True (start_receiver 0 (establishStream True no_stream)))"

lemma reconnected_run:
  "stream_run E [ReceiverStarts 0, Reconnect True, ReceiverStarts 1] (establishStream True no_stream, w) = Done () (reconnected, w)"
  by (simp add: reconnected_def establishStream_def no_stream_def cancel_current_def start_receiver_def Let_def)

lemma reached_run: "stream_reached E s \<Longrightarrow> stream_run E evs s = Done () t \<Longrightarrow> stream_reached E t"
  by (induction evs arbitrary: s) (auto simp: bind_res_Done_iff intro: stream_reached.step)

lemma reconnected_state:
  "reconnected = \<lparr>stCurrent = Some 1, stNext = 2, stCancelled = [0], stReceivers = [(0, Some 0), (1, Some 1)], stDone = False\<rparr>"
  by (simp add: reconnected_def establishStream_def no_stream_def cancel_current_def start_receiver_def Let_def)

section \<open>Between an error and the next reconnection\<close>

definition deaf :: "stream_state \<Rightarrow> bool" where
  "deaf st \<longleftrightarrow> set (map fst (stReceivers st)) \<subseteq> set (stCancelled st)"

lemma start_receiver_same:
  assumes "k < length (stReceivers st)"
  shows "map fst (stReceivers (start_receiver k st)) = map fst (stReceivers st)"
    "stCancelled (start_receiver k st) = stCancelled st"
proof -
  obtain i g where k: "stReceivers st ! k = (i, g)" by force
  then have "map fst ((stReceivers st)[k := (i, x)]) = map fst (stReceivers st)" for x
    using assms by (metis fst_conv list_update_id map_update nth_map)
  then show "map fst (stReceivers (start_receiver k st)) = map fst (stReceivers st)"
    "stCancelled (start_receiver k st) = stCancelled st"
    using k by (simp_all add: start_receiver_def del: map_update split: option.split)
qed

lemma deaf_step:
  assumes "stream_step E ev (st, w) = Done () (st', w')" and d: "deaf st" and "ev \<noteq> Reconnect True"
  shows "deaf st'"
  using assms(1)
proof (cases rule: stream_step_cases)
  case (establish ok)
  then show ?thesis using d assms(3) by (cases ok) (auto simp: deaf_def)
next
  case (receiver k)
  then show ?thesis using d by (simp only: deaf_def start_receiver_same)
next
  case (fewer k i c)
  have "set (take k xs @ drop (Suc k) xs) \<subseteq> set xs" for xs :: "(nat \<times> nat option) list"
    by (auto dest: in_set_takeD in_set_dropD)
  then have "set (stReceivers st') \<subseteq> set (stReceivers st)" using fewer(3) by simp
  moreover have "set (stCancelled st) \<subseteq> set (stCancelled st')" using fewer(3) by auto
  ultimately show ?thesis using d unfolding deaf_def set_map by blast
next
  case over
  then show ?thesis using d by (auto simp: deaf_def)
qed (use d in simp)

lemma deaf_run:
  "stream_run E evs (st, w) = Done () (st', w') \<Longrightarrow> deaf st \<Longrightarrow> Reconnect True \<notin> set evs \<Longrightarrow> deaf st'"
proof (induction evs arbitrary: st w)
  case (Cons ev evs)
  from Cons.prems(1) obtain u x where "stream_step E ev (st, w) = Done () (u, x)" "stream_run E evs (u, x) = Done () (st', w')"
    by (auto simp: bind_res_Done_iff)
  then show ?case using Cons.IH deaf_step [of E ev st w u x] Cons.prems(2,3) by auto
qed simp

lemma receiver_fails:
  assumes "k < length (stReceivers st)" and "stReceivers st ! k = (i, Some c)"
  shows "stream_step E (ReceiverGets k None) (st, w) = Done () (st\<lparr>stCancelled := c # stCancelled st,
    stReceivers := take k (stReceivers st) @ drop (Suc k) (stReceivers st)\<rparr>, w)"
  using assms by (simp add: receiver_turn_def)

lemma deaf_when_current_cancelled:
  assumes "one_stream st" and "stCurrent st = Some c" and "c \<in> set (stCancelled st)"
  shows "deaf st"
proof -
  have "fst p \<in> set (stCancelled st)" if "p \<in> set (stReceivers st)" for p
    using one_streamD(1) [OF assms(1) one_streamD(3) [OF assms(1) that]] assms(2,3) by (cases "fst p = c") auto
  then show ?thesis by (auto simp: deaf_def)
qed

lemma deaf_after_error:
  assumes "one_stream st" and "k < length (stReceivers st)" and "stCurrent st = Some c"
  shows "deaf (st\<lparr>stCancelled := c # stCancelled st, stReceivers := take k (stReceivers st) @ drop (Suc k) (stReceivers st)\<rparr>)"
  by (rule deaf_when_current_cancelled [OF one_stream_fewer [OF assms(1,2), of c], of c]) (simp_all add: assms(3))

text \<open>C38: A broken stream stays broken until the next reconnection: when the receiver of the live stream gets an error, it
  cancels that stream and ends, and in every state that \<^verbatim>\<open>reportStatus\<close> reaches before the two-minute ticker has established
  another one, no goroutine reads a live stream; the worker misses all that the scheduler sends.\<close>

theorem deaf_until_reconnect:
  assumes "stream_reached E (st, w)" and "k < length (stReceivers st)" and "stReceivers st ! k = (i, Some c)"
    and "i \<notin> set (stCancelled st)" and "stream_run E (ReceiverGets k None # evs) (st, w) = Done () (st', w')"
    and "Reconnect True \<notin> set evs"
  shows "set (map fst (stReceivers st')) \<subseteq> set (stCancelled st')"
proof -
  have one: "one_stream st" using stream_reached_one [OF assms(1)] by simp
  have r: "(i, Some c) \<in> set (stReceivers st)" using assms(2,3) by (metis nth_mem)
  have i: "stCurrent st = Some i" using one_streamD(1) [OF one _ assms(4)] one_streamD(3) [OF one r] by simp
  then have cur: "stCurrent st = Some c"
    using one_streamD(2) [OF one i] one_streamD(4,5) [OF one r] by simp
  have "stream_run E evs (st\<lparr>stCancelled := c # stCancelled st,
      stReceivers := take k (stReceivers st) @ drop (Suc k) (stReceivers st)\<rparr>, w) = Done () (st', w')"
    using assms(5) by (simp add: receiver_fails [OF assms(2,3)] del: stream_step.simps)
  from deaf_run [OF this deaf_after_error [OF one assms(2) cur] assms(6)] show ?thesis by (simp add: deaf_def)
qed

lemma reconnected_reached: "stream_reached E (reconnected, w)"
  by (rule reached_run [OF stream_reached.start reconnected_run])

theorem deaf_until_reconnect_witness:
  "\<exists>st. stream_run (node_example_env go_rwmutex) [ReceiverGets 1 None, Reconnect False, ContextDone] (reconnected, node_example)
      = Done () (st, node_example) \<and> stReceivers st = [(0, Some 0)] \<and> set (map fst (stReceivers st)) \<subseteq> set (stCancelled st)"
proof -
  have "\<exists>st. stream_run (node_example_env go_rwmutex) [ReceiverGets 1 None, Reconnect False, ContextDone] (reconnected, node_example)
      = Done () (st, node_example) \<and> stReceivers st = [(0, Some 0)]"
    by (simp add: reconnected_state receiver_turn_def)
  then obtain st where st: "stream_run (node_example_env go_rwmutex) [ReceiverGets 1 None, Reconnect False, ContextDone]
      (reconnected, node_example) = Done () (st, node_example)" "stReceivers st = [(0, Some 0)]" by blast
  from deaf_until_reconnect [OF reconnected_reached _ _ _ st(1)] st show ?thesis by (simp add: reconnected_state)
qed

text \<open>C39: A receiver that starts late breaks the stream that replaced its own: when a receiver has not run its first statement
  before the worker reconnects, its deferred \<^verbatim>\<open>streamCancel()\<close> is the new stream's, so when its own stream ends, no goroutine
  is left that reads a live stream, although the reconnection had succeeded and the new stream's goroutine is there.\<close>

theorem late_receiver_cancels_new_stream:
  assumes "stream_reached E (st, w)" and "\<not> stDone st" and "k < length (stReceivers st)" and "stReceivers st ! k = (i, None)"
  shows "\<exists>st'. stream_run E [Reconnect True, ReceiverStarts k, ReceiverGets k None] (st, w) = Done () (st', w)
    \<and> stCurrent st' = Some (stNext st) \<and> (stNext st, None) \<in> set (stReceivers st')
    \<and> set (map fst (stReceivers st')) \<subseteq> set (stCancelled st')"
proof -
  let ?a = "establishStream True st" and ?R = "(stReceivers st)[k := (i, Some (stNext st))] @ [(stNext st, None)]"
  have a: "start_receiver k ?a = ?a\<lparr>stReceivers := ?R\<rparr>" (is "_ = ?b")
    using assms(3,4) by (simp add: start_receiver_def nth_append list_update_append)
  have steps: "stream_step E (Reconnect True) (st, w) = Done () (?a, w)"
    "stream_step E (ReceiverStarts k) (?a, w) = Done () (?b, w)" using assms(2,3) a by simp_all
  have k: "k < length (stReceivers ?b)" "stReceivers ?b ! k = (i, Some (stNext st))"
    using assms(3) by (simp_all add: nth_append)
  let ?c = "?b\<lparr>stCancelled := stNext st # stCancelled ?b, stReceivers := take k (stReceivers ?b) @ drop (Suc k) (stReceivers ?b)\<rparr>"
  have c: "stream_step E (ReceiverGets k None) (?b, w) = Done () (?c, w)" by (rule receiver_fails [OF k])
  have "one_stream st" using stream_reached_one [OF assms(1)] by simp
  then have "one_stream ?b" using one_stream_step [OF steps(2) one_stream_step [OF steps(1)]] by simp
  then have "deaf ?c" by (rule deaf_after_error [OF _ k(1)]) simp
  moreover have "stream_run E [Reconnect True, ReceiverStarts k, ReceiverGets k None] (st, w) = Done () (?c, w)"
    by (simp add: steps c del: stream_step.simps)
  moreover have "(stNext st, None) \<in> set (stReceivers ?c)" using assms(3) by (simp add: Suc_leI)
  moreover have "stCurrent ?c = Some (stNext st)" by simp
  ultimately show ?thesis unfolding deaf_def by blast
qed

theorem late_receiver_cancels_new_stream_witness:
  "\<exists>st'. stream_run (node_example_env go_rwmutex) [Reconnect True, ReceiverStarts 0, ReceiverGets 0 None]
      (establishStream True no_stream, node_example) = Done () (st', node_example)
    \<and> stCurrent st' = Some 1 \<and> (1, None) \<in> set (stReceivers st') \<and> set (map fst (stReceivers st')) \<subseteq> set (stCancelled st')"
  using late_receiver_cancels_new_stream [OF stream_reached.start [of "node_example_env go_rwmutex" True node_example], of 0 0]
  by (simp add: no_stream_def del: stream_run.simps)

end
