(* ===== verification/WorkerLife.thy ===== *)
theory WorkerLife
  imports WorkerStream
begin

text \<open>
  \<^verbatim>\<open>Start\<close> of \<^verbatim>\<open>pkg/worker/worker.go\<close> and the goroutines it leads to: the loop of \<^verbatim>\<open>pollForTasks\<close>, \<^verbatim>\<open>reportStatus\<close> with its
  receivers, and the goroutines of tasks and of delayed clean-ups, all in any order; what they do after the context is cancelled;
  and how many streams they listen to.
\<close>

section \<open>The goroutines\<close>

text \<open>\<open>lfCancelled\<close>: the context given to \<^verbatim>\<open>Start\<close> is cancelled. \<open>lfReporting\<close>: \<^verbatim>\<open>reportStatus\<close> has run its first \<^verbatim>\<open>establishStream()\<close>.\<close>

record node_life =
  lfNode :: NodeWorker
  lfStream :: stream_state
  lfPolling :: bool
  lfReporting :: bool
  lfCancelled :: bool

definition node_Start ::
  "(RegisterWorkerRequest \<Rightarrow> string + RegisterWorkerResponse) \<Rightarrow> NodeWorker \<Rightarrow> string + node_life" where
  "node_Start client w = (case Register client w of
      (Some err, _) \<Rightarrow> Inl err
    | (None, w') \<Rightarrow> Inr \<lparr>lfNode = w', lfStream = no_stream, lfPolling = True, lfReporting = False, lfCancelled = False\<rparr>)"

datatype life_event =
    Cancel
  | PollLoop "TaskRequest \<Rightarrow> grpc_error + pbTask"
  | FirstStream bool
  | StreamTurn stream_event
  | TaskTurn nat
  | CleanupTurn nat

text \<open>One turn of the loop: \<^verbatim>\<open>select\<close> returns when the context is done, and otherwise takes the default branch.\<close>

definition pollForTasks ::
  "node_env \<Rightarrow> (TaskRequest \<Rightarrow> grpc_error + pbTask) \<Rightarrow> node_life \<Rightarrow> (unit, node_life) res" where
  "pollForTasks E client l =
     (if \<not> lfPolling l then Done () l
      else if lfCancelled l then Done () (l\<lparr>lfPolling := False\<rparr>)
      else on_state (\<lambda>w. l\<lparr>lfNode := w\<rparr>) (poll_turn E client (lfNode l)))"

text \<open>A turn of \<^verbatim>\<open>reportStatus\<close> or a receiver; the branch of \<^verbatim>\<open>ctx.Done()\<close> can only be taken once the context is cancelled.\<close>

definition stream_turn :: "node_env \<Rightarrow> stream_event \<Rightarrow> node_life \<Rightarrow> (unit, node_life) res" where
  "stream_turn E ev l =
     (if \<not> lfReporting l \<or> ev = ContextDone \<and> \<not> lfCancelled l then Done () l
      else on_state (\<lambda>(st, w). l\<lparr>lfStream := st, lfNode := w\<rparr>) (stream_step E ev (lfStream l, lfNode l)))"

text \<open>Tasks run under the context given to \<^verbatim>\<open>Start\<close>, so their \<^verbatim>\<open>select\<close> takes the branch of \<^verbatim>\<open>ctx.Done()\<close> iff it is cancelled.\<close>

fun life_step :: "node_env \<Rightarrow> life_event \<Rightarrow> node_life \<Rightarrow> (unit, node_life) res" where
  "life_step E Cancel l = Done () (l\<lparr>lfCancelled := True\<rparr>)"
| "life_step E (PollLoop client) l = pollForTasks E client l"
| "life_step E (FirstStream ok) l =
     Done () (if lfReporting l then l else l\<lparr>lfStream := establishStream ok (lfStream l), lfReporting := True\<rparr>)"
| "life_step E (StreamTurn ev) l = stream_turn E ev l"
| "life_step E (TaskTurn k) l = on_state (\<lambda>w. l\<lparr>lfNode := w\<rparr>) (node_step E (Turn (lfCancelled l) k) (lfNode l))"
| "life_step E (CleanupTurn k) l = on_state (\<lambda>w. l\<lparr>lfNode := w\<rparr>) (node_step E (Cleanup k) (lfNode l))"

fun life_run :: "node_env \<Rightarrow> life_event list \<Rightarrow> node_life \<Rightarrow> (unit, node_life) res" where
  "life_run E [] l = Done () l"
| "life_run E (ev # evs) l = bind_res (life_step E ev l) (\<lambda>_. life_run E evs)"


section \<open>What the goroutines do to the worker\<close>

text \<open>Every turn is a step of the worker or leaves the worker alone.\<close>

lemma stream_step_node:
  "on_state snd (stream_step E ev (st, w)) \<in> {Done () w, node_step E Ticker w} \<union> {node_step E (Receive resp) w | resp. True}"
proof (cases ev)
  case (ReceiverGets k answer)
  obtain i g where k: "stReceivers st ! k = (i, g)" by force
  show ?thesis
  proof (cases "k < length (stReceivers st) \<and> g \<noteq> None \<and> answer \<noteq> None")
    case True
    then obtain c resp where "g = Some c" "answer = Some resp" by blast
    then show ?thesis using True k ReceiverGets by (auto simp: receiver_turn_def)
  next
    case False
    then have "on_state snd (stream_step E ev (st, w)) = Done () w"
      using k ReceiverGets by (cases g; cases answer) (auto simp: receiver_turn_def)
    then show ?thesis by simp
  qed
qed simp_all

lemma life_step_node:
  obtains (quiet) "on_state lfNode (life_step E ev l) = Done () (lfNode l)"
  | (node) nev where "on_state lfNode (life_step E ev l) = node_step E nev (lfNode l)"
      "\<And>client. nev = Poll client \<Longrightarrow> \<not> lfCancelled l" "\<And>c k. nev = Turn c k \<Longrightarrow> c = lfCancelled l"
proof (cases ev)
  case (PollLoop client)
  show thesis
  proof (cases "lfPolling l \<and> \<not> lfCancelled l")
    case True
    then show thesis using node [of "Poll client"] PollLoop by (simp add: pollForTasks_def)
  qed (use quiet PollLoop in \<open>auto simp: pollForTasks_def\<close>)
next
  case (StreamTurn e)
  show thesis
  proof (cases "\<not> lfReporting l \<or> e = ContextDone \<and> \<not> lfCancelled l")
    case False
    then have eq: "on_state lfNode (life_step E ev l) = on_state snd (stream_step E e (lfStream l, lfNode l))"
      using StreamTurn by (simp add: stream_turn_def case_prod_beta)
    show thesis using stream_step_node [of E e "lfStream l" "lfNode l"] eq quiet node [of Ticker] node [of "Receive _"]
      by (auto simp del: node_step.simps)
  qed (use quiet StreamTurn in \<open>simp add: stream_turn_def\<close>)
qed (use quiet node [of "Turn _ _"] node [of "Cleanup _"] in \<open>simp_all del: node_step.simps\<close>)



section \<open>After the context is cancelled\<close>









section \<open>The process of a worker\<close>

inductive life_reached :: "node_env \<Rightarrow> node_life \<Rightarrow> bool" for E where
  start: "NewWorker None None addr gpus = Inr w \<Longrightarrow> node_Start client (w\<lparr>nwHasMetrics := b\<rparr>) = Inr l \<Longrightarrow> life_reached E l"
| step: "life_reached E l \<Longrightarrow> life_step E ev l = Done () l' \<Longrightarrow> life_reached E l'"

lemma node_Start_state:
  assumes "node_Start client w = Inr l"
  obtains i where "lfNode l = w\<lparr>nwID := i\<rparr>" "lfStream l = no_stream" "\<not> lfReporting l" "\<not> lfCancelled l"
  using assms by (auto simp: node_Start_def Register_def split: sum.splits if_splits option.splits)

lemma life_reached_node: "life_reached E l \<Longrightarrow> node_reached E (lfNode l)"
proof (induction rule: life_reached.induct)
  case (start addr gpus w client b l)
  obtain i where "lfNode l = w\<lparr>nwHasMetrics := b, nwID := i\<rparr>" by (rule node_Start_state [OF start(2)])
  moreover have "w\<lparr>nwHasMetrics := b, nwID := i\<rparr> = w\<lparr>nwID := i, nwHasMetrics := b\<rparr>" by simp
  ultimately show ?case using node_reached.start [OF start(1)] by simp
next
  case (step l ev l')
  show ?case
  proof (cases E ev l rule: life_step_node)
    case (node nev)
    then have "node_step E nev (lfNode l) = Done () (lfNode l')" by (simp add: step.hyps(2))
    then show ?thesis using node_reached.step [OF step.IH, of nev] by simp
  qed (use step in simp)
qed

lemma life_reached_stream:
  "life_reached E l \<Longrightarrow> (if lfReporting l then stream_reached E (lfStream l, lfNode l) else lfStream l = no_stream)"
proof (induction rule: life_reached.induct)
  case (start addr gpus w client b l)
  show ?case by (rule node_Start_state [OF start(2)]) simp
next
  case (step l ev l')
  show ?case
  proof (cases ev)
    case (StreamTurn e)
    then show ?thesis using step stream_reached.step [of E "(lfStream l, lfNode l)" e]
      by (auto simp: stream_turn_def on_state_Done split: if_splits prod.splits)
  next
    case (FirstStream ok)
    then show ?thesis using step stream_reached.start [of E ok "lfNode l"] by (auto split: if_splits)
  qed (use step in \<open>auto simp: pollForTasks_def on_state_Done split: if_splits intro: stream_reached.elsewhere\<close>)
qed

text \<open>C37: The worker listens to one stream at a time: in every state of its process, however often it reconnects and
  however late its receiving goroutines run, at most one of them reads a stream whose context is not cancelled, and it
  is the stream made last.\<close>

theorem one_live_stream:
  assumes "life_reached E l" and "(i, c) \<in> set (stReceivers (lfStream l))" and "i \<notin> set (stCancelled (lfStream l))"
    and "(j, d) \<in> set (stReceivers (lfStream l))" and "j \<notin> set (stCancelled (lfStream l))"
  shows "stCurrent (lfStream l) = Some i \<and> (i, c) = (j, d)"
proof -
  have "stream_reached E (lfStream l, lfNode l)"
    using life_reached_stream [OF assms(1)] assms(2) by (auto simp: no_stream_def split: if_splits)
  then show ?thesis by (rule live_receivers_agree) (fact assms)+
qed

lemma life_run_reached: "life_run E evs l = Done () l' \<Longrightarrow> life_reached E l \<Longrightarrow> life_reached E l'"
  by (induction evs arbitrary: l) (auto simp: bind_res_Done_iff intro: life_reached.step)

definition life_example :: node_life where
  "life_example = projr (node_Start (\<lambda>_. Inr \<lparr>rrSuccess = True, rrMessage = '''', rrAssignedId = ''w1''\<rparr>)
     (projr (NewWorker None None ''host'' [])))"

lemma life_example_reached: "life_reached E life_example"
proof -
  let ?w = "projr (NewWorker None None ''host'' [])"
  have new: "NewWorker None None ''host'' [] = Inr ?w" by (simp add: NewWorker_def)
  have same: "?w\<lparr>nwHasMetrics := nwHasMetrics ?w\<rparr> = ?w" by simp
  have "node_Start (\<lambda>_. Inr \<lparr>rrSuccess = True, rrMessage = '''', rrAssignedId = ''w1''\<rparr>) ?w = Inr life_example"
    by (simp add: life_example_def node_Start_def Register_def)
  then have "node_Start (\<lambda>_. Inr \<lparr>rrSuccess = True, rrMessage = '''', rrAssignedId = ''w1''\<rparr>)
      (?w\<lparr>nwHasMetrics := nwHasMetrics ?w\<rparr>) = Inr life_example" unfolding same .
  then show ?thesis by (rule life_reached.start [OF new])
qed

theorem one_live_stream_witness:
  "\<exists>l. life_run (node_example_env go_rwmutex)
      [FirstStream True, StreamTurn (ReceiverStarts 0), StreamTurn (Reconnect True), StreamTurn (ReceiverStarts 1)] life_example
      = Done () l
    \<and> stReceivers (lfStream l) = [(0, Some 0), (1, Some 1)] \<and> stCancelled (lfStream l) = [0] \<and> stCurrent (lfStream l) = Some 1"
proof -
  let ?evs = "[FirstStream True, StreamTurn (ReceiverStarts 0), StreamTurn (Reconnect True), StreamTurn (ReceiverStarts 1)]"
  have "\<exists>l. life_run (node_example_env go_rwmutex) ?evs life_example = Done () l \<and> lfStream l = reconnected"
    by (simp add: life_example_def node_Start_def Register_def NewWorker_def stream_turn_def reconnected_def
        establishStream_def cancel_current_def start_receiver_def no_stream_def Let_def)
  then obtain l where l: "life_run (node_example_env go_rwmutex) ?evs life_example = Done () l" "lfStream l = reconnected" by blast
  have r: "life_reached (node_example_env go_rwmutex) l" by (rule life_run_reached [OF l(1) life_example_reached])
  from one_live_stream [OF r, of 1 "Some 1" 1 "Some 1"] l show ?thesis by (simp add: reconnected_state)
qed

end
