(* ===== verification/Metrics.thy ===== *)
theory Metrics
  imports SchedState WorkerRun
begin

text \<open>
  \<^verbatim>\<open>pkg/metrics/metrics.go\<close>: the collectors, and the methods of \<^verbatim>\<open>SchedulerMetrics\<close> and \<^verbatim>\<open>WorkerMetrics\<close> on
  them. The Prometheus client is third-party code and a parameter: a record of its operations on a registry of any type. A
  method that looks up a series by its label values panics when the library refuses them, which is \<open>None\<close>. What the library
  documents is the predicate \<open>prom_laws\<close>, over a view of the registry as its series. The HTTP server that exposes
  the registry is not modelled.
\<close>

section \<open>Collectors\<close>

record collector =
  clName :: string
  clHelp :: string
  clLabels :: "string list"

definition totalTasks :: collector where
  "totalTasks = \<lparr>clName = ''scheduler_tasks_total'',
     clHelp = ''The total number of tasks submitted to the scheduler'', clLabels = []\<rparr>"

definition activeTasks :: collector where
  "activeTasks = \<lparr>clName = ''scheduler_tasks_active'', clHelp = ''The number of currently active tasks'', clLabels = []\<rparr>"

definition pendingTasks_gauge :: collector where
  "pendingTasks_gauge = \<lparr>clName = ''scheduler_tasks_pending'',
     clHelp = ''The number of pending tasks waiting for assignment'', clLabels = []\<rparr>"

definition completedTasks :: collector where
  "completedTasks = \<lparr>clName = ''scheduler_tasks_completed'', clHelp = ''The total number of completed tasks'',
     clLabels = []\<rparr>"

definition failedTasks :: collector where
  "failedTasks = \<lparr>clName = ''scheduler_tasks_failed'', clHelp = ''The total number of failed tasks'', clLabels = []\<rparr>"

definition taskDuration :: collector where
  "taskDuration = \<lparr>clName = ''scheduler_task_duration_seconds'', clHelp = ''The duration of tasks in seconds'',
     clLabels = [''task_name'']\<rparr>"

definition activeWorkers :: collector where
  "activeWorkers = \<lparr>clName = ''scheduler_workers_active'', clHelp = ''The number of active workers'', clLabels = []\<rparr>"

definition workerGPUUtilization :: collector where
  "workerGPUUtilization = \<lparr>clName = ''worker_gpu_utilization'',
     clHelp = ''GPU utilization percentage per worker and GPU'', clLabels = [''worker_id'', ''gpu_id'']\<rparr>"

definition workerGPUMemoryUsage :: collector where
  "workerGPUMemoryUsage = \<lparr>clName = ''worker_gpu_memory_usage_mb'',
     clHelp = ''GPU memory usage in MB per worker and GPU'', clLabels = [''worker_id'', ''gpu_id'']\<rparr>"

definition workerTaskProgress :: collector where
  "workerTaskProgress = \<lparr>clName = ''worker_task_progress'',
     clHelp = ''Task progress percentage per worker and task'', clLabels = [''worker_id'', ''task_id'', ''task_name'']\<rparr>"

definition workerStatus :: collector where
  "workerStatus = \<lparr>clName = ''worker_status'',
     clHelp = ''Worker status (0=IDLE, 1=BUSY, 2=OFFLINE, 3=ERROR)'', clLabels = [''worker_id'']\<rparr>"

text \<open>Declared in \<^verbatim>\<open>pkg/worker/metrics.go\<close>.\<close>

definition taskStartTime :: collector where
  "taskStartTime = \<lparr>clName = ''task_start_time_seconds'', clHelp = ''The start time of tasks in unix seconds'',
     clLabels = [''worker_id'', ''task_id'', ''task_name'']\<rparr>"

definition collectors :: "collector list" where
  "collectors = [totalTasks, activeTasks, pendingTasks_gauge, completedTasks, failedTasks, taskDuration, activeWorkers,
     workerGPUUtilization, workerGPUMemoryUsage, workerTaskProgress, workerStatus, taskStartTime]"

lemmas collector_defs = totalTasks_def activeTasks_def pendingTasks_gauge_def completedTasks_def failedTasks_def
  taskDuration_def activeWorkers_def workerGPUUtilization_def workerGPUMemoryUsage_def workerTaskProgress_def
  workerStatus_def taskStartTime_def

text \<open>Registering two collectors with one name panics when the package is loaded.\<close>

lemma collector_names_distinct: "distinct (map clName collectors)"
  by (simp add: collectors_def collector_defs)

section \<open>The Prometheus client\<close>

record 'm prom =
  pm_inc :: "collector \<Rightarrow> 'm \<Rightarrow> 'm"
  pm_set :: "collector \<Rightarrow> string list \<Rightarrow> gofloat \<Rightarrow> 'm \<Rightarrow> 'm option"
  pm_observe :: "collector \<Rightarrow> string list \<Rightarrow> gofloat \<Rightarrow> 'm \<Rightarrow> 'm option"
  pm_delete :: "collector \<Rightarrow> string list \<Rightarrow> 'm \<Rightarrow> 'm"

text \<open>The series: counters and gauges by name and label values, and what histograms have observed.\<close>

record series =
  sr_count :: "string \<Rightarrow> nat"
  sr_gauge :: "string \<times> string list \<rightharpoonup> gofloat"
  sr_observed :: "string \<times> string list \<Rightarrow> gofloat list"

definition no_series :: series where
  "no_series = \<lparr>sr_count = (\<lambda>_. 0), sr_gauge = Map.empty, sr_observed = (\<lambda>_. [])\<rparr>"

text \<open>Label values are accepted when there is one for each label and they are valid UTF-8 (\<open>utf8\<close>).\<close>

definition accepts :: "(string \<Rightarrow> bool) \<Rightarrow> collector \<Rightarrow> string list \<Rightarrow> bool" where
  "accepts utf8 c ls \<longleftrightarrow> length ls = length (clLabels c) \<and> list_all utf8 ls"

definition prom_laws :: "'m prom \<Rightarrow> ('m \<Rightarrow> series) \<Rightarrow> (string \<Rightarrow> bool) \<Rightarrow> bool" where
  "prom_laws R view utf8 \<longleftrightarrow> (\<forall>m c ls x.
     view (pm_inc R c m) = (view m)\<lparr>sr_count := (sr_count (view m))(clName c := Suc (sr_count (view m) (clName c)))\<rparr>
   \<and> map_option view (pm_set R c ls x m)
       = (if accepts utf8 c ls
          then Some ((view m)\<lparr>sr_gauge := (sr_gauge (view m))((clName c, ls) \<mapsto> x)\<rparr>) else None)
   \<and> map_option view (pm_observe R c ls x m)
       = (if accepts utf8 c ls
          then Some ((view m)\<lparr>sr_observed := (sr_observed (view m))((clName c, ls) :=
                 sr_observed (view m) (clName c, ls) @ [x])\<rparr>) else None)
   \<and> view (pm_delete R c ls m) = (view m)\<lparr>sr_gauge := (sr_gauge (view m))((clName c, ls) := None)\<rparr>)"

section \<open>\<^verbatim>\<open>SchedulerMetrics\<close>\<close>

text \<open>A Go \<^verbatim>\<open>int\<close> converted to \<^verbatim>\<open>float64\<close>.\<close>

definition count_value :: "nat \<Rightarrow> gofloat" where
  "count_value n = rnd64 (of_nat n)"

fun scheduler_metric :: "'m prom \<Rightarrow> metric_call \<Rightarrow> 'm \<Rightarrow> 'm option" where
  "scheduler_metric R IncrementTotalTasks m = Some (pm_inc R totalTasks m)"
| "scheduler_metric R (SetActiveTasks n) m = pm_set R activeTasks [] (count_value n) m"
| "scheduler_metric R (SetPendingTasks n) m = pm_set R pendingTasks_gauge [] (count_value n) m"
| "scheduler_metric R IncrementCompletedTasks m = Some (pm_inc R completedTasks m)"
| "scheduler_metric R IncrementFailedTasks m = Some (pm_inc R failedTasks m)"
| "scheduler_metric R (ObserveTaskDuration taskName x) m = pm_observe R taskDuration [taskName] x m"
| "scheduler_metric R (SetActiveWorkers n) m = pm_set R activeWorkers [] (count_value n) m"

section \<open>\<^verbatim>\<open>WorkerMetrics\<close>\<close>

record WorkerMetrics =
  mxWorkerID :: string

definition NewWorkerMetrics :: "string \<Rightarrow> WorkerMetrics" where
  "NewWorkerMetrics workerID = \<lparr>mxWorkerID = workerID\<rparr>"

definition set_gpu_utilization :: "'m prom \<Rightarrow> WorkerMetrics \<Rightarrow> string \<Rightarrow> gofloat \<Rightarrow> 'm \<Rightarrow> 'm option" where
  "set_gpu_utilization R wm gpuID x = pm_set R workerGPUUtilization [mxWorkerID wm, gpuID] x"

definition set_gpu_memory :: "'m prom \<Rightarrow> WorkerMetrics \<Rightarrow> string \<Rightarrow> gofloat \<Rightarrow> 'm \<Rightarrow> 'm option" where
  "set_gpu_memory R wm gpuID x = pm_set R workerGPUMemoryUsage [mxWorkerID wm, gpuID] x"

definition set_task_progress :: "'m prom \<Rightarrow> WorkerMetrics \<Rightarrow> string \<Rightarrow> string \<Rightarrow> gofloat \<Rightarrow> 'm \<Rightarrow> 'm option" where
  "set_task_progress R wm taskID taskName x = pm_set R workerTaskProgress [mxWorkerID wm, taskID, taskName] x"

text \<open>The enum is an \<^verbatim>\<open>int32\<close>; as a \<^verbatim>\<open>float64\<close> it is exact.\<close>

definition set_worker_status :: "'m prom \<Rightarrow> WorkerMetrics \<Rightarrow> WorkerStatus \<Rightarrow> 'm \<Rightarrow> 'm option" where
  "set_worker_status R wm st = pm_set R workerStatus [mxWorkerID wm] (rnd64 (of_int (sint st)))"

definition has_prefix :: "string \<Rightarrow> string \<Rightarrow> bool" where
  "has_prefix p s \<longleftrightarrow> take (length p) s = p"

definition trim_prefix :: "string \<Rightarrow> string \<Rightarrow> string" where
  "trim_prefix p s = (if has_prefix p s then drop (length p) s else s)"

text \<open>One metric of an update, by the name it has.\<close>

definition update_metric :: "'m prom \<Rightarrow> WorkerMetrics \<Rightarrow> pbMetric \<Rightarrow> 'm \<Rightarrow> 'm option" where
  "update_metric R wm x m =
     (if has_prefix ''gpu_utilization_'' (pmName x)
      then (let gpuID = trim_prefix ''gpu_utilization_'' (pmName x)
            in if gpuID \<noteq> '''' \<and> gpuID \<noteq> pmName x then set_gpu_utilization R wm gpuID (pmValue x) m else Some m)
      else if has_prefix ''gpu_memory_usage_'' (pmName x)
      then (let gpuID = trim_prefix ''gpu_memory_usage_'' (pmName x)
            in if gpuID \<noteq> '''' \<and> gpuID \<noteq> pmName x then set_gpu_memory R wm gpuID (pmValue x) m else Some m)
      else Some m)"

fun update_metrics :: "'m prom \<Rightarrow> WorkerMetrics \<Rightarrow> pbMetric list \<Rightarrow> 'm \<Rightarrow> 'm option" where
  "update_metrics R wm [] m = Some m"
| "update_metrics R wm (x # xs) m = Option.bind (update_metric R wm x m) (update_metrics R wm xs)"

text \<open>The pointer to the update may be nil. The task's name is not in the message: the label is empty.\<close>

definition update_from_status :: "'m prom \<Rightarrow> WorkerMetrics \<Rightarrow> TaskStatusUpdate option \<Rightarrow> 'm \<Rightarrow> 'm option" where
  "update_from_status R wm update m = (case update of
      None \<Rightarrow> Some m
    | Some u \<Rightarrow> Option.bind (set_task_progress R wm (tuTaskId u) '''' (tuProgress u) m)
                 (update_metrics R wm (tuMetrics u)))"

section \<open>The worker's calls\<close>

text \<open>What the calls recorded in the worker's state do; the start time is a collector of the package \<^verbatim>\<open>worker\<close>.\<close>

fun worker_metric :: "'m prom \<Rightarrow> WorkerMetrics \<Rightarrow> node_metric \<Rightarrow> 'm \<Rightarrow> 'm option" where
  "worker_metric R wm (SetWorkerStatus st) m = set_worker_status R wm st m"
| "worker_metric R wm (SetGPUUtilization g x) m = set_gpu_utilization R wm g x m"
| "worker_metric R wm (SetGPUMemoryUsage g x) m = set_gpu_memory R wm g x m"
| "worker_metric R wm (SetTaskProgress i n x) m = set_task_progress R wm i n x m"
| "worker_metric R wm (UpdateMetricsFromTaskStatus u) m = update_from_status R wm (Some u) m"
| "worker_metric R wm (SetTaskStartTime d i n x) m = pm_set R taskStartTime [d, i, n] x m"
| "worker_metric R wm (DeleteTaskStartTime d i n) m = Some (pm_delete R taskStartTime [d, i, n] m)"

fun run_calls :: "('c \<Rightarrow> 'm \<Rightarrow> 'm option) \<Rightarrow> 'c list \<Rightarrow> 'm \<Rightarrow> 'm option" where
  "run_calls f [] m = Some m"
| "run_calls f (c # cs) m = Option.bind (f c m) (run_calls f cs)"

end
