(* ===== verification/MetricsProps.thy ===== *)
theory MetricsProps
  imports Metrics WorkerInv Programs
begin

text \<open>
  What the metrics of \<^verbatim>\<open>pkg/metrics\<close> end up showing: a status message sets the gauges to the last reading of each GPU;
  and no worker ever produces such a reading.
\<close>

section \<open>A registry in memory\<close>

text \<open>The laws of the Prometheus client can hold.\<close>

definition memory_prom :: "series prom" where
  "memory_prom = \<lparr>
     pm_inc = (\<lambda>c m. m\<lparr>sr_count := (sr_count m)(clName c := Suc (sr_count m (clName c)))\<rparr>),
     pm_set = (\<lambda>c ls x m. if length ls = length (clLabels c)
       then Some (m\<lparr>sr_gauge := (sr_gauge m)((clName c, ls) \<mapsto> x)\<rparr>) else None),
     pm_observe = (\<lambda>c ls x m. if length ls = length (clLabels c)
       then Some (m\<lparr>sr_observed := (sr_observed m)((clName c, ls) := sr_observed m (clName c, ls) @ [x])\<rparr>) else None),
     pm_delete = (\<lambda>c ls m. m\<lparr>sr_gauge := (sr_gauge m)((clName c, ls) := None)\<rparr>)\<rparr>"

lemma memory_prom_laws: "prom_laws memory_prom (\<lambda>m. m) (\<lambda>_. True)"
  by (simp add: prom_laws_def memory_prom_def accepts_def list_all_iff)

section \<open>Looking up by prefix\<close>

lemma has_prefix_iff: "has_prefix p s \<longleftrightarrow> (\<exists>g. s = p @ g)"
  unfolding has_prefix_def by (metis append_eq_conv_conj append_take_drop_id)

lemma trim_prefix_append [simp]: "trim_prefix p (p @ g) = g"
  by (simp add: trim_prefix_def has_prefix_def)

lemma prom_set:
  assumes "prom_laws R view utf8" and "accepts utf8 c ls"
  obtains m' where "pm_set R c ls x m = Some m'"
    and "view m' = (view m)\<lparr>sr_gauge := (sr_gauge (view m))((clName c, ls) \<mapsto> x)\<rparr>"
proof -
  have "map_option view (pm_set R c ls x m)
      = Some ((view m)\<lparr>sr_gauge := (sr_gauge (view m))((clName c, ls) \<mapsto> x)\<rparr>)"
    using assms by (simp add: prom_laws_def)
  then show thesis using that by auto
qed

section \<open>A status message sets the gauges to the last readings\<close>

text \<open>The last metric with the name \<open>p @ g\<close>.\<close>

definition last_reading :: "string \<Rightarrow> string \<Rightarrow> pbMetric list \<Rightarrow> gofloat option" where
  "last_reading p g xs = map_of (rev (map (\<lambda>x. (pmName x, pmValue x)) xs)) (p @ g)"

lemma last_reading_simps [simp]:
  "last_reading p g [] = None"
  "last_reading p g (x # xs) = (case last_reading p g xs of
     None \<Rightarrow> if pmName x = p @ g then Some (pmValue x) else None | Some v \<Rightarrow> Some v)"
  by (simp_all add: last_reading_def map_add_def split: option.split)

text \<open>The gauges of the worker \<open>i\<close> after the metrics \<open>xs\<close>, from the gauges \<open>S\<close> before.\<close>

definition readings_over :: "string \<Rightarrow> pbMetric list \<Rightarrow> (string \<times> string list \<rightharpoonup> gofloat) \<Rightarrow>
    string \<times> string list \<rightharpoonup> gofloat" where
  "readings_over i xs S = (\<lambda>(n, ls). case ls of
      [w, g] \<Rightarrow>
        if w = i \<and> g \<noteq> '''' \<and> n = clName workerGPUUtilization
        then (case last_reading ''gpu_utilization_'' g xs of None \<Rightarrow> S (n, ls) | Some v \<Rightarrow> Some v)
        else if w = i \<and> g \<noteq> '''' \<and> n = clName workerGPUMemoryUsage
        then (case last_reading ''gpu_memory_usage_'' g xs of None \<Rightarrow> S (n, ls) | Some v \<Rightarrow> Some v)
        else S (n, ls)
    | _ \<Rightarrow> S (n, ls))"

lemma readings_over_Nil: "readings_over i [] S = S"
  by (auto simp: readings_over_def fun_eq_iff split: list.split)

definition readable :: "(string \<Rightarrow> bool) \<Rightarrow> pbMetric \<Rightarrow> bool" where
  "readable utf8 x \<longleftrightarrow>
     (\<forall>g. pmName x = ''gpu_utilization_'' @ g \<or> pmName x = ''gpu_memory_usage_'' @ g \<longrightarrow> utf8 g)"

text \<open>One metric of the message.\<close>

lemma update_metric_view:
  assumes R: "prom_laws R view utf8" and i: "utf8 (mxWorkerID wm)" and x: "readable utf8 x"
  obtains m' where "update_metric R wm x m = Some m'"
    and "view m' = (view m)\<lparr>sr_gauge := readings_over (mxWorkerID wm) [x] (sr_gauge (view m))\<rparr>"
proof -
  have skip: thesis if "update_metric R wm x m = Some m"
      "readings_over (mxWorkerID wm) [x] (sr_gauge (view m)) = sr_gauge (view m)"
    using that \<open>\<And>m'. \<lbrakk>update_metric R wm x m = Some m'; _\<rbrakk> \<Longrightarrow> thesis\<close> [of m] by simp
  consider (util) g where "pmName x = ''gpu_utilization_'' @ g" | (mem) g where "pmName x = ''gpu_memory_usage_'' @ g"
    | (other) "\<not> has_prefix ''gpu_utilization_'' (pmName x)" "\<not> has_prefix ''gpu_memory_usage_'' (pmName x)"
    by (auto simp: has_prefix_iff)
  then show thesis
  proof cases
    case (util g)
    show thesis
    proof (cases "g = ''''")
      case True
      then show thesis using util
        by (intro skip) (auto simp: update_metric_def has_prefix_def trim_prefix_def readings_over_def fun_eq_iff
            split: list.split)
    next
      case False
      have "accepts utf8 workerGPUUtilization [mxWorkerID wm, g]" using i x util
        by (simp add: accepts_def workerGPUUtilization_def readable_def)
      from prom_set [OF R this, of "pmValue x" m] obtain m' where
        m': "pm_set R workerGPUUtilization [mxWorkerID wm, g] (pmValue x) m = Some m'"
        "view m' = (view m)\<lparr>sr_gauge := (sr_gauge (view m))((clName workerGPUUtilization, [mxWorkerID wm, g]) \<mapsto> pmValue x)\<rparr>" .
      moreover have "(sr_gauge (view m))((clName workerGPUUtilization, [mxWorkerID wm, g]) \<mapsto> pmValue x)
          = readings_over (mxWorkerID wm) [x] (sr_gauge (view m))"
        using util False by (auto simp: readings_over_def fun_eq_iff workerGPUUtilization_def workerGPUMemoryUsage_def
            split: list.split)
      moreover have "update_metric R wm x m = Some m'" using m'(1) util False
        by (simp add: update_metric_def has_prefix_def trim_prefix_def set_gpu_utilization_def)
      ultimately show thesis using that by simp
    qed
  next
    case (mem g)
    show thesis
    proof (cases "g = ''''")
      case True
      then show thesis using mem
        by (intro skip) (auto simp: update_metric_def has_prefix_def trim_prefix_def readings_over_def fun_eq_iff
            split: list.split)
    next
      case False
      have "accepts utf8 workerGPUMemoryUsage [mxWorkerID wm, g]" using i x mem
        by (simp add: accepts_def workerGPUMemoryUsage_def readable_def)
      from prom_set [OF R this, of "pmValue x" m] obtain m' where
        m': "pm_set R workerGPUMemoryUsage [mxWorkerID wm, g] (pmValue x) m = Some m'"
        "view m' = (view m)\<lparr>sr_gauge := (sr_gauge (view m))((clName workerGPUMemoryUsage, [mxWorkerID wm, g]) \<mapsto> pmValue x)\<rparr>" .
      moreover have "(sr_gauge (view m))((clName workerGPUMemoryUsage, [mxWorkerID wm, g]) \<mapsto> pmValue x)
          = readings_over (mxWorkerID wm) [x] (sr_gauge (view m))"
        using mem False by (auto simp: readings_over_def fun_eq_iff workerGPUUtilization_def workerGPUMemoryUsage_def
            split: list.split)
      moreover have "update_metric R wm x m = Some m'" using m'(1) mem False
        by (simp add: update_metric_def has_prefix_def trim_prefix_def set_gpu_memory_def)
      ultimately show thesis using that by simp
    qed
  next
    case other
    then show thesis
      by (intro skip) (auto simp: update_metric_def readings_over_def has_prefix_iff fun_eq_iff split: list.split)
  qed
qed

lemma readings_over_Cons:
  "readings_over i xs (readings_over i [x] S) = readings_over i (x # xs) S"
  by (auto simp: readings_over_def fun_eq_iff split: list.split option.split)

lemma update_metrics_view:
  assumes R: "prom_laws R view utf8" and i: "utf8 (mxWorkerID wm)" and xs: "list_all (readable utf8) xs"
  shows "\<exists>m'. update_metrics R wm xs m = Some m'
     \<and> view m' = (view m)\<lparr>sr_gauge := readings_over (mxWorkerID wm) xs (sr_gauge (view m))\<rparr>"
  using xs
proof (induction xs arbitrary: m)
  case Nil
  then show ?case by (simp add: readings_over_Nil)
next
  case (Cons x xs)
  then have "readable utf8 x" "list_all (readable utf8) xs" by simp_all
  from update_metric_view [OF R i this(1), of m] obtain m1 where m1: "update_metric R wm x m = Some m1"
    "view m1 = (view m)\<lparr>sr_gauge := readings_over (mxWorkerID wm) [x] (sr_gauge (view m))\<rparr>" .
  from Cons.IH [OF \<open>list_all (readable utf8) xs\<close>, of m1] obtain m2 where
    "update_metrics R wm xs m1 = Some m2"
    "view m2 = (view m1)\<lparr>sr_gauge := readings_over (mxWorkerID wm) xs (sr_gauge (view m1))\<rparr>" by blast
  with m1 show ?case by (simp add: readings_over_Cons del: last_reading_simps)
qed

text \<open>C14: The loop of \<^verbatim>\<open>UpdateMetricsFromTaskStatus\<close> is equivalent to a look-up: after a status message the utilisation and
  memory gauges of a GPU hold the value of the last metric that is named after it, or what they held before when there is none;
  the progress of the task is recorded under an empty task name; and no other series changes. It does not panic when
  the labels are valid UTF-8.\<close>

theorem update_sets_last_readings:
  assumes "prom_laws R view utf8" and "utf8 (mxWorkerID wm)" and "utf8 ''''" and "utf8 (tuTaskId u)"
    and "list_all (readable utf8) (tuMetrics u)"
  shows "map_option view (update_from_status R wm (Some u) m) = Some ((view m)\<lparr>sr_gauge :=
     readings_over (mxWorkerID wm) (tuMetrics u) ((sr_gauge (view m))
       ((clName workerTaskProgress, [mxWorkerID wm, tuTaskId u, '''']) \<mapsto> tuProgress u))\<rparr>)"
proof -
  have "accepts utf8 workerTaskProgress [mxWorkerID wm, tuTaskId u, '''']"
    using assms(2-4) by (simp add: accepts_def workerTaskProgress_def)
  from prom_set [OF assms(1) this, of "tuProgress u" m] obtain m1 where
    m1: "pm_set R workerTaskProgress [mxWorkerID wm, tuTaskId u, ''''] (tuProgress u) m = Some m1"
    "view m1 = (view m)\<lparr>sr_gauge := (sr_gauge (view m))
       ((clName workerTaskProgress, [mxWorkerID wm, tuTaskId u, '''']) \<mapsto> tuProgress u)\<rparr>" .
  obtain m2 where "update_metrics R wm (tuMetrics u) m1 = Some m2"
    "view m2 = (view m1)\<lparr>sr_gauge := readings_over (mxWorkerID wm) (tuMetrics u) (sr_gauge (view m1))\<rparr>"
    using update_metrics_view [OF assms(1,2,5)] by blast
  with m1 show ?thesis by (simp add: update_from_status_def set_task_progress_def)
qed

theorem update_sets_last_readings_witness:
  "map_option (\<lambda>m. sr_gauge m (clName workerGPUUtilization, [''w1'', ''0'']))
     (update_from_status memory_prom (NewWorkerMetrics ''w1'') (Some \<lparr>tuTaskId = ''t1'', tuWorkerId = ''w1'',
        tuStatus = TaskStatus_RUNNING, tuProgress = Fin 0, tuMessage = '''',
        tuMetrics = [\<lparr>pmName = ''gpu_utilization_0'', pmValue = Fin 7, pmTimestamp = 0\<rparr>,
                     \<lparr>pmName = ''gpu_utilization_0'', pmValue = Fin 9, pmTimestamp = 0\<rparr>]\<rparr>) no_series)
   = Some (Some (Fin 9))"
proof -
  let ?ms = "[\<lparr>pmName = ''gpu_utilization_0'', pmValue = Fin 7, pmTimestamp = 0\<rparr>,
    \<lparr>pmName = ''gpu_utilization_0'', pmValue = Fin 9, pmTimestamp = 0\<rparr>] :: pbMetric list"
  let ?u = "\<lparr>tuTaskId = ''t1'', tuWorkerId = ''w1'', tuStatus = TaskStatus_RUNNING, tuProgress = Fin 0,
    tuMessage = '''', tuMetrics = ?ms\<rparr>"
  have "list_all (readable (\<lambda>_. True)) (tuMetrics ?u)" by (simp add: readable_def)
  from update_sets_last_readings [OF memory_prom_laws, where wm = "NewWorkerMetrics ''w1''" and u = ?u and m = no_series,
      OF _ _ _ this]
  have "update_from_status memory_prom (NewWorkerMetrics ''w1'') (Some ?u) no_series = Some (no_series\<lparr>sr_gauge :=
     readings_over ''w1'' ?ms ((sr_gauge no_series)((clName workerTaskProgress, [''w1'', ''t1'', '''']) \<mapsto> Fin 0))\<rparr>)"
    by (simp add: NewWorkerMetrics_def option.map_ident)
  then show ?thesis
    by (simp add: readings_over_def last_reading_def)
qed

section \<open>What calls write\<close>

text \<open>The series a call of the worker writes: name, label values and value.\<close>

definition metric_writes :: "WorkerMetrics \<Rightarrow> pbMetric \<Rightarrow> (string \<times> string list \<times> gofloat) list" where
  "metric_writes wm x =
     (if has_prefix ''gpu_utilization_'' (pmName x)
      then [(clName workerGPUUtilization, [mxWorkerID wm, trim_prefix ''gpu_utilization_'' (pmName x)], pmValue x)]
      else if has_prefix ''gpu_memory_usage_'' (pmName x)
      then [(clName workerGPUMemoryUsage, [mxWorkerID wm, trim_prefix ''gpu_memory_usage_'' (pmName x)], pmValue x)]
      else [])"

fun call_writes :: "WorkerMetrics \<Rightarrow> node_metric \<Rightarrow> (string \<times> string list \<times> gofloat) list" where
  "call_writes wm (SetWorkerStatus st) = [(clName workerStatus, [mxWorkerID wm], rnd64 (of_int (sint st)))]"
| "call_writes wm (SetGPUUtilization g x) = [(clName workerGPUUtilization, [mxWorkerID wm, g], x)]"
| "call_writes wm (SetGPUMemoryUsage g x) = [(clName workerGPUMemoryUsage, [mxWorkerID wm, g], x)]"
| "call_writes wm (SetTaskProgress i n x) = [(clName workerTaskProgress, [mxWorkerID wm, i, n], x)]"
| "call_writes wm (UpdateMetricsFromTaskStatus u) =
     (clName workerTaskProgress, [mxWorkerID wm, tuTaskId u, ''''], tuProgress u)
     # concat (map (metric_writes wm) (tuMetrics u))"
| "call_writes wm (SetTaskStartTime d i n x) = [(clName taskStartTime, [d, i, n], x)]"
| "call_writes wm (DeleteTaskStartTime d i n) = []"

definition writes_ok :: "(string \<Rightarrow> string list \<Rightarrow> gofloat \<Rightarrow> bool) \<Rightarrow> (string \<times> string list \<times> gofloat) list \<Rightarrow> bool" where
  "writes_ok Q ps \<longleftrightarrow> (\<forall>(n, ls, x) \<in> set ps. Q n ls x)"

lemma writes_ok_simps [simp]:
  "writes_ok Q []" "writes_ok Q ((n, ls, x) # ps) \<longleftrightarrow> Q n ls x \<and> writes_ok Q ps"
  "writes_ok Q (ps @ qs) \<longleftrightarrow> writes_ok Q ps \<and> writes_ok Q qs"
  by (simp_all add: writes_ok_def ball_Un)

definition series_ok :: "(string \<Rightarrow> string list \<Rightarrow> gofloat \<Rightarrow> bool) \<Rightarrow> series \<Rightarrow> bool" where
  "series_ok Q S \<longleftrightarrow> (\<forall>n ls x. sr_gauge S (n, ls) = Some x \<longrightarrow> Q n ls x)"

lemma set_series:
  assumes R: "prom_laws R view utf8" and S: "series_ok Q (view m)" and m': "pm_set R c ls x m = Some m'"
    and Q: "Q (clName c) ls x"
  shows "series_ok Q (view m')"
proof -
  have "map_option view (pm_set R c ls x m) = (if accepts utf8 c ls
      then Some ((view m)\<lparr>sr_gauge := (sr_gauge (view m))((clName c, ls) \<mapsto> x)\<rparr>) else None)"
    using R by (simp add: prom_laws_def)
  then have "view m' = (view m)\<lparr>sr_gauge := (sr_gauge (view m))((clName c, ls) \<mapsto> x)\<rparr>"
    using m' by (simp split: if_splits)
  then show ?thesis using S Q by (auto simp: series_ok_def)
qed

lemma update_metric_series:
  assumes R: "prom_laws R view utf8" and S: "series_ok Q (view m)" and "update_metric R wm x m = Some m'"
    and "writes_ok Q (metric_writes wm x)"
  shows "series_ok Q (view m')"
  using assms(3,4) S set_series [OF R S]
  by (auto simp: update_metric_def metric_writes_def Let_def set_gpu_utilization_def set_gpu_memory_def split: if_splits)

lemma update_metrics_series:
  assumes R: "prom_laws R view utf8" and "series_ok Q (view m)" and "update_metrics R wm xs m = Some m'"
    and "writes_ok Q (concat (map (metric_writes wm) xs))"
  shows "series_ok Q (view m')"
  using assms(2-4)
proof (induction xs arbitrary: m)
  case (Cons x xs)
  then obtain m1 where m1: "update_metric R wm x m = Some m1" "update_metrics R wm xs m1 = Some m'"
    by (auto simp: bind_eq_Some_conv)
  have "series_ok Q (view m1)" using update_metric_series [OF R Cons.prems(1) m1(1)] Cons.prems(3) by simp
  with m1(2) Cons.prems(3) show ?case by (intro Cons.IH) simp_all
qed simp

lemma call_series:
  assumes R: "prom_laws R view utf8" and S: "series_ok Q (view m)" and m': "worker_metric R wm c m = Some m'"
    and c: "writes_ok Q (call_writes wm c)"
  shows "series_ok Q (view m')"
proof (cases c)
  case (UpdateMetricsFromTaskStatus u)
  then obtain m1 where m1: "pm_set R workerTaskProgress [mxWorkerID wm, tuTaskId u, ''''] (tuProgress u) m = Some m1"
    "update_metrics R wm (tuMetrics u) m1 = Some m'"
    using m' by (auto simp: update_from_status_def set_task_progress_def bind_eq_Some_conv)
  have "series_ok Q (view m1)" using set_series [OF R S m1(1)] c UpdateMetricsFromTaskStatus by simp
  from update_metrics_series [OF R this m1(2)] show ?thesis using c UpdateMetricsFromTaskStatus by simp
next
  case (DeleteTaskStartTime d i n)
  then have "view m' = (view m)\<lparr>sr_gauge := (sr_gauge (view m))((clName taskStartTime, [d, i, n]) := None)\<rparr>"
    using m' R by (auto simp: prom_laws_def)
  then show ?thesis using S by (auto simp: series_ok_def split: if_splits)
qed (use c m' in \<open>auto simp: set_worker_status_def set_gpu_utilization_def set_gpu_memory_def set_task_progress_def
    intro: set_series [OF R S]\<close>)

lemma calls_series:
  assumes R: "prom_laws R view utf8" and "view m = no_series" and "run_calls (worker_metric R wm) cs m = Some m'"
    and "\<And>c. c \<in> set cs \<Longrightarrow> writes_ok Q (call_writes wm c)"
  shows "series_ok Q (view m')"
proof -
  have "series_ok Q (view m)" using assms(2) by (simp add: series_ok_def no_series_def)
  then show ?thesis using assms(3,4)
  proof (induction cs arbitrary: m)
    case (Cons c cs)
    then obtain m1 where m1: "worker_metric R wm c m = Some m1" "run_calls (worker_metric R wm) cs m1 = Some m'"
      by (auto simp: bind_eq_Some_conv)
    have "series_ok Q (view m1)" using call_series [OF R Cons.prems(1) m1(1)] Cons.prems(3) by simp
    with m1(2) Cons.prems(3) show ?case by (intro Cons.IH) simp_all
  qed simp
qed

section \<open>A worker from its start\<close>

lemma keeps_node_run: "(\<And>ev. keeps P (node_step E ev)) \<Longrightarrow> keeps P (node_run E evs)"
proof (induction evs)
  case Nil
  show ?case by (simp add: keeps_def)
next
  case (Cons ev evs)
  have "keeps P (\<lambda>w. bind_res (node_step E ev w) (\<lambda>_. node_run E evs))"
    by (rule keeps_bind) (use Cons in blast)+
  then show ?case by (simp add: keeps_def)
qed

text \<open>The worker its program starts, and the id its metrics object is created with.\<close>

lemma SetMetrics_calls:
  assumes "node_SetMetrics E v = Done () v'"
  shows "nwMetricCalls v' = nwMetricCalls v" "nwHeap v' = nwHeap v"
  using assms by (auto simp: node_SetMetrics_def node_lock_def node_locked_def act_def split: option.splits)

lemma started_fields:
  assumes "start_worker E L dial client f = Runs (i, w)"
  shows "nwMetricCalls w = []" "nwHeap w = (\<lambda>_. blank_task)" "i = ''''"
    "\<exists>req r. client req = Inr r \<and> nwID w = rrAssignedId r"
proof -
  obtain gpus v v' where v: "NewWorker dial (logger_error L node_log_config) (wfScheduler f) gpus = Inr v"
    and v': "node_SetMetrics E v = Done () v'" "Register client (v'\<lparr>nwAddress := wfAddr f\<rparr>) = (None, w)" and i: "i = nwID v"
    using assms by (auto simp: start_worker_def split: option.splits program.splits sum.splits res.splits prod.splits)
  have "nwMetricCalls v = []" "nwHeap v = (\<lambda>_. blank_task)" "nwID v = ''''"
    using v by (auto simp: NewWorker_def split: option.splits)
  moreover obtain r where "client (register_request (v'\<lparr>nwAddress := wfAddr f\<rparr>)) = Inr r"
    "w = v'\<lparr>nwAddress := wfAddr f, nwID := rrAssignedId r\<rparr>"
    using v'(2) by (auto simp: Register_def split: sum.splits if_splits)
  ultimately show "nwMetricCalls w = []" "nwHeap w = (\<lambda>_. blank_task)" "i = ''''"
    "\<exists>req r. client req = Inr r \<and> nwID w = rrAssignedId r"
    using SetMetrics_calls [OF v'(1)] i by auto
qed

section \<open>The GPU gauges\<close>

text \<open>Every metric of a task is its loss, so every GPU gauge is set to 0.\<close>

definition loss_only :: "pbMetric list \<Rightarrow> bool" where
  "loss_only xs \<longleftrightarrow> (\<forall>x \<in> set xs. pmName x = ''loss'')"

definition blind_call :: "node_metric \<Rightarrow> bool" where
  "blind_call c = (case c of SetGPUUtilization g x \<Rightarrow> x = Fin 0 | SetGPUMemoryUsage g x \<Rightarrow> x = Fin 0
     | UpdateMetricsFromTaskStatus u \<Rightarrow> loss_only (tuMetrics u) | _ \<Rightarrow> True)"

definition blind :: "NodeWorker \<Rightarrow> bool" where
  "blind w \<longleftrightarrow> (\<forall>a. loss_only (ntMetrics (nwHeap w a))) \<and> list_all blind_call (nwMetricCalls w)"

lemma blind_metric: "blind w \<Longrightarrow> blind_call c \<Longrightarrow> blind (metric c w)"
  by (simp add: blind_def metric_def)

lemma gpu_reading_blind:
  assumes "\<And>t. t \<in> set ts \<Longrightarrow> loss_only (ntMetrics t)" and "name \<noteq> ''loss''"
  shows "gpu_reading name g ts = Fin 0"
proof -
  have none: "foldl (\<lambda>v m. if pmName m = name then pmValue m else v) v xs = v" if "loss_only xs" for v xs
    using that assms(2) by (induction xs) (auto simp: loss_only_def)
  have ids: "foldl (\<lambda>v i. if i = g then foldl (\<lambda>v m. if pmName m = name then pmValue m else v) v xs else v) v is = v"
    if "loss_only xs" for v xs "is" using that by (induction "is") (auto simp: none)
  have "foldl (\<lambda>v t. foldl (\<lambda>v i. if i = g then foldl (\<lambda>v m. if pmName m = name then pmValue m else v) v (ntMetrics t)
      else v) v (ntGPUIDs t)) v ts = v" for v
    using assms(1) by (induction ts) (simp_all add: ids)
  then show ?thesis by (simp add: gpu_reading_def)
qed

lemma blind_gauge: "blind w \<Longrightarrow> blind (gauge_gpu E k w)"
proof -
  assume w: "blind w"
  then have "loss_only (ntMetrics t)" if "t \<in> set (map (\<lambda>(_, a). nwHeap w a) ps)" for t ps
    using that by (auto simp: blind_def)
  then have zero: "gpu_reading name g (map (\<lambda>(_, a). nwHeap w a) ps) = Fin 0" if "name \<noteq> ''loss''" for name g ps
    using gpu_reading_blind that by blast
  show ?thesis unfolding gauge_gpu_def Let_def
    by (intro blind_metric w) (simp_all add: blind_call_def zero)
qed

interpretation blind: node_invariant blind E for E
proof unfold_locales
  fix w :: NodeWorker and u :: TaskStatusUpdate and a :: nat
  show "blind (metric (UpdateMetricsFromTaskStatus u) w)" if "blind w" "tuMetrics u = ntMetrics (nwHeap w a)"
    using that by (intro blind_metric) (simp_all add: blind_call_def blind_def)
  show "blind (w\<lparr>nwReports := nwReports w @ [u]\<rparr>)" if "blind w" using that by (simp add: blind_def)
  show "blind (gauge_gpu E k w)" if "blind w" for E w k using that by (rule blind_gauge)
qed (auto simp: blind_def loss_only_def node_tick_def remove_task_def sync_gpus_def begin_task_def set_task_def
    Let_def metric_def blind_call_def loss_metric_def split: prod.split)

text \<open>C15: The GPU gauges show nothing. Whatever a worker started by its program goes through - tasks, commands, messages, in
  any order of its goroutines - every utilisation and memory gauge it exports is 0, also for a GPU that a task
  occupies, because the only metric a task ever records is its loss; and every one of them is labelled with an empty worker
  id, because the metrics object is created before the worker has registered.\<close>

theorem gpu_gauges_show_nothing:
  assumes "prom_laws R view utf8" and "view m = no_series"
    and "start_worker E L dial client f = Runs (i, w)"
    and "run_calls (worker_metric R (NewWorkerMetrics i)) (nwMetricCalls (final_state (node_run E evs w))) m = Some m'"
    and "c = workerGPUUtilization \<or> c = workerGPUMemoryUsage"
    and "sr_gauge (view m') (clName c, [worker_id, gpu_id]) = Some x"
  shows "x = Fin 0 \<and> worker_id = ''''"
proof -
  let ?Q = "\<lambda>n ls x. n \<in> {clName workerGPUUtilization, clName workerGPUMemoryUsage} \<longrightarrow> x = Fin 0 \<and> hd ls = ''''"
  note w = started_fields [OF assms(3)]
  have "blind w" by (simp add: blind_def w(1,2) loss_only_def blank_task_def)
  then have blind: "blind (final_state (node_run E evs w))" using keepsD [OF keeps_node_run [OF blind.keeps_step]] by blast
  have "metric_writes wm x = []" if "pmName x = ''loss''" for wm x
    using that by (simp add: metric_writes_def has_prefix_def)
  then have none: "concat (map (metric_writes wm) xs) = []" if "loss_only xs" for wm xs
    using that by (simp add: loss_only_def)
  have "writes_ok ?Q (call_writes (NewWorkerMetrics i) c)" if "blind_call c" for c
    using that by (cases c) (simp_all add: blind_call_def collector_defs NewWorkerMetrics_def w(3) none)
  then have "series_ok ?Q (view m')"
    using calls_series [OF assms(1,2,4), where Q = ?Q] blind by (simp add: blind_def list_all_iff)
  then show ?thesis using assms(5,6) by (fastforce simp: series_ok_def)
qed

section \<open>The start times\<close>

definition named_call :: "string \<Rightarrow> node_metric \<Rightarrow> bool" where
  "named_call k c = (case c of SetTaskStartTime d i n x \<Rightarrow> d = k | DeleteTaskStartTime d i n \<Rightarrow> d = k | _ \<Rightarrow> True)"

definition named :: "string \<Rightarrow> NodeWorker \<Rightarrow> bool" where
  "named k w \<longleftrightarrow> nwID w = k \<and> list_all (named_call k) (nwMetricCalls w)"

interpretation named: node_invariant "named k" E for k E
  by unfold_locales
    (auto simp: named_def node_tick_def remove_task_def sync_gpus_def begin_task_def set_task_def Let_def metric_def
      gauge_gpu_def named_call_def split: prod.split)

section \<open>A worker with a task\<close>

definition mute_log :: "unit log_env" where
  "mute_log = \<lparr>leParseLevel = (\<lambda>_. Some ()), leInfoLevel = (), leMkdirAll = (\<lambda>_. None), leOpenFile = (\<lambda>_. None)\<rparr>"

definition one_gpu_flags :: worker_flags where
  "one_gpu_flags = \<lparr>wfScheduler = ''s'', wfGpus = ''g'', wfModels = ''m'', wfMemories = ''8'', wfAddr = ''host'',
     wfLogLevel = ''info'', wfLogDir = ''''\<rparr>"

definition still_env :: node_env where
  "still_env = \<lparr>node_mutex = go_rwmutex, node_clock = (\<lambda>_. 0), node_orders = (\<lambda>_ _. [])\<rparr>"

definition one_poll :: node_event where
  "one_poll = Poll (\<lambda>_. Inr \<lparr>ptId = ''t1'', ptName = ''train'', ptRequiredGpus = 1, ptMinGpuMemory = 0,
     ptConfiguration = [], ptStatus = TaskStatus_PENDING\<rparr>)"

definition started_worker :: "(string \<times> NodeWorker) program" where
  "started_worker = start_worker still_env mute_log None
     (\<lambda>_. Inr \<lparr>rrSuccess = True, rrMessage = '''', rrAssignedId = ''worker-1''\<rparr>) one_gpu_flags"

definition with_task :: "NodeWorker \<Rightarrow> NodeWorker" where
  "with_task w = final_state (node_run still_env [one_poll] w)"

lemma with_task_gauge:
  "case started_worker of
     Runs (i, w) \<Rightarrow> nwID w = ''worker-1'' \<and> map pgAvailable (nwGPUs (with_task w)) = [False] \<and>
       (case run_calls (worker_metric memory_prom (NewWorkerMetrics i)) (nwMetricCalls (with_task w)) no_series of
          Some S \<Rightarrow> sr_gauge S (clName workerGPUUtilization, ['''', ''g'']) \<noteq> None
        | None \<Rightarrow> False)
   | _ \<Rightarrow> False"
  by code_simp

theorem gpu_gauges_show_nothing_witness:
  "\<exists>i w S. started_worker = Runs (i, w) \<and> map pgAvailable (nwGPUs (with_task w)) = [False]
     \<and> run_calls (worker_metric memory_prom (NewWorkerMetrics i)) (nwMetricCalls (with_task w)) no_series = Some S
     \<and> sr_gauge S (clName workerGPUUtilization, ['''', ''g'']) = Some (Fin 0)"
proof -
  obtain i w S x where w: "started_worker = Runs (i, w)" "map pgAvailable (nwGPUs (with_task w)) = [False]"
    and S: "run_calls (worker_metric memory_prom (NewWorkerMetrics i)) (nwMetricCalls (with_task w)) no_series = Some S"
    and x: "sr_gauge S (clName workerGPUUtilization, ['''', ''g'']) = Some x"
    using with_task_gauge by (auto split: program.splits prod.splits option.splits)
  have "x = Fin 0"
    using gpu_gauges_show_nothing [OF memory_prom_laws _ w(1) [unfolded started_worker_def] S [unfolded with_task_def] _ x]
    by simp
  with x have "sr_gauge S (clName workerGPUUtilization, ['''', ''g'']) = Some (Fin 0)" by simp
  with w S show ?thesis by (intro exI conjI)
qed

section \<open>The alert for stuck tasks\<close>

text \<open>
  The alert \<open>TaskStuck\<close> of \<^verbatim>\<open>monitoring/prometheus/alert_rules.yml\<close> combines the start time and the progress of a task with
  \<^verbatim>\<open>and\<close>, which needs both series with the same labels.
\<close>

text \<open>C16: The alert for stuck tasks never fires. For a worker started by its program with an id that is not empty, there are no
  labels, at any time, under which both the start time and the progress of a task are exported: the start time carries the
  worker's id and the progress an empty one.\<close>

theorem stuck_tasks_raise_no_alert:
  assumes "prom_laws R view utf8" and "view m = no_series"
    and "start_worker E L dial client f = Runs (i, w)" and "nwID w \<noteq> ''''"
    and "run_calls (worker_metric R (NewWorkerMetrics i)) (nwMetricCalls (final_state (node_run E evs w))) m = Some m'"
  shows "sr_gauge (view m') (clName taskStartTime, ls) = None \<or> sr_gauge (view m') (clName workerTaskProgress, ls) = None"
proof -
  let ?Q = "\<lambda>n ls x. (n = clName taskStartTime \<longrightarrow> hd ls = nwID w) \<and> (n = clName workerTaskProgress \<longrightarrow> hd ls = '''')"
  note w = started_fields [OF assms(3)]
  have "named (nwID w) w" by (simp add: named_def w(1))
  then have named: "named (nwID w) (final_state (node_run E evs w))"
    using keepsD [OF keeps_node_run [OF named.keeps_step]] by blast
  have gpus: "writes_ok ?Q (concat (map (metric_writes wm) xs))" for wm xs
    by (induction xs) (simp_all add: metric_writes_def collector_defs)
  have "writes_ok ?Q (call_writes (NewWorkerMetrics i) c)" if "named_call (nwID w) c" for c
    using that gpus by (cases c) (simp_all add: named_call_def collector_defs NewWorkerMetrics_def w(3))
  then have "series_ok ?Q (view m')"
    using calls_series [OF assms(1,2,5), where Q = ?Q] named by (simp add: named_def list_all_iff)
  then have "sr_gauge (view m') (clName taskStartTime, ls) = Some x \<Longrightarrow> hd ls = nwID w"
    and "sr_gauge (view m') (clName workerTaskProgress, ls) = Some y \<Longrightarrow> hd ls = ''''" for x y
    unfolding series_ok_def by blast+
  then show ?thesis using assms(4) by (metis not_None_eq)
qed

lemma with_task_series:
  "case started_worker of
     Runs (i, w) \<Rightarrow> nwID w \<noteq> '''' \<and>
       (case run_calls (worker_metric memory_prom (NewWorkerMetrics i)) (nwMetricCalls (with_task w)) no_series of
          Some S \<Rightarrow> sr_gauge S (clName taskStartTime, [''worker-1'', ''t1'', ''train'']) \<noteq> None
        | None \<Rightarrow> False)
   | _ \<Rightarrow> False"
  by code_simp

theorem stuck_tasks_raise_no_alert_witness:
  "\<exists>i w S. started_worker = Runs (i, w)
     \<and> run_calls (worker_metric memory_prom (NewWorkerMetrics i)) (nwMetricCalls (with_task w)) no_series = Some S
     \<and> sr_gauge S (clName taskStartTime, [''worker-1'', ''t1'', ''train'']) \<noteq> None
     \<and> sr_gauge S (clName workerTaskProgress, [''worker-1'', ''t1'', ''train'']) = None"
proof -
  obtain i w S where w: "started_worker = Runs (i, w)" "nwID w \<noteq> ''''"
    and S: "run_calls (worker_metric memory_prom (NewWorkerMetrics i)) (nwMetricCalls (with_task w)) no_series = Some S"
    and x: "sr_gauge S (clName taskStartTime, [''worker-1'', ''t1'', ''train'']) \<noteq> None"
    using with_task_series by (auto split: program.splits prod.splits option.splits)
  have "sr_gauge S (clName workerTaskProgress, [''worker-1'', ''t1'', ''train'']) = None"
    using stuck_tasks_raise_no_alert [OF memory_prom_laws _ w(1) [unfolded started_worker_def] w(2) S [unfolded with_task_def],
        of "[''worker-1'', ''t1'', ''train'']"] x by blast
  with w(1) S x show ?thesis by (intro exI conjI)
qed

end
