(* ===== verification/MetricsServing.thy ===== *)
theory MetricsServing
  imports Programs
begin

text \<open>
  \<^verbatim>\<open>MetricsServer\<close> of \<^verbatim>\<open>pkg/metrics/metrics.go\<close>, a wrapper of \<^verbatim>\<open>http.Server\<close>, and the goroutines of \<^verbatim>\<open>cmd/server\<close> and
  \<^verbatim>\<open>cmd/worker\<close> that run it. The exposition of the collectors at \<^verbatim>\<open>/metrics\<close> is the Prometheus client's.
\<close>

section \<open>The server\<close>

text \<open>The fields of \<^verbatim>\<open>http.Server\<close> that matter: its address, whether it accepts connections, whether it has been closed.\<close>

record MetricsServer =
  msAddr :: string
  msServing :: bool
  msClosed :: bool

definition NewMetricsServer :: "string \<Rightarrow> MetricsServer" where
  "NewMetricsServer addr = \<lparr>msAddr = addr, msServing = False, msClosed = False\<rparr>"

definition ErrServerClosed :: string where
  "ErrServerClosed = ''http: Server closed''"

text \<open>
  \<^verbatim>\<open>ListenAndServe\<close>: it returns at once with an error when the server is closed or the address cannot be listened on
  (\<open>listen\<close> is that error, if any); otherwise it serves, and returns no earlier than \<^verbatim>\<open>Close\<close>.
\<close>

definition metrics_Start :: "(string \<Rightarrow> string option) \<Rightarrow> MetricsServer \<Rightarrow> string option \<times> MetricsServer" where
  "metrics_Start listen ms =
     (if msClosed ms then (Some ErrServerClosed, ms)
      else (case listen (msAddr ms) of
          Some err \<Rightarrow> (Some err, ms)
        | None \<Rightarrow> (None, ms\<lparr>msServing := True\<rparr>)))"

text \<open>\<^verbatim>\<open>Close\<close>: with the new state, what a waiting \<^verbatim>\<open>ListenAndServe\<close> returns, if there is one.\<close>

definition metrics_Stop :: "MetricsServer \<Rightarrow> string option \<times> MetricsServer" where
  "metrics_Stop ms = (if msServing ms then Some ErrServerClosed else None, ms\<lparr>msServing := False, msClosed := True\<rparr>)"

text \<open>
  The goroutine of both programs: the line it logs, if \<^verbatim>\<open>Start\<close> returns. No program stops its metrics server.
\<close>

definition metrics_goroutine :: "(string \<Rightarrow> string option) \<Rightarrow> int \<Rightarrow> (string \<times> (string \<times> string) list) option \<times> MetricsServer" where
  "metrics_goroutine listen port =
     (case metrics_Start listen (NewMetricsServer (CHR '':'' # show_int port)) of
        (None, ms) \<Rightarrow> (None, ms)
      | (Some err, ms) \<Rightarrow> (Some (''Failed to start metrics server'', [(''error'', err)]), ms))"

section \<open>What it does\<close>

lemma metrics_Start_closed: "metrics_Start listen (snd (metrics_Stop ms)) = (Some ErrServerClosed, snd (metrics_Stop ms))"
  by (simp add: metrics_Start_def metrics_Stop_def)

text \<open>\<^verbatim>\<open>Start\<close> has no successful return: it serves, or there is an error.\<close>

lemma metrics_Start_cases:
  obtains (serving) "metrics_Start listen ms = (None, ms\<lparr>msServing := True\<rparr>)" "\<not> msClosed ms" "listen (msAddr ms) = None"
  | (error) err where "metrics_Start listen ms = (Some err, ms)"
  by (cases "msClosed ms"; cases "listen (msAddr ms)") (simp_all add: metrics_Start_def)

text \<open>
  Two programs on one machine with the same port for metrics: the second, which cannot listen where the first one serves, runs without
  metrics and says so in its log only.
\<close>

lemma second_program_has_no_metrics:
  assumes "listen' (msAddr (snd (metrics_goroutine listen port))) = Some err"
  shows "metrics_goroutine listen' port
    = (Some (''Failed to start metrics server'', [(''error'', err)]), NewMetricsServer (CHR '':'' # show_int port))"
proof -
  have "msAddr (snd (metrics_goroutine listen port)) = CHR '':'' # show_int port"
    by (auto simp: metrics_goroutine_def metrics_Start_def NewMetricsServer_def split: option.split)
  then show ?thesis using assms by (simp add: metrics_goroutine_def metrics_Start_def NewMetricsServer_def)
qed

end
