(* ===== verification/ServerProps.thy ===== *)
theory ServerProps
  imports Programs
begin

text \<open>
  Properties of the programs: a server that is shut down and started again has lost what it did, and a worker has
  the GPUs its flags name.
\<close>

section \<open>Shutting the server down and starting it again\<close>

context rw_lock
begin

lemma enable_loads:
  assumes E: "mutex E = ops" and G: "gorm_laws G view up" "NewDatabaseManager G (cfDatabase config) = Inr db" "up db"
    and wf: "sched_wf s" "saveable (snapshot cs s)" and view: "view db = saved_tables stamp (ssWorkers (snapshot cs s))
         (ssTasks (snapshot cs s)) (ssPendingTasks (snapshot cs s))"
    and r: "mu r = unlocked" and config: "cfType config = DatabasePersistence"
  shows "\<exists>t. EnablePersistence G E config db0 r = Done (None, db) t \<and> reloaded s t \<and> sched_wf t \<and> mu t = unlocked"
proof -
  define m where "m = Start \<lparr>mgConfig = config, mgHasDB = True, mgStopped = False, mgSaveTrigger = 0,
    mgAutoSave = False\<rparr>"
  have m: "mgHasDB m" "cfType (mgConfig m) = DatabasePersistence"
    by (simp_all add: m_def Start_def config)
  let ?r = "r\<lparr>persistenceManager := Some m\<rparr>"
  have r': "mu ?r = unlocked" "persistenceManager ?r = Some m" using r by simp_all
  have "?r\<lparr>mu := write_locked\<rparr>\<lparr>mu := unlocked\<rparr> = ?r" using r by (cases r) simp
  then have first: "with_lock E (\<lambda>s. case NewManager G config of
            Inl err \<Rightarrow> Done (Inl (''failed to create persistence manager: '' @ err)) s
          | Inr (manager, opened) \<Rightarrow>
              Done (Inr opened) (s\<lparr>persistenceManager := Some (Start manager)\<rparr>)) r = Done (Inr (Some db)) ?r"
    using r by (simp add: with_lock_free [OF E] NewManager_def config G(2) m_def unlock_held mu_commute)
  obtain t where t: "LoadState G E db ?r = Done None t" "reloaded s t" "sched_wf t" "mu t = unlocked"
    using load_tables [OF E G(1,3) wf view r' m] by blast
  have "with_lock E (Done (None, db)) t = Done (None, db) t"
    by (rule with_lock_Done [OF E t(4)]) simp
  then have "EnablePersistence G E config db0 r = Done (None, db) t"
    by (simp add: EnablePersistence_def first t(1))
  with t show ?thesis by blast
qed

lemma SetMetrics_free:
  assumes "mutex E = ops" and "mu s = unlocked"
  shows "SetMetrics E s = Done () (s\<lparr>hasMetrics := True\<rparr>)"
proof -
  have "(s\<lparr>mu := write_locked, hasMetrics := True\<rparr>)\<lparr>mu := unlocked\<rparr> = s\<lparr>hasMetrics := True\<rparr>"
    using assms(2) by (cases s) simp
  then show ?thesis by (simp add: SetMetrics_def with_lock_free [OF assms] act_def unlock_held)
qed

lemma boot_free:
  assumes "mutex E = ops" and "select_policy (sfPolicy f) = Some p" and "logger_error L (server_log_config f) = None"
  shows "\<exists>s. server_boot None L E f = Runs (p, Done () s) \<and> serving p s"
proof -
  let ?s = "record_call (SetActiveWorkers 0) (record_call (SetPendingTasks 0) (record_call (SetActiveTasks 0)
      (NewScheduler\<lparr>hasMetrics := True\<rparr>)))"
  have "mu NewScheduler = unlocked" by (simp add: NewScheduler_def)
  from SetMetrics_free [OF assms(1) this]
  have "server_boot None L E f = Runs (p, Done () ?s)"
    by (simp add: server_boot_def assms(2,3) act_def)
  moreover have "serving p ?s" by (simp add: serving_def starved_def sched_wf_def NewScheduler_def sched_frame)
  ultimately show ?thesis by blast
qed

lemma lives:
  assumes E: "mutex E = ops" and G: "gorm_laws G view up" "NewDatabaseManager G (cfDatabase (persistence_config f)) = Inr db" "up db"
    and s: "sched_wf s" "saveable (snapshot ch s)" and view: "view db = saved_tables stamp (ssWorkers (snapshot ch s))
         (ssTasks (snapshot ch s)) (ssPendingTasks (snapshot ch s))"
    and f: "sfPersistence f" "sfPersistenceType f = ''database''" "select_policy (sfPolicy f) = Some p"
      "logger_error L (server_log_config f) = None"
    and crash: "\<not> auto_save_crashes G f" and early: "\<And>s. serving p s \<Longrightarrow> mu (serve_all E p early s) = unlocked"
  shows "\<exists>r. server_main None L G E V f early cs db0 = Runs (Panicked (serve_all E p cs r, db)) \<and> reloaded s r \<and> sched_wf r"
proof -
  obtain s0 where boot: "server_boot None L E f = Runs (p, Done () s0)" "serving p s0"
    using boot_free [OF E f(3,4)] by blast
  let ?s = "serve_all E p early s0"
  have config: "cfType (persistence_config f) = DatabasePersistence" by (simp add: persistence_config_def f(2))
  obtain r where r: "EnablePersistence G E (persistence_config f) db0 ?s = Done (None, db) r" "reloaded s r" "sched_wf r"
    using enable_loads [OF E G s view early [OF boot(2)] config] by blast
  then have "server_load G E f db0 ?s = Done (None, db) r" by (simp add: server_load_def f(1,2))
  then show ?thesis using boot(1) r(2,3) crash
    by (intro exI [of _ r]) (simp add: server_main_def server_shutdown_def)
qed

lemma serve_all_Nil: "serving p s \<Longrightarrow> mu (serve_all E p [] s) = unlocked"
  by (simp add: serve_all_def serving_def)

end

context nested_read_lock
begin

lemma serve_all_serving:
  assumes "mutex E = ops" and "serving p s" and "list_all request_ok cs"
  shows "serving p (serve_all E p cs s)"
  using assms(2,3)
proof (induction cs arbitrary: s)
  case (Cons c cs)
  then obtain r t where "serve E p c s = Done r t" "serving p t"
    using serve_serving [OF assms(1), of p s c] by auto
  with Cons show ?case by (simp add: serve_all_def)
qed (simp add: serve_all_def)

end






section \<open>The flags of a worker\<close>

fun join_char :: "char \<Rightarrow> string list \<Rightarrow> string" where
  "join_char c [] = []"
| "join_char c [x] = x"
| "join_char c (x # y # ys) = x @ c # join_char c (y # ys)"

lemma split_char_single: "c \<notin> set x \<Longrightarrow> split_char c x = [x]"
  by (induction x) auto

lemma split_char_append: "c \<notin> set x \<Longrightarrow> split_char c (x @ c # y) = x # split_char c y"
  by (induction x) auto

lemma split_join_char:
  "xs \<noteq> [] \<Longrightarrow> \<forall>x \<in> set xs. c \<notin> set x \<Longrightarrow> split_char c (join_char c xs) = xs"
  by (induction c xs rule: join_char.induct) (simp_all add: split_char_single split_char_append)

lemma parse_uint_show [simp]: "parse_uint (show_nat (unat m)) = Some m"
proof -
  have "uint m < 2 ^ LENGTH(64)" by (rule unsigned_less)
  then have "int (unat m) < 2 ^ 64" by simp
  then show ?thesis
    using show_nat_digits [of "unat m"] show_nat_nonempty [of "unat m"]
    by (simp add: parse_uint_def digits_value_show_nat not_le)
qed

lemma digit_no_comma: "list_all is_digit s \<Longrightarrow> CHR '','' \<notin> set s"
  by (induction s) (auto simp: is_digit_def)

definition plain_gpu :: "pbGPU \<Rightarrow> bool" where
  "plain_gpu g \<longleftrightarrow> pgAvailable g \<and> pgCudaCores g = 0 \<and> pgMemoryBandwidth g = 0
     \<and> CHR '','' \<notin> set (pgId g) \<and> CHR '','' \<notin> set (pgModel g)"

lemma build_gpus_plain:
  "list_all plain_gpu gpus \<Longrightarrow> build_gpus (map pgId gpus) (map pgModel gpus)
     (map (\<lambda>g. show_nat (unat (pgMemoryMb g))) gpus) = Some gpus"
proof (induction gpus)
  case (Cons g gpus)
  then show ?case by (cases g) (simp add: plain_gpu_def)
qed simp

definition flags_of_gpus :: "string \<Rightarrow> string \<Rightarrow> pbGPU list \<Rightarrow> worker_flags" where
  "flags_of_gpus scheduler addr gpus = \<lparr>wfScheduler = scheduler, wfGpus = join_char (CHR '','') (map pgId gpus),
     wfModels = join_char (CHR '','') (map pgModel gpus),
     wfMemories = join_char (CHR '','') (map (\<lambda>g. show_nat (unat (pgMemoryMb g))) gpus), wfAddr = addr,
     wfLogLevel = ''info'', wfLogDir = ''/var/log/worker''\<rparr>"

text \<open>The three flags of a worker describe its GPUs: listing ids, models and memory sizes (any 64-bit number) between commas and
  reading the flags gives the same GPUs, all available, if no id or model contains a comma and the first id is not
  empty. Their CUDA cores and bandwidth are always 0, so the strategy \<open>performance\<close> has nothing to sort by.\<close>

theorem gpu_flags_roundtrip:
  assumes "gpus \<noteq> []" and "list_all plain_gpu gpus" and "pgId (hd gpus) \<noteq> ''''"
  shows "worker_gpus (flags_of_gpus scheduler addr gpus) = Runs gpus"
proof -
  have "\<forall>x \<in> set (map pgId gpus). CHR '','' \<notin> set x" "\<forall>x \<in> set (map pgModel gpus). CHR '','' \<notin> set x"
    using assms(2) by (auto simp: list_all_iff plain_gpu_def)
  moreover have "\<forall>x \<in> set (map (\<lambda>g. show_nat (unat (pgMemoryMb g))) gpus). CHR '','' \<notin> set x"
    using digit_no_comma [OF show_nat_digits] by auto
  ultimately have "split_char (CHR '','') (join_char (CHR '','') (map pgId gpus)) = map pgId gpus"
    "split_char (CHR '','') (join_char (CHR '','') (map pgModel gpus)) = map pgModel gpus"
    "split_char (CHR '','') (join_char (CHR '','') (map (\<lambda>g. show_nat (unat (pgMemoryMb g))) gpus))
       = map (\<lambda>g. show_nat (unat (pgMemoryMb g))) gpus"
    using assms(1) by (simp_all only: split_join_char map_is_Nil_conv not_False_eq_True)
  then show ?thesis using assms build_gpus_plain
    by (simp add: worker_gpus_def flags_of_gpus_def hd_map)
qed

theorem gpu_flags_roundtrip_witness:
  "worker_gpus (flags_of_gpus ''s'' ''host'' [node_gpu ''0'' 8192 True, node_gpu ''1'' 24576 True])
     = Runs [node_gpu ''0'' 8192 True, node_gpu ''1'' 24576 True]"
  by (rule gpu_flags_roundtrip) (simp_all add: node_gpu_def plain_gpu_def)

end
