(* ===== verification/SystemProps.thy ===== *)
theory SystemProps
  imports System
begin

text \<open>
  Properties of the whole system: workers are never given a task and end with their first status message, tasks
  the server has marked as running never end, and the program that submits tasks never submits one.
\<close>

section \<open>What a task keeps\<close>

text \<open>Task \<open>a\<close> is marked as running, and the GPUs \<open>g\<close> of worker \<open>w\<close> are marked as taken.\<close>

definition holding :: "task_addr \<Rightarrow> string \<Rightarrow> string \<Rightarrow> sched \<Rightarrow> bool" where
  "holding a w g s \<longleftrightarrow> map_ok (workers s) \<and> a < heapNext s \<and> tStatus (heap s a) = TaskStatus_RUNNING
     \<and> (case map_of (workers s) w of None \<Rightarrow> False
        | Some wk \<Rightarrow> list_all (\<lambda>x. gID x = g \<longrightarrow> \<not> gAvailable x) (wGPUs wk))"

lemma holding_iff:
  "holding a w g s \<longleftrightarrow> map_ok (workers s) \<and> a < heapNext s \<and> tStatus (heap s a) = TaskStatus_RUNNING
     \<and> (\<exists>wk. map_of (workers s) w = Some wk \<and> (\<forall>x \<in> set (wGPUs wk). gID x = g \<longrightarrow> \<not> gAvailable x))"
  by (simp add: holding_def list_all_iff split: option.split)

lemma insensitive_holding: "insensitive (holding a w g)"
  by (simp add: insensitive_def holding_iff sched_frame)

lemma holding_place:
  assumes "holding a w g s" shows "holding a w g (place_on i b v gs (tick (start_task E b v gs s)))"
proof -
  let ?t = "place_on i b v gs (tick (start_task E b v gs s))"
  obtain wk where wk: "map_of (workers s) w = Some wk" "\<forall>x \<in> set (wGPUs wk). gID x = g \<longrightarrow> \<not> gAvailable x"
    using assms unfolding holding_iff by blast
  have gpus: "\<forall>x \<in> set (set_available False gs (wGPUs wk)). gID x = g \<longrightarrow> \<not> gAvailable x"
    using wk(2) by (auto simp: set_available_map)
  have "map_of (workers ?t) w = Some (if w = v then occupy (tID (heap s b)) b gs wk else wk)"
    using wk(1) by (cases "w = v") (simp_all add: map_of_place_on sched_frame)
  moreover have "map_ok (workers ?t)" "a < heapNext ?t" "tStatus (heap ?t a) = TaskStatus_RUNNING"
    using assms by (simp_all add: holding_iff place_on_def sched_frame)
  ultimately show ?thesis using wk(2) gpus unfolding holding_iff
    by (intro conjI exI [of _ "if w = v then occupy (tID (heap s b)) b gs wk else wk"])
       (simp_all add: occupy_def)
qed

lemma holding_serve:
  assumes "any_mutex (mutex E)" and "server_ok E p s" and "\<forall>u. c \<noteq> ReportTaskStatusCall u" and "holding a w g s"
  shows "holding a w g (final_state (serve E p c s))"
  using assms
proof (rule keeps_serve [where P = "holding a w g"])
  show "only_asked s t \<Longrightarrow> holding a w g s \<Longrightarrow> holding a w g t" for s t by (simp add: holding_iff only_askedD)
qed (simp_all add: insensitive_holding holding_place, auto simp: holding_iff alloc_task_def)

text \<open>Without calls of \<^verbatim>\<open>AddTask\<close> the scheduler never has a task.\<close>

definition taskless :: "sched \<Rightarrow> bool" where
  "taskless s \<longleftrightarrow> map_ok (workers s) \<and> tasks s = [] \<and> pendingTasks s = []"

lemma taskless_serve:
  assumes "any_mutex (mutex E)" and "server_ok E p s" and "\<forall>u. c \<noteq> ReportTaskStatusCall u"
    and "\<forall>task. c \<noteq> AddTaskCall task" and "taskless s"
  shows "taskless (final_state (serve E p c s))"
  using assms(1,2,3,5)
proof (rule keeps_serve [where P = taskless])
  show "only_asked s t \<Longrightarrow> taskless s \<Longrightarrow> taskless t" for s t by (simp add: taskless_def only_askedD)
qed (use assms(4) in \<open>simp_all add: insensitive_def taskless_def sched_frame\<close>)

section \<open>An example run\<close>

text \<open>A worker with one GPU is started and a task put in from inside the server; then the worker asks and is told its state.\<close>

definition sys_flags :: worker_flags where
  "sys_flags = \<lparr>wfScheduler = ''s'', wfGpus = ''g'', wfModels = ''m'', wfMemories = ''8'', wfAddr = ''host'',
     wfLogLevel = ''info'', wfLogDir = ''/var/log/worker''\<rparr>"

definition sys_events :: "sys_event list" where
  "sys_events = [StartWorker sys_flags, InProcessAdd (no_task\<lparr>tID := ''t'', tRequiredGPUs := 1, tMinGPUMemory := 4\<rparr>)]"

definition later_events :: "sys_event list" where
  "later_events = [AskForTask 0, NodeTicker 0, StatusMessage 0, AskForTask 0]"

definition quiet_log :: "unit log_env" where
  "quiet_log = \<lparr>leParseLevel = (\<lambda>_. Some ()), leInfoLevel = (), leMkdirAll = (\<lambda>_. None), leOpenFile = (\<lambda>_. None)\<rparr>"

definition sys_example :: "unit sys_env" where
  "sys_example = \<lparr>seServer = example_env reentrant_rwmutex, seNode = node_example_env reentrant_rwmutex,
     seLog = quiet_log, sePolicy = BalancedWorkloadPolicy\<rparr>"

lemma sys_example_ok: "env_ok sys_example" "list_all event_ok sys_events" "list_all event_ok later_events"
  by (simp add: env_ok_def any_mutex_def sys_example_def example_env_def node_example_env_def, code_simp, code_simp)

lemma sys_example_run:
  "map (\<lambda>v. v \<noteq> None) (syNodes (sys_run sys_example sys_events (system_start False None))) = [True]
     \<and> holding 0 ''worker-1'' ''g'' (sySched (sys_run sys_example sys_events (system_start False None)))"
  by code_simp

section \<open>Properties of the whole system\<close>

text \<open>C4: No task is ever run: whatever workers are started, tasks added and requests made, in whatever order, and with either
  mutex, no worker ever has an active task, runs one or reports on one, because the server hands none out.\<close>

theorem no_task_is_ever_run:
  assumes "env_ok X" and "list_all event_ok evs" and "Some w \<in> set (syNodes (sys_run X evs (system_start b m)))"
  shows "nwActiveTasks w = [] \<and> nwRunning w = [] \<and> nwReports w = []"
  using sys_run_ok [OF assms(1,2)] assms(3) by (auto simp: system_ok_def node_ok_def never_worked_def)

theorem no_task_is_ever_run_witness:
  "\<exists>w. Some w \<in> set (syNodes (sys_run sys_example sys_events (system_start False None))) \<and> nwReports w = []"
proof -
  obtain w where "syNodes (sys_run sys_example sys_events (system_start False None)) = [Some w]"
    using sys_example_run by auto
  then have "Some w \<in> set (syNodes (sys_run sys_example sys_events (system_start False None)))" by simp
  with no_task_is_ever_run [OF sys_example_ok(1,2) this] show ?thesis by blast
qed

text \<open>C3: The first status message ends a worker: the server's message names the worker's GPUs, of which every worker that
  starts has at least one, and the worker panics in a log line. So after any run of the system with any number of workers,
  the process of the worker that receives a message is gone.\<close>

theorem status_message_ends_worker:
  assumes "env_ok X" and "list_all event_ok evs"
  shows "live (sys_step X (StatusMessage i) (sys_run X evs (system_start b m))) i = None"
proof -
  let ?sy = "sys_run X evs (system_start b m)"
  have sy: "system_ok X ?sy" by (rule sys_run_ok [OF assms])
  show ?thesis
  proof (cases "live ?sy i")
    case (Some w)
    then have "mutex (seServer X) \<noteq> go_rwmutex" using sy by (auto simp: system_ok_def live_def split: if_splits)
    then have "reached (seServer X) (sePolicy X) (sySched ?sy)" using sy by (simp add: system_ok_def server_ok_def)
    then show ?thesis using status_event_ok [OF assms(1) sy] by simp
  qed (simp add: status_event_def)
qed

theorem status_message_ends_worker_witness:
  "live (sys_run sys_example sys_events (system_start False None)) 0 \<noteq> None
     \<and> live (sys_step sys_example (StatusMessage 0) (sys_run sys_example sys_events (system_start False None))) 0 = None"
proof
  show "live (sys_run sys_example sys_events (system_start False None)) 0 \<noteq> None"
    using sys_example_run by (auto simp: live_def)
qed (rule status_message_ends_worker [OF sys_example_ok(1,2)])

text \<open>C6: A running task never ends: once the server has marked a task as running and a GPU of a worker as
  taken, no run of the system that follows, of any length, ends the task or gives the GPU back.\<close>

theorem running_tasks_never_end:
  assumes "env_ok X" and "list_all event_ok evs" and "list_all event_ok evs'"
    and "holding a w g (sySched (sys_run X evs (system_start b m)))"
  shows "holding a w g (sySched (sys_run X evs' (sys_run X evs (system_start b m))))"
proof -
  have "holding a w g t" if "server_ok (seServer X) (sePolicy X) s" "served X ev s t" "holding a w g s" for ev s t
    using that(2,3) holding_serve [OF _ that(1) _ that(3)] assms(1) unfolding served_def env_ok_def by blast
  then show ?thesis
    using sys_run_rule [where P = "holding a w g", OF assms(1) sys_run_ok [OF assms(1,2)] assms(3,4)] by blast
qed

theorem running_tasks_never_end_witness:
  "holding 0 ''worker-1'' ''g'' (sySched (sys_run sys_example later_events
     (sys_run sys_example sys_events (system_start False None))))"
  using running_tasks_never_end [OF sys_example_ok] sys_example_run by blast

text \<open>C7: The program that submits tasks never submits one: as it names no worker, the server refuses its request
  in every state it gets into (or never answers), the program ends with an error, and nothing changes. As long as
  nothing inside the server calls \<^verbatim>\<open>AddTask\<close> (no code does) the server never has a task.\<close>

theorem submissions_are_refused:
  assumes "env_ok X" and "list_all event_ok evs" and "task_config read_file unmarshal f = Runs config"
    and sy: "sy = sys_run X evs (system_start b m)"
  shows "submit_main read_file unmarshal marshal now None (ask_server X sy) f
       \<in> {Ends ''Failed to submit task: rpc error: code = NotFound desc = Worker not registered: '',
          Ends ''Failed to submit task: rpc error: code = DeadlineExceeded desc = context deadline exceeded''}
     \<and> sys_step X (SubmitTask task) sy = sy
     \<and> ((\<forall>t. InProcessAdd t \<notin> set evs) \<longrightarrow> tasks (sySched sy) = [])"
proof -
  let ?E = "seServer X" and ?p = "sePolicy X" and ?s = "sySched sy"
  have ok: "syUp sy" "server_ok ?E ?p ?s" and E: "any_mutex (mutex ?E)"
    using sys_run_ok [OF assms(1,2)] assms(1) by (simp_all add: sy system_ok_def env_ok_def)
  have served: "serve ?E ?p (RequestTaskCall (submit_request task)) ?s
        = Done (RequestTaskReply (Inl (NotFound, ''Worker not registered: ''))) ?s
      \<or> serve ?E ?p (RequestTaskCall (submit_request task)) ?s = Stuck ?s" for task
  proof (cases "reached ?E ?p ?s")
    case True
    then show ?thesis using unnamed_request_refused [OF _ True, of "submit_request task"] E
      by (simp add: any_mutex_def submit_request_def)
  next
    case False
    then have w: "mutex ?E = go_rwmutex" "mu ?s = write_locked" using ok by (simp_all add: server_ok_def)
    show ?thesis by (rule wedged_serve [OF w, of ?p "RequestTaskCall (submit_request task)"]) simp_all
  qed
  have asked: "ask X (RequestTaskCall (submit_request task)) sy
        = (Some (RequestTaskReply (Inl (NotFound, ''Worker not registered: ''))), sy)
      \<or> ask X (RequestTaskCall (submit_request task)) sy = (None, sy)" for task
    using served [of task] ok(1) by (elim disjE) (simp_all add: ask_def del: serve.simps)
  have "submit_main read_file unmarshal marshal now None (ask_server X sy) f
       \<in> {Ends ''Failed to submit task: rpc error: code = NotFound desc = Worker not registered: '',
          Ends ''Failed to submit task: rpc error: code = DeadlineExceeded desc = context deadline exceeded''}"
    using asked [of "submitted_task marshal now config"]
    by (auto simp: submit_main_def assms(3) rpc_error_def ask_server_def)
  moreover have "sys_step X (SubmitTask task) sy = sy" using asked [of task] by auto
  moreover have "tasks ?s = []" if "\<forall>t. InProcessAdd t \<notin> set evs"
  proof -
    have "taskless t" if "ev \<in> set evs" "server_ok ?E ?p s" "served X ev s t" "taskless s" for ev s t
      using that \<open>\<forall>t. InProcessAdd t \<notin> set evs\<close> taskless_serve [OF E that(2) _ _ that(4)]
      unfolding served_def by metis
    then have "taskless ?s"
      using sys_run_rule [where P = taskless, OF assms(1) system_start_ok assms(2)]
      by (simp add: sy system_start_def taskless_def NewScheduler_def)
    then show ?thesis by (simp add: taskless_def)
  qed
  ultimately show ?thesis by blast
qed

definition submit_example :: submit_flags where
  "submit_example = \<lparr>bfName = ''train'', bfGpus = 1, bfMemory = 4096, bfConfig = ''''\<rparr>"

theorem submissions_are_refused_witness:
  "sys_step sys_example (SubmitTask (submitted_task (\<lambda>_. []) 7
        \<lparr>tcName = ''train'', tcRequiredGPUs = 1, tcMinGPUMemory = 4096, tcParams = Some []\<rparr>))
      (sys_run sys_example [StartWorker sys_flags] (system_start False None))
     = sys_run sys_example [StartWorker sys_flags] (system_start False None)"
proof -
  have config: "task_config (\<lambda>_. Inl '''') (\<lambda>_. Inl '''') submit_example
      = Runs \<lparr>tcName = ''train'', tcRequiredGPUs = 1, tcMinGPUMemory = 4096, tcParams = Some []\<rparr>"
    by (simp add: task_config_def submit_example_def)
  have "list_all event_ok [StartWorker sys_flags]" using sys_example_ok(2) by (simp add: sys_events_def)
  from submissions_are_refused [OF sys_example_ok(1) this config refl] show ?thesis by blast
qed

end
