(* ===== verification/Monitor.thy ===== *)
theory Monitor
  imports Programs
begin

text \<open>
  The program of \<^verbatim>\<open>cmd/monitor\<close>: what it prints for the messages it receives, and how it ends. Sleeping and the
  signal handler are left out; the connection, the answers of the server and the formatting of a point in time in the
  local time zone are arguments. A run is what has been printed, and the message of the \<^verbatim>\<open>log.Fatalf\<close> that ended it, if any.
\<close>

section \<open>Formatting\<close>

text \<open>
  \<^verbatim>\<open>%-20s\<close>: spaces are added up to the width, which \<^verbatim>\<open>fmt\<close> counts in runes: in valid UTF-8, as all strings
  of a message are, the bytes that do not continue a rune.
\<close>

definition rune_count :: "string \<Rightarrow> nat" where
  "rune_count s = length (filter (\<lambda>c. \<not> (128 \<le> (of_char c :: nat) \<and> of_char c < (192 :: nat))) s)"

definition pad_right :: "nat \<Rightarrow> string \<Rightarrow> string" where
  "pad_right n s = s @ replicate (n - rune_count s) (CHR '' '')"

definition newline :: string where
  "newline = [CHR 0x0A]"

text \<open>\<^verbatim>\<open>"\033[H\033[2J"\<close>\<close>

definition clear_screen :: string where
  "clear_screen = [CHR 0x1B] @ ''[H'' @ [CHR 0x1B] @ ''[2J''"

definition show_bool :: "bool \<Rightarrow> string" where
  "show_bool b = (if b then ''true'' else ''false'')"

section \<open>One worker\<close>

definition show_gpu :: "nat \<times> pbGPU \<Rightarrow> string" where
  "show_gpu p = (case p of (i, gpu) \<Rightarrow>
     ''GPU '' @ show_nat (i + 1) @ '':'' @ newline
     @ ''  ID: '' @ pgId gpu @ newline
     @ ''  Model: '' @ pgModel gpu @ newline
     @ ''  Memory: '' @ show_nat (unat (pgMemoryMb gpu)) @ '' MB'' @ newline
     @ ''  Available: '' @ show_bool (pgAvailable gpu) @ newline @ newline)"

definition show_task :: "nat \<times> TaskSummary \<Rightarrow> string" where
  "show_task p = (case p of (i, task) \<Rightarrow>
     ''Task '' @ show_nat (i + 1) @ '':'' @ newline
     @ ''  ID: '' @ smId task @ newline
     @ ''  Name: '' @ smName task @ newline
     @ ''  Status: '' @ getTaskStatusString (smStatus task) @ newline
     @ ''  Progress: '' @ fmt_fixed 2 (f_mul rnd32 (smProgress task) (Fin 100)) @ ''%'' @ newline @ newline)"

definition displayWorkerStatus :: "(int \<Rightarrow> string) \<Rightarrow> WorkerStatusResponse \<Rightarrow> string" where
  "displayWorkerStatus fmt_time status =
     ''Worker ID: '' @ wsWorkerId status @ newline
     @ ''Status: '' @ getWorkerStatusString (wsStatus status) @ newline
     @ ''Timestamp: '' @ fmt_time (sint (wsTimestamp status)) @ newline @ newline
     @ ''GPUs:'' @ newline @ ''-----'' @ newline
     @ concat (map show_gpu (List.enumerate 0 (wsGpus status)))
     @ ''Active Tasks:'' @ newline @ ''------------'' @ newline
     @ (if wsActiveTasks status = [] then ''No active tasks'' @ newline
        else concat (map show_task (List.enumerate 0 (wsActiveTasks status))))"

text \<open>
  The loop over what \<^verbatim>\<open>stream.Recv\<close> returns, up to where the list ends; \<open>Inl\<close> is an error, which ends the program.
\<close>

fun watch_stream ::
  "(int \<Rightarrow> string) \<Rightarrow> (string + WorkerStatusResponse) list \<Rightarrow> string \<times> string option" where
  "watch_stream fmt_time [] = ('''', None)"
| "watch_stream fmt_time (Inl err # rs) = ('''', Some (''Error receiving status update: '' @ err))"
| "watch_stream fmt_time (Inr resp # rs) =
     (let (out, e) = watch_stream fmt_time rs in (clear_screen @ displayWorkerStatus fmt_time resp @ out, e))"

definition monitorWorker ::
  "(int \<Rightarrow> string) \<Rightarrow> (string \<Rightarrow> string + (string + WorkerStatusResponse) list) \<Rightarrow> string \<Rightarrow> string \<times> string option" where
  "monitorWorker fmt_time client workerID =
     (case client workerID of
        Inl err \<Rightarrow> ('''', Some (''Failed to start monitoring: '' @ err))
      | Inr stream \<Rightarrow>
          (let (out, e) = watch_stream fmt_time stream
           in (''Monitoring worker: '' @ workerID @ newline @ newline @ out, e)))"

section \<open>All workers\<close>

definition table_row :: "string \<Rightarrow> string \<Rightarrow> string \<Rightarrow> string \<Rightarrow> string" where
  "table_row a b c d = pad_right 20 a @ '' '' @ pad_right 10 b @ '' '' @ pad_right 20 c @ '' '' @ pad_right 10 d"

definition worker_row :: "WorkerInfo \<Rightarrow> string" where
  "worker_row worker = table_row (wiWorkerId worker) (getWorkerStatusString (wiStatus worker)) (wiAddress worker)
     (show_nat (unat (wiGpuCount worker)))"

definition workers_lines :: "WorkerInfo list \<Rightarrow> string list" where
  "workers_lines infos =
     [''All Workers Status:'', ''------------------'', ''Total Workers: '' @ show_nat (length infos), '''',
      table_row ''WORKER ID'' ''STATUS'' ''ADDRESS'' ''GPU COUNT'',
      ''--------------------------------------------------------------------'']
     @ (if infos = [] then [''No workers registered''] else map worker_row infos)
     @ ['''', ''Press Ctrl+C to exit'']"

definition workers_screen :: "WorkerInfo list \<Rightarrow> string" where
  "workers_screen infos = clear_screen @ concat (map (\<lambda>l. l @ newline) (workers_lines infos))"

fun list_loop :: "(string + WorkerInfo list) list \<Rightarrow> string \<times> string option" where
  "list_loop [] = ('''', None)"
| "list_loop (Inl err # rs) = ('''', Some (''Failed to list workers: '' @ err))"
| "list_loop (Inr infos # rs) = (let (out, e) = list_loop rs in (workers_screen infos @ out, e))"

definition monitorAllWorkers :: "(string + WorkerInfo list) list \<Rightarrow> string \<times> string option" where
  "monitorAllWorkers answers =
     (let (out, e) = list_loop answers in (''Monitoring all workers...'' @ newline @ out, e))"

section \<open>The program\<close>

record monitor_flags =
  mfScheduler :: string
  mfWorker :: string
  mfRefresh :: int

definition default_monitor_flags :: monitor_flags where
  "default_monitor_flags = \<lparr>mfScheduler = ''localhost:50051'', mfWorker = '''', mfRefresh = 1\<rparr>"

definition monitor_main ::
  "(int \<Rightarrow> string) \<Rightarrow> string option \<Rightarrow> (string \<Rightarrow> string + (string + WorkerStatusResponse) list) \<Rightarrow>
   (string + WorkerInfo list) list \<Rightarrow> monitor_flags \<Rightarrow> string \<times> string option" where
  "monitor_main fmt_time dial watch answers f =
     (case dial of Some err \<Rightarrow> ('''', Some (''Failed to connect to scheduler: '' @ err))
      | None \<Rightarrow> if mfWorker f \<noteq> '''' then monitorWorker fmt_time watch (mfWorker f) else monitorAllWorkers answers)"

end
