(* ===== verification/MonitorProps.thy ===== *)
theory MonitorProps
  imports Monitor SystemProps
begin

text \<open>
  The monitor against the server: what the table of workers shows for the state the server is in.
\<close>

section \<open>The table of workers\<close>

text \<open>The row a registered worker should have.\<close>

definition registered_row :: "string \<times> Worker \<Rightarrow> string" where
  "registered_row p = (case p of (i, wk) \<Rightarrow>
     table_row i (getWorkerStatusString (wStatus wk)) (wAddress wk) (show_nat (length (wGPUs wk))))"

lemma ListWorkers_rows:
  assumes "ListWorkers E s = Done infos t" and "\<forall>(i, wk) \<in> set (workers s). length (wGPUs wk) < 2 ^ 32"
  shows "length infos = length (workers s) \<and> mset (map worker_row infos) = mset (map registered_row (workers s))"
proof -
  obtain m where "m_rlock (mutex E) (mu s) = Some m" and infos: "infos =
     map (\<lambda>(wid, worker). \<lparr>wiWorkerId = wid, wiStatus = wStatus worker, wiAddress = wAddress worker,
        wiGpuCount = word_of_nat (length (wGPUs worker))\<rparr>) (permute (fst (orders E (envTick s))) (workers s))"
    using assms(1) by (auto simp: ListWorkers_def with_rlock_def locked_def split: option.splits)
  let ?ws = "permute (fst (orders E (envTick s))) (workers s)"
  have row: "worker_row \<lparr>wiWorkerId = i, wiStatus = wStatus wk, wiAddress = wAddress wk,
      wiGpuCount = word_of_nat (length (wGPUs wk))\<rparr> = registered_row (i, wk)" if "(i, wk) \<in> set ?ws" for i wk
  proof -
    have "length (wGPUs wk) < 2 ^ 32" using assms(2) that by (auto simp: set_permute)
    then have "unat (word_of_nat (length (wGPUs wk)) :: 32 word) = length (wGPUs wk)" by (simp add: unat_of_nat)
    then show ?thesis by (simp add: worker_row_def registered_row_def)
  qed
  have "map worker_row infos = map registered_row ?ws"
    unfolding infos map_map using row by (auto simp: comp_def split: prod.split)
  then have "mset (map worker_row infos) = mset (map registered_row ?ws)" by simp
  also have "\<dots> = mset (map registered_row (workers s))" by (simp add: mset_permute)
  finally show ?thesis by (simp add: infos length_permute)
qed

section \<open>The monitor of an unmodified server\<close>

text \<open>
  The answers the loop of \<^verbatim>\<open>monitorAllWorkers\<close> gets while the system goes through \<open>evss\<close> between its turns. A call that is never
  answered is the last one.
\<close>

fun monitor_answers :: "'l sys_env \<Rightarrow> sys_event list list \<Rightarrow> system \<Rightarrow> (string + WorkerInfo list) list" where
  "monitor_answers X [] sy = []"
| "monitor_answers X (evs # evss) sy =
     (case ask X ListWorkersCall (sys_run X evs sy) of
        (Some (ListWorkersReply infos), sy') \<Rightarrow> Inr infos # monitor_answers X evss sy'
      | _ \<Rightarrow> [])"

lemma go_lists_none:
  assumes X: "env_ok X" "mutex (seServer X) = go_rwmutex" and sy: "system_ok X sy"
  obtains sy' where "ask X ListWorkersCall sy = (Some (ListWorkersReply []), sy')" "system_ok X sy'"
  | sy' where "ask X ListWorkersCall sy = (None, sy')"
proof -
  obtain q t where t: "ask X ListWorkersCall sy = (q, sy\<lparr>sySched := t\<rparr>)" "system_ok X (sy\<lparr>sySched := t\<rparr>)"
    and run: "\<And>r. q = Some r \<Longrightarrow> serve (seServer X) (sePolicy X) ListWorkersCall (sySched sy) = Done r t
       \<and> reached (seServer X) (sePolicy X) (sySched sy)"
    by (rule ask_ok [OF X(1) sy, of ListWorkersCall ListAll]) auto
  show thesis
  proof (cases q)
    case (Some r)
    note r = run [OF Some]
    have "workers (sySched sy) = []" using go_reached_empty [OF X(2)] r by blast
    moreover obtain infos where "r = ListWorkersReply infos" "ListWorkers (seServer X) (sySched sy) = Done infos t"
      using r by (cases "ListWorkers (seServer X) (sySched sy)") auto
    ultimately have "r = ListWorkersReply []"
      by (auto simp: ListWorkers_def with_rlock_def locked_def permute_Nil_choice split: option.splits)
    then show thesis using that(1) t Some by simp
  qed (use that(2) t in simp)
qed

text \<open>C17: With Go's mutex the monitor never shows a worker. Whatever workers are started and whatever else happens
  between the turns of the monitor's loop, each answer it gets is an empty list: its whole output is a number of screens with
  \<open>Total Workers: 0\<close> and \<open>No workers registered\<close>, until a call is never answered.\<close>

theorem monitor_shows_no_workers:
  assumes "env_ok X" and "mutex (seServer X) = go_rwmutex" and "list_all (list_all event_ok) evss"
  shows "\<exists>n \<le> length evss. monitorAllWorkers (monitor_answers X evss (system_start b m))
     = (''Monitoring all workers...'' @ newline @ concat (replicate n (workers_screen [])), None)"
proof -
  have "\<exists>n \<le> length evss. list_loop (monitor_answers X evss sy) = (concat (replicate n (workers_screen [])), None)"
    if "system_ok X sy" for sy
    using that assms(3)
  proof (induction evss arbitrary: sy)
    case (Cons evs evss)
    have sy: "system_ok X (sys_run X evs sy)" using sys_run_rule [where P = "\<lambda>_. True", OF assms(1) Cons.prems(1)] Cons.prems(2)
      by simp
    from go_lists_none [OF assms(1,2) this] show ?case
    proof cases
      case (1 sy')
      from Cons.IH [OF 1(2)] Cons.prems obtain n where "n \<le> length evss"
        "list_loop (monitor_answers X evss sy') = (concat (replicate n (workers_screen [])), None)" by auto
      with 1 show ?thesis by (intro exI [of _ "Suc n"]) simp
    next
      case (2 sy')
      then show ?thesis by (intro exI [of _ 0]) simp
    qed
  qed simp
  from this [OF system_start_ok] obtain n where "n \<le> length evss"
    "list_loop (monitor_answers X evss (system_start b m)) = (concat (replicate n (workers_screen [])), None)" by blast
  then show ?thesis by (intro exI [of _ n]) (simp add: monitorAllWorkers_def)
qed

definition go_example :: "unit sys_env" where
  "go_example = \<lparr>seServer = example_env go_rwmutex, seNode = node_example_env go_rwmutex, seLog = quiet_log,
     sePolicy = BalancedWorkloadPolicy\<rparr>"

definition go_turns :: "sys_event list list" where
  "go_turns = [[], [StartWorker sys_flags], []]"

lemma go_turns_answers: "length (monitor_answers go_example go_turns (system_start True None)) = 1"
  by code_simp

theorem monitor_shows_no_workers_witness:
  "length (monitor_answers go_example go_turns (system_start True None)) = 1
     \<and> (\<exists>n \<le> 3. monitorAllWorkers (monitor_answers go_example go_turns (system_start True None))
          = (''Monitoring all workers...'' @ newline @ concat (replicate n (workers_screen [])), None))"
proof
  have "env_ok go_example" "mutex (seServer go_example) = go_rwmutex"
    by (simp_all add: env_ok_def any_mutex_def go_example_def example_env_def node_example_env_def)
  moreover have "list_all (list_all event_ok) go_turns" by code_simp
  moreover have "length go_turns = 3" by (simp add: go_turns_def)
  ultimately show "\<exists>n \<le> 3. monitorAllWorkers (monitor_answers go_example go_turns (system_start True None))
      = (''Monitoring all workers...'' @ newline @ concat (replicate n (workers_screen [])), None)"
    using monitor_shows_no_workers [of go_example go_turns True None] by simp
qed (rule go_turns_answers)

section \<open>What the table shows otherwise\<close>

text \<open>C18: The monitor shows the truth: in every state the server reaches, with either mutex, \<^verbatim>\<open>ListWorkers\<close> is answered, and the
  table printed for the answer has one row for each registered worker, with its id, status, address and number of GPUs, in some
  order, and the right total. The conversion of the number of GPUs to 32 bits loses nothing.\<close>

theorem monitor_table_is_accurate:
  assumes "mutex E \<in> {go_rwmutex, reentrant_rwmutex}" and "reached E p s"
  shows "\<exists>infos t. ListWorkers E s = Done infos t
     \<and> mset (map worker_row infos) = mset (map registered_row (workers s))
     \<and> workers_lines infos ! 2 = ''Total Workers: '' @ show_nat (length (workers s))
     \<and> (workers s \<noteq> [] \<longrightarrow> take (length (workers s)) (drop 6 (workers_lines infos)) = map worker_row infos)"
proof -
  have E: "any_mutex (mutex E)" using assms(1) by (simp add: any_mutex_def)
  have s: "mu s = unlocked" "sched_wf s" using reached_calm [OF E assms(2)] by (simp_all add: serving_def)
  obtain infos t where L: "ListWorkers E s = Done infos t" using reads_only_ask(2) [OF E s(1)] by blast
  have "\<forall>(i, wk) \<in> set (workers s). length (wGPUs wk) < 2 ^ 32"
    using s(2) map_ok_in_iff unfolding sched_wf_def worker_ok_def by fastforce
  from ListWorkers_rows [OF L this] show ?thesis
    by (intro exI [of _ infos] exI [of _ t]) (auto simp: L workers_lines_def)
qed

theorem monitor_table_is_accurate_witness:
  "\<exists>s infos t. example_run (\<lambda>_ _. True) [RegisterWorkerCall example_request] = Some s
     \<and> ListWorkers (example_env reentrant_rwmutex) s = Done infos t \<and> length (workers s) = 1
     \<and> mset (map worker_row infos) = mset (map registered_row (workers s))"
proof -
  have "map_option (\<lambda>s. length (workers s)) (example_run (\<lambda>_ _. True) [RegisterWorkerCall example_request]) = Some 1"
    by code_simp
  then obtain s where s: "example_run (\<lambda>_ _. True) [RegisterWorkerCall example_request] = Some s"
    "length (workers s) = 1" by auto
  have "mutex (example_env reentrant_rwmutex) \<in> {go_rwmutex, reentrant_rwmutex}" by (simp add: example_env_def)
  from monitor_table_is_accurate [OF this example_run_reached [OF s(1)]] s show ?thesis by blast
qed

end
