(* ===== verification/Spec2Isabelle.thy ===== *)
theory Spec2Isabelle
  imports PolicyScore SchedProtocol SchedGPU SchedLedger DBRefine PersistProps WorkerGPU WorkerLife MetricsProps MetricsServing ServerProps
    SystemProps MonitorProps
begin

text \<open>
  A model of the distributed training scheduler (Go): the server of \<^verbatim>\<open>cmd/server\<close> with \<^verbatim>\<open>pkg/scheduler\<close> and
  \<^verbatim>\<open>pkg/persistence\<close>, the worker of \<^verbatim>\<open>cmd/worker\<close> with \<^verbatim>\<open>pkg/worker\<close>, the client programs \<^verbatim>\<open>cmd/submit\<close> and
  \<^verbatim>\<open>cmd/monitor\<close>, and the packages \<^verbatim>\<open>pkg/metrics\<close> and \<^verbatim>\<open>pkg/logging\<close> they share.

  \<^bold>\<open>The program.\<close> Workers register with the server over gRPC (\<^verbatim>\<open>RegisterWorker\<close>), ask for tasks (\<^verbatim>\<open>RequestTask\<close>),
  report on them (\<^verbatim>\<open>ReportTaskStatus\<close>) and follow a stream of status messages (\<^verbatim>\<open>MonitorWorker\<close>). The server keeps maps of
  workers and tasks and a queue of pending tasks under one \<^verbatim>\<open>sync.RWMutex\<close>, places tasks with one of two policies, counts in
  Prometheus collectors, and can save its state to a database and load it at the start. A worker runs each task in a
  goroutine and keeps its own view of tasks and GPUs under a mutex of its own.

  \<^bold>\<open>The language.\<close> \<open>GoBase\<close> holds outcomes (\<open>Done\<close>, \<open>Stuck\<close> for waiting for ever, \<open>Panicked\<close>), statement lists
  (\<open>block\<close>), maps as association lists with an arbitrary iteration order, \<^verbatim>\<open>sort.Slice\<close> and decimal printing, and the rules
  \<open>keeps\<close> (a property is kept whatever the outcome) and \<open>runs\<close>. \<open>GoFloat\<close> is float64 and float32 as rationals with
  NaN and infinities, rounded after each operation; \<open>GoString\<close> the functions of \<^verbatim>\<open>strings\<close>, \<^verbatim>\<open>strconv\<close> and \<^verbatim>\<open>time\<close> that are
  used; \<open>Mutex\<close> the read-write mutex with a locale for what callers rely on: Go's mutex blocks a nested read lock
  (\<open>go_rwmutex\<close>), and the counterfactual \<open>reentrant_rwmutex\<close>, for which the code seems to be written, grants it. The program has Go's
  mutex: properties are stated for it or for both. \<open>Proto\<close> has the messages.

  \<^bold>\<open>The server.\<close> \<open>SchedTypes\<close>, \<open>Policy\<close>: the structs and the two \<^verbatim>\<open>AssignTask\<close> methods of \<^verbatim>\<open>policy.go\<close>, as instances
  of a locale; \<open>PolicyScore\<close>: assignments are sound and complete and take a worker of least score. \<open>SchedState\<close>: the record
  \<open>sched\<close> for the struct \<^verbatim>\<open>Scheduler\<close> and its hooks in \<^verbatim>\<open>metrics.go\<close>. \<open>Scheduler\<close>: the handlers of \<^verbatim>\<open>scheduler.go\<close>,
  statement by statement. \<open>SchedInv\<close>: well-formedness is kept; \<open>SchedLock\<close>: what each handler does with either mutex;
  \<open>SchedProtocol\<close>: the states the server reaches by answering requests, in all of which no pending task can be placed, so
  that none is ever handed out, and which requests are answered: Go's mutex blocks the first registration; \<open>SchedStatus\<close>: the status of a
  worker agrees with its tasks; \<open>SchedLedger\<close>: the handlers refine a ledger of workers and placements; \<open>SchedGPU\<close>: who holds which GPU.

  \<^bold>\<open>Persistence.\<close> \<open>ManagerTypes\<close>, \<open>PersistManager\<close>: \<^verbatim>\<open>manager.go\<close>; \<open>Database\<close>: \<^verbatim>\<open>database.go\<close>. The database library
  is a record of statements with a view of the database as tables (without \<^verbatim>\<open>CreatedAt\<close> and \<^verbatim>\<open>UpdatedAt\<close>, which the library
  sets) and the laws \<open>gorm_laws\<close>, which \<open>MemoryDB\<close> shows to be satisfiable; they speak of rows that the drivers can store: text in
  UTF-8, finite floats, 63-bit numbers and times up to the year 9999. \<open>PersistRT\<close>, \<open>PersistLoad\<close>: what a save writes and a load
  gives back, with unique GPU ids (\<open>saveable\<close>) and without (\<open>saveable_rows\<close>); \<open>DBRefine\<close>: the database layer refines a
  store of whole workers and tasks. \<open>SchedPersist\<close>: \<^verbatim>\<open>scheduler_persistence.go\<close>; \<open>PersistProps\<close>: what survives and what does
  not, and the limits of the save interval.

  \<^bold>\<open>The worker.\<close> \<open>WorkerNode\<close>: the allocation of GPUs; \<open>WorkerRun\<close>, \<open>WorkerCommand\<close>: the record \<open>NodeWorker\<close>, running
  tasks, polling, following the scheduler, commands, with one step for each turn of a goroutine (\<open>node_step\<close>).
  \<open>WorkerInv\<close>: two locales in which an invariant is checked against single assignments and kept by every step, the first
  without the assignments that begin and end tasks;
  \<open>WorkerProgress\<close>: the float64 loop of a task; \<open>WorkerProps\<close>, \<open>WorkerGPU\<close>, \<open>WorkerIdle\<close>: settings, deadlocks and
  panics, GPUs of running tasks, workers without tasks. \<open>WorkerStream\<close>: \<^verbatim>\<open>reportStatus\<close> with its streams, receivers and
  reconnections; \<open>WorkerLife\<close>: \<^verbatim>\<open>Start\<close>, \<^verbatim>\<open>pollForTasks\<close> and all goroutines together (\<open>life_step\<close>), whose
  turns are steps of \<open>node_step\<close>, and what is left after the context is cancelled.

  \<^bold>\<open>Metrics, logging, programs.\<close> \<open>Metrics\<close>: the collectors and the methods on them; the Prometheus client is a record of
  operations with the laws \<open>prom_laws\<close>. \<open>MetricsProps\<close>: what the exported series show;
  \<open>MetricsServing\<close>: the HTTP server for them as an object that listens, serves and closes. \<open>Logging\<close>: a log line with a
  nil map of fields panics. \<open>Programs\<close>, \<open>Monitor\<close>: the four programs from their flags on; \<open>ServerProps\<close>, \<open>MonitorProps\<close>.

  \<^bold>\<open>The whole.\<close> \<open>System\<close>: one server and any number of workers, with the calls between them as events (\<open>sys_step\<close>);
  \<open>SystemProps\<close>, \<open>MonitorProps\<close>: what no run of the whole system does.

  \<^bold>\<open>What is an argument.\<close> The clock, the order of map iterations and of unstable sorting (all values are allowed), the mutex
  (either of two), the database library, the Prometheus client, the file system and level parser of the logger, the
  answers of a remote side where a component is looked at alone, \<^verbatim>\<open>encoding/json\<close>, and the local time format. Lists of
  2^32 GPUs or more are excluded by hypothesis (\<open>request_ok\<close>, \<open>event_ok\<close>): they do not fit into a message. There is no
  fuel: every loop of the code is structural or has a measure, and a loop that may run for ever (streams, tickers,
  goroutines) is a list of the turns it takes.

  \<^bold>\<open>What is not modelled.\<close> The contents of log lines, gRPC and protobuf plumbing and generated code, what the HTTP server for metrics sends,
  the histogram buckets, signals other than as the event that ends a program, sleeping, the manager's own mutex
  (held for one operation at a time), fused multiply-add on machines that have it, and trimming and lower-casing
  of text that is not ASCII. A message is handled in one piece: of two goroutines, one waits while the other holds the mutex.
\<close>

end
